(* ===== verification/AP_Prelude.thy ===== *)
theory AP_Prelude
  imports Main "HOL-Library.Multiset"
begin

text \<open>
  Shared vocabulary of the development: Go's way of ending a call (a value, an error value or
  a panic), stateful calls, the lemma collections, and the generic lemmas on lists, sums and
  options that the component proofs rest on.

  \<^item> An error value of Go is a \<open>goerr\<close>: \<open>ErrNew\<close> for an error the program makes itself
    (\<^verbatim>\<open>errors.New\<close>, \<^verbatim>\<open>fmt.Errorf\<close> without \<open>%w\<close>), \<open>ErrLib\<close> for one that a library
    or the API server hands out, \<open>ErrWrap\<close> for \<^verbatim>\<open>fmt.Errorf("prefix: %w", err)\<close>.
  \<^item> A Go function returning \<^verbatim>\<open>(T, error)\<close> becomes one of type \<open>goerr + T\<close>.
  \<^item> A call that may panic returns an \<open>outcome\<close>.
  \<^item> A call that reads and writes state \<open>'s\<close> has type \<open>('s, 'a) go\<close>.
\<close>

section \<open>Errors, panics and stateful calls\<close>

datatype goerr = ErrNew string | ErrLib string | ErrWrap string goerr

text \<open>The text an error prints, Go's \<^verbatim>\<open>err.Error()\<close>.\<close>

primrec errText :: "goerr \<Rightarrow> string" where
  "errText (ErrNew m) = m"
| "errText (ErrLib m) = m"
| "errText (ErrWrap p e) = p @ '': '' @ errText e"

datatype 'a outcome = Panics string | Returns 'a

type_synonym ('s, 'a) go = "'s \<Rightarrow> ('a \<times> 's) outcome"

definition go_ret :: "'a \<Rightarrow> ('s, 'a) go" where
  "go_ret a s = Returns (a, s)"

definition go_bind :: "('s, 'a) go \<Rightarrow> ('a \<Rightarrow> ('s, 'b) go) \<Rightarrow> ('s, 'b) go" where
  "go_bind m f s = (case m s of Panics p \<Rightarrow> Panics p | Returns (a, s') \<Rightarrow> f a s')"

definition go_map :: "('a \<Rightarrow> 'b) \<Rightarrow> ('s, 'a) go \<Rightarrow> ('s, 'b) go" where
  "go_map f m = go_bind m (\<lambda>a. go_ret (f a))"

text \<open>A call that does not touch the state.\<close>

definition go_lift :: "'a outcome \<Rightarrow> ('s, 'a) go" where
  "go_lift r s = (case r of Panics p \<Rightarrow> Panics p | Returns a \<Rightarrow> Returns (a, s))"

text \<open>Running a list of calls one after the other and appending what they return, as Go's
  \<^verbatim>\<open>for _, fn := range fns { el = append(el, fn()...) }\<close> does.\<close>

primrec go_concat :: "('s, 'a list) go list \<Rightarrow> ('s, 'a list) go" where
  "go_concat [] = go_ret []"
| "go_concat (f # fs) = go_bind f (\<lambda>xs. go_map (\<lambda>ys. xs @ ys) (go_concat fs))"

text \<open>A call that works on one part of a two-part state.\<close>

definition go_fst :: "('s, 'a) go \<Rightarrow> ('s \<times> 't, 'a) go" where
  "go_fst m s =
     (case m (fst s) of Panics p \<Rightarrow> Panics p | Returns (a, t) \<Rightarrow> Returns (a, (t, snd s)))"

definition go_snd :: "('t, 'a) go \<Rightarrow> ('s \<times> 't, 'a) go" where
  "go_snd m s =
     (case m (snd s) of Panics p \<Rightarrow> Panics p | Returns (a, t) \<Rightarrow> Returns (a, (fst s, t)))"

text \<open>Reading a stateful call through an invariant: from every good state it returns the value
  \<open>v\<close> and leaves a good state.\<close>

definition go_yields :: "('s \<Rightarrow> bool) \<Rightarrow> ('s, 'a) go \<Rightarrow> 'a \<Rightarrow> bool" where
  "go_yields I m v \<longleftrightarrow> (\<forall>s. I s \<longrightarrow> (\<exists>s'. m s = Returns (v, s') \<and> I s'))"

text \<open>The same for calls that may panic: from every good state the call ends as \<open>r\<close> says.\<close>

definition go_ends :: "('s \<Rightarrow> bool) \<Rightarrow> ('s, 'a) go \<Rightarrow> 'a outcome \<Rightarrow> bool" where
  "go_ends I m r \<longleftrightarrow>
     (\<forall>s. I s \<longrightarrow> (case r of Panics p \<Rightarrow> m s = Panics p
                       | Returns v \<Rightarrow> (\<exists>s'. m s = Returns (v, s') \<and> I s')))"

text \<open>The answer of a call made in state \<open>s\<close>, without the state it leaves.\<close>

definition go_answer :: "'s \<Rightarrow> ('s, 'a) go \<Rightarrow> 'a outcome" where
  "go_answer s m = (case m s of Panics p \<Rightarrow> Panics p | Returns (a, _) \<Rightarrow> Returns a)"

definition out_bind :: "'a outcome \<Rightarrow> ('a \<Rightarrow> 'b outcome) \<Rightarrow> 'b outcome" where
  "out_bind m f = (case m of Panics p \<Rightarrow> Panics p | Returns a \<Rightarrow> f a)"

primrec out_concat :: "'a list outcome list \<Rightarrow> 'a list outcome" where
  "out_concat [] = Returns []"
| "out_concat (m # ms) =
     out_bind m (\<lambda>xs. out_bind (out_concat ms) (\<lambda>ys. Returns (xs @ ys)))"

text \<open>A stateful call that collects errors checks a condition \<open>P\<close>: it ends in the same way from
  every good state, it finds no error exactly if \<open>P\<close> holds, and it does not panic if \<open>safe\<close>.\<close>

definition go_checks :: "bool \<Rightarrow> ('s \<Rightarrow> bool) \<Rightarrow> ('s, 'a list) go \<Rightarrow> bool \<Rightarrow> bool" where
  "go_checks safe I m P \<longleftrightarrow>
     (\<exists>r. go_ends I m r \<and> (safe \<longrightarrow> (\<exists>el. r = Returns el)) \<and>
          (\<forall>el. r = Returns el \<longrightarrow> (el = [] \<longleftrightarrow> P)))"

section \<open>Lemma collections\<close>

named_theorems go_simps \<open>equations that run the stateful calls\<close>
named_theorems ends_intros \<open>how a stateful call ends, by its parts\<close>
named_theorems checks_intros \<open>what an error-collecting call checks, by its parts\<close>

lemma out_bind_simps [simp]:
  "out_bind (Panics p) f = Panics p"
  "out_bind (Returns a) f = f a"
  by (simp_all add: out_bind_def)

lemma out_bind_eq_Returns [simp]:
  "out_bind m f = Returns b \<longleftrightarrow> (\<exists>a. m = Returns a \<and> f a = Returns b)"
  by (cases m) auto

lemma go_ret_app [go_simps]: "go_ret a s = Returns (a, s)"
  by (simp add: go_ret_def)

lemma go_bind_app [go_simps]:
  "m s = Returns (a, s') \<Longrightarrow> go_bind m f s = f a s'"
  "m s = Panics p \<Longrightarrow> go_bind m f s = Panics p"
  by (simp_all add: go_bind_def)

lemma go_part_app [go_simps]:
  "m s = Returns (a, s') \<Longrightarrow> go_fst m (s, t) = Returns (a, (s', t))"
  "n t = Returns (b, t') \<Longrightarrow> go_snd n (s, t) = Returns (b, (s, t'))"
  by (simp_all add: go_fst_def go_snd_def)

lemma go_bind_eq_Returns:
  "go_bind m f s = Returns r \<longleftrightarrow> (\<exists>a s'. m s = Returns (a, s') \<and> f a s' = Returns r)"
  by (auto simp: go_bind_def split: outcome.splits prod.splits)

text \<open>Passing on a value after \<^verbatim>\<open>if err != nil { return err }\<close>.\<close>

lemma go_bind_sum_Inr:
  "go_bind m (\<lambda>r. case r of Inl e \<Rightarrow> go_ret (Inl (g e)) | Inr a \<Rightarrow> f a) s = Returns (Inr b, s') \<longleftrightarrow>
   (\<exists>a s1. m s = Returns (Inr a, s1) \<and> f a s1 = Returns (Inr b, s'))"
proof (cases "m s")
  case (Returns q)
  then show ?thesis by (cases q; cases "fst q") (auto simp: go_bind_def go_ret_def)
qed (simp add: go_bind_def)

lemma go_map_eq_Returns:
  "go_map f m s = Returns (b, s') \<longleftrightarrow> (\<exists>a. m s = Returns (a, s') \<and> b = f a)"
  by (auto simp: go_map_def go_bind_eq_Returns go_ret_def)

subsection \<open>How a call ends\<close>

lemma go_ends_Returns: "go_ends I m (Returns v) = go_yields I m v"
  by (simp add: go_ends_def go_yields_def)

lemma go_endsD_Returns:
  assumes "go_ends I m (Returns v)" and "I s"
  obtains s' where "m s = Returns (v, s')" and "I s'"
  using assms by (auto simp: go_ends_def)

lemma go_endsD_Panics: "go_ends I m (Panics p) \<Longrightarrow> I s \<Longrightarrow> m s = Panics p"
  by (auto simp: go_ends_def)

lemma go_ends_ret [ends_intros]: "go_ends I (go_ret v) (Returns v)"
  by (simp add: go_ends_def go_ret_def)

lemma go_ends_bind:
  assumes m: "go_ends I m r" and f: "\<And>a. r = Returns a \<Longrightarrow> go_ends I (f a) (g a)"
  shows "go_ends I (go_bind m f) (out_bind r g)"
proof (cases r)
  case (Panics p)
  with m show ?thesis by (auto simp: go_ends_def go_bind_def)
next
  case (Returns a)
  with f have fa: "go_ends I (f a) (g a)" by simp
  show ?thesis
    unfolding go_ends_def Returns out_bind_simps
  proof (intro allI impI)
    fix s assume "I s"
    with m Returns obtain s' where s': "m s = Returns (a, s')" "I s'"
      by (auto simp: go_ends_def)
    with fa show "case g a of Panics p \<Rightarrow> go_bind m f s = Panics p
                     | Returns v \<Rightarrow> \<exists>s''. go_bind m f s = Returns (v, s'') \<and> I s''"
      by (auto simp: go_ends_def go_bind_def split: outcome.splits)
  qed
qed

lemma go_ends_map:
  "go_ends I m r \<Longrightarrow> go_ends I (go_map f m) (out_bind r (\<lambda>a. Returns (f a)))"
  unfolding go_map_def by (rule go_ends_bind) (auto intro: ends_intros)

lemma go_ends_concat:
  "list_all2 (go_ends I) fs rs \<Longrightarrow> go_ends I (go_concat fs) (out_concat rs)"
proof (induction fs rs rule: list_all2_induct)
  case Nil
  show ?case by (simp add: go_ends_ret)
next
  case (Cons f fs r rs)
  then show ?case
    by (auto intro!: go_ends_bind go_ends_map)
qed

lemma go_ends_answer: "go_ends I m r \<Longrightarrow> I s \<Longrightarrow> go_answer s m = r"
  by (cases r) (force simp: go_ends_def go_answer_def)+

lemma go_ends_deterministic:
  "go_ends I m r \<Longrightarrow> I s \<Longrightarrow> m s = Returns (v, s') \<Longrightarrow> r = Returns v \<and> I s'"
  by (cases r) (force simp: go_ends_def)+

lemma go_ends_lift [ends_intros]: "go_ends I (go_lift r) r"
  by (auto simp: go_ends_def go_lift_def split: outcome.splits)

subsection \<open>What a call checks\<close>

lemma go_checks_ret [checks_intros]: "P = (el = []) \<Longrightarrow> go_checks S I (go_ret el) P"
  unfolding go_checks_def by (intro exI [of _ "Returns el"]) (simp add: go_ends_ret)

lemma go_checks_panic: "\<not> S \<Longrightarrow> go_checks S I (\<lambda>s. Panics p) P"
  unfolding go_checks_def by (intro exI [of _ "Panics p"]) (simp add: go_ends_def)

lemma go_checks_run:
  assumes "go_checks True I m P" and "I s"
  shows "\<exists>el s'. m s = Returns (el, s') \<and> I s' \<and> (el = [] \<longleftrightarrow> P)"
proof -
  from assms(1) obtain el where "go_ends I m (Returns el)" "el = [] \<longleftrightarrow> P"
    unfolding go_checks_def by auto
  with assms(2) show ?thesis by (auto simp: go_ends_def)
qed

lemma go_checks_prefix:
  assumes "go_checks S I m Q" and "P \<longleftrightarrow> el = [] \<and> Q"
  shows "go_checks S I (go_map (\<lambda>es. el @ es) m) P"
proof -
  from assms(1) obtain r where r: "go_ends I m r" "S \<Longrightarrow> \<exists>el. r = Returns el"
    "\<And>el. r = Returns el \<Longrightarrow> (el = []) = Q"
    unfolding go_checks_def by blast
  show ?thesis
    unfolding go_checks_def using go_ends_map [OF r(1), of "\<lambda>es. el @ es"] r(2,3) assms(2)
    by (intro exI [of _ "out_bind r (\<lambda>es. Returns (el @ es))"]) (cases r; auto)
qed

lemma go_checks_seq:
  assumes "go_checks S I m P" and "go_checks S I n Q"
  shows "go_checks S I (go_bind m (\<lambda>xs. go_map (\<lambda>ys. xs @ ys) n)) (P \<and> Q)"
proof -
  from assms obtain r q where r: "go_ends I m r" "S \<Longrightarrow> \<exists>el. r = Returns el"
    "\<And>el. r = Returns el \<Longrightarrow> (el = []) = P"
    and q: "go_ends I n q" "S \<Longrightarrow> \<exists>el. q = Returns el" "\<And>el. q = Returns el \<Longrightarrow> (el = []) = Q"
    unfolding go_checks_def by blast
  let ?r = "out_bind r (\<lambda>xs. out_bind q (\<lambda>ys. Returns (xs @ ys)))"
  have "go_ends I (go_bind m (\<lambda>xs. go_map (\<lambda>ys. xs @ ys) n)) ?r"
    by (intro go_ends_bind go_ends_map r q)
  with r(2,3) q(2,3) show ?thesis
    unfolding go_checks_def by (intro exI [of _ ?r]) auto
qed

lemma go_checks_concat:
  "list_all2 (go_checks S I) ms Ps \<Longrightarrow> go_checks S I (go_concat ms) (\<forall>P \<in> set Ps. P)"
proof (induction ms Ps rule: list_all2_induct)
  case Nil
  show ?case by (simp add: go_checks_ret)
next
  case (Cons m ms P Ps)
  then have "go_checks S I (go_concat (m # ms)) (P \<and> (\<forall>P \<in> set Ps. P))"
    unfolding go_concat.simps by (intro go_checks_seq)
  then show ?case by simp
qed

lemma go_checks_concat_map:
  assumes "\<And>v. v \<in> set vs \<Longrightarrow> go_checks S I (f v) (P v)"
  shows "go_checks S I (go_concat (map f vs)) (\<forall>v \<in> set vs. P v)"
proof -
  have "list_all2 (go_checks S I) (map f vs) (map P vs)"
    using assms by (simp add: list_all2_map1 list_all2_map2 list_all2_same)
  from go_checks_concat [OF this] show ?thesis by simp
qed

lemma out_concat_Returns:
  "out_concat ms = Returns xs \<longleftrightarrow>
     (\<exists>xss. list_all2 (\<lambda>m ys. m = Returns ys) ms xss \<and> xs = concat xss)"
proof (induction ms arbitrary: xs)
  case Nil
  show ?case by auto
next
  case (Cons m ms)
  have "out_concat (m # ms) = Returns xs \<longleftrightarrow>
        (\<exists>ys zs. m = Returns ys \<and> out_concat ms = Returns zs \<and> xs = ys @ zs)"
    by auto
  also have "\<dots> \<longleftrightarrow> (\<exists>ys zss. m = Returns ys \<and>
      list_all2 (\<lambda>m ys. m = Returns ys) ms zss \<and> xs = ys @ concat zss)"
    unfolding Cons.IH by blast
  also have "\<dots> \<longleftrightarrow> (\<exists>xss. list_all2 (\<lambda>m ys. m = Returns ys) (m # ms) xss \<and> xs = concat xss)"
    by (fastforce simp: list_all2_Cons1)
  finally show ?case .
qed

lemma out_concat_Nil_iff:
  "out_concat ms = Returns [] \<longleftrightarrow> (\<forall>m \<in> set ms. m = Returns [])"
  by (induction ms) auto

section \<open>Lists, options and sums\<close>

lemma case_sum_eq_Inr [simp]:
  "(case r of Inl e \<Rightarrow> Inl e | Inr a \<Rightarrow> f a) = Inr b \<longleftrightarrow> (\<exists>a. r = Inr a \<and> f a = Inr b)"
  by (cases r) auto

end
