(* ===== verification/AP_GoLib.thy ===== *)
theory AP_GoLib
  imports AP_Prelude
begin

text \<open>
  What the program uses of the Go language and its standard library.

  A Go string is a sequence of bytes, here a \<^typ>\<open>string\<close> (each \<^typ>\<open>char\<close> is one byte). The
  conversion \<^verbatim>\<open>[]rune(s)\<close> decodes it as UTF-8, one code point at a time; a byte that starts no
  valid encoding becomes U+FFFD and is skipped alone. Comparison of strings is byte by byte.
  Also here: \<^verbatim>\<open>strconv.Itoa\<close>, \<^verbatim>\<open>strconv.FormatBool\<close>, \<^verbatim>\<open>strings.Join\<close>,
  \<^verbatim>\<open>time.Duration.String\<close>, \<^verbatim>\<open>big.Int.BitLen\<close>, \<^verbatim>\<open>net.IP.String\<close>
  and the order that \<^verbatim>\<open>sort\<close> uses on strings.
\<close>

section \<open>Runes\<close>

type_synonym rune = nat

abbreviation runeError :: rune where
  "runeError \<equiv> 65533"

abbreviation byte_at :: "string \<Rightarrow> nat \<Rightarrow> nat" where
  "byte_at s i \<equiv> of_char (s ! i)"

definition cont_byte :: "nat \<Rightarrow> bool" where
  "cont_byte b \<longleftrightarrow> 128 \<le> b \<and> b \<le> 191"

text \<open>The range the second byte must lie in, by the first byte (the table of
  \<^verbatim>\<open>unicode/utf8\<close>): it rules out overlong forms, surrogates and values past U+10FFFF.\<close>

definition second_ok :: "nat \<Rightarrow> nat \<Rightarrow> bool" where
  "second_ok b0 b1 \<longleftrightarrow>
     (if b0 = 224 then 160 else if b0 = 240 then 144 else 128) \<le> b1 \<and>
     b1 \<le> (if b0 = 237 then 159 else if b0 = 244 then 143 else 191)"

text \<open>\<^verbatim>\<open>utf8.DecodeRuneInString\<close> on a non-empty string: the code point and how many bytes it
  takes.\<close>

fun decodeRune :: "string \<Rightarrow> rune \<times> nat" where
  "decodeRune [] = (runeError, 0)"
| "decodeRune (c # cs) =
     (let b0 = of_char c; n = length cs in
      if b0 < 128 then (b0, 1)
      else if 194 \<le> b0 \<and> b0 \<le> 223 then
        (if 1 \<le> n \<and> second_ok b0 (byte_at cs 0)
         then ((b0 - 192) * 64 + (byte_at cs 0 - 128), 2) else (runeError, 1))
      else if 224 \<le> b0 \<and> b0 \<le> 239 then
        (if 2 \<le> n \<and> second_ok b0 (byte_at cs 0) \<and> cont_byte (byte_at cs 1)
         then ((b0 - 224) * 4096 + (byte_at cs 0 - 128) * 64 + (byte_at cs 1 - 128), 3)
         else (runeError, 1))
      else if 240 \<le> b0 \<and> b0 \<le> 244 then
        (if 3 \<le> n \<and> second_ok b0 (byte_at cs 0) \<and> cont_byte (byte_at cs 1) \<and>
            cont_byte (byte_at cs 2)
         then ((b0 - 240) * 262144 + (byte_at cs 0 - 128) * 4096 +
               (byte_at cs 1 - 128) * 64 + (byte_at cs 2 - 128), 4)
         else (runeError, 1))
      else (runeError, 1))"

lemma decodeRune_width: "0 < snd (decodeRune (c # cs))"
  by (simp add: Let_def)

text \<open>The conversion \<^verbatim>\<open>[]rune(s)\<close>.\<close>

function runes :: "string \<Rightarrow> rune list" where
  "runes [] = []"
| "runes (c # cs) =
     fst (decodeRune (c # cs)) # runes (drop (snd (decodeRune (c # cs))) (c # cs))"
  by pat_completeness auto
termination
proof (relation "measure length")
  fix c :: char and cs :: string
  show "(drop (snd (decodeRune (c # cs))) (c # cs), c # cs) \<in> measure length"
    using decodeRune_width [of c cs] by (simp del: decodeRune.simps)
qed simp

declare decodeRune.simps(2) [simp del] runes.simps(2) [simp del]

section \<open>Numbers, booleans and joined strings as text\<close>

definition digit :: "nat \<Rightarrow> char" where
  "digit d = char_of (48 + d)"

fun nat_text :: "nat \<Rightarrow> string" where
  "nat_text n = (if n < 10 then [digit n] else nat_text (n div 10) @ [digit (n mod 10)])"

declare nat_text.simps [simp del]

definition Itoa :: "int \<Rightarrow> string" where
  "Itoa i = (if i < 0 then CHR ''-'' # nat_text (nat (- i)) else nat_text (nat i))"

definition FormatBool :: "bool \<Rightarrow> string" where
  "FormatBool b = (if b then ''true'' else ''false'')"

fun Join :: "string list \<Rightarrow> string \<Rightarrow> string" where
  "Join [] sep = []"
| "Join [s] sep = s"
| "Join (s # t # ss) sep = s @ sep @ Join (t # ss) sep"

text \<open>\<^verbatim>\<open>(*big.Int).BitLen\<close>: the length of the absolute value in bits.\<close>

fun nat_bitlen :: "nat \<Rightarrow> nat" where
  "nat_bitlen n = (if n = 0 then 0 else Suc (nat_bitlen (n div 2)))"

declare nat_bitlen.simps [simp del]

definition BitLen :: "int \<Rightarrow> int" where
  "BitLen n = int (nat_bitlen (nat \<bar>n\<bar>))"

section \<open>Durations as text\<close>

text \<open>\<^verbatim>\<open>time.Duration\<close> counts nanoseconds. Its \<^verbatim>\<open>String\<close> prints \<^verbatim>\<open>72h3m0.5s\<close>: the fraction
  without trailing zeros, and the units below a second for short durations. \<open>fmtFrac\<close> strips
  \<open>prec\<close> decimal digits off \<open>v\<close> and puts the significant ones behind a point in front of
  \<open>acc\<close>.\<close>

fun fmtFrac :: "nat \<Rightarrow> nat \<Rightarrow> bool \<Rightarrow> string \<Rightarrow> string \<times> nat" where
  "fmtFrac 0 v shown acc = (if shown then CHR ''.'' # acc else acc, v)"
| "fmtFrac (Suc prec) v shown acc =
     (let d = v mod 10; shown' = (shown \<or> d \<noteq> 0)
      in fmtFrac prec (v div 10) shown' (if shown' then digit d # acc else acc))"

definition Duration_String :: "int \<Rightarrow> string" where
  "Duration_String d =
     (let u = nat \<bar>d\<bar>; sign = (if d < 0 then ''-'' else '''') in
      if u = 0 then ''0s''
      else if u < 1000000000 then
        (let (prec, unit) =
           (if u < 1000 then (0, ''ns'')
            else if u < 1000000 then (3, [char_of (194::nat), char_of (181::nat), CHR ''s''])
            else (6, ''ms''));
           (frac, n) = fmtFrac prec u False unit
         in sign @ nat_text n @ frac)
      else
        (let (frac, secs) = fmtFrac 9 u False ''s'';
             mins = secs div 60; hours = mins div 60;
             s_part = nat_text (secs mod 60) @ frac
         in sign @
            (if mins = 0 then s_part
             else if hours = 0 then nat_text (mins mod 60) @ ''m'' @ s_part
             else nat_text hours @ ''h'' @ nat_text (mins mod 60) @ ''m'' @ s_part)))"

section \<open>IP addresses as text\<close>

definition hexdigit :: "nat \<Rightarrow> char" where
  "hexdigit d = (if d < 10 then char_of (48 + d) else char_of (87 + d))"

fun hex_text :: "nat \<Rightarrow> string" where
  "hex_text n = (if n < 16 then [hexdigit n] else hex_text (n div 16) @ [hexdigit (n mod 16)])"

declare hex_text.simps [simp del]

text \<open>\<^verbatim>\<open>net.IP\<close> is a slice of bytes. Four bytes, or sixteen with the IPv4-in-IPv6 prefix, print
  in dotted form; other slices of sixteen as IPv6, with the longest run of at least two zero
  groups (the first of them) shortened to \<open>::\<close>.\<close>

definition To4 :: "string \<Rightarrow> string option" where
  "To4 ip =
     (if length ip = 4 then Some ip
      else if length ip = 16 \<and> (\<forall>b \<in> set (take 10 ip). b = char_of (0::nat)) \<and>
              ip ! 10 = char_of (255::nat) \<and> ip ! 11 = char_of (255::nat)
      then Some (drop 12 ip) else None)"

fun v6groups :: "string \<Rightarrow> nat list" where
  "v6groups (a # b # cs) = (of_char a * 256 + of_char b) # v6groups cs"
| "v6groups _ = []"

primrec longest_zeros :: "nat \<Rightarrow> nat list \<Rightarrow> nat \<times> nat \<Rightarrow> nat \<times> nat" where
  "longest_zeros i [] best = best"
| "longest_zeros i (g # gs) best =
     (let n = length (takeWhile (\<lambda>x. x = 0) (g # gs))
      in longest_zeros (Suc i) gs (if 2 \<le> n \<and> snd best < n then (i, n) else best))"

definition v6_text :: "nat list \<Rightarrow> string" where
  "v6_text gs =
     (let (start, n) = longest_zeros 0 gs (0, 0); hexes = map hex_text gs
      in if n = 0 then Join hexes '':''
         else Join (take start hexes) '':'' @ ''::'' @ Join (drop (start + n) hexes) '':'')"

definition IP_String :: "string \<Rightarrow> string" where
  "IP_String ip =
     (if ip = [] then ''<nil>''
      else if length ip \<noteq> 4 \<and> length ip \<noteq> 16 then
        ''?'' @ concat (map (\<lambda>b. [hexdigit (of_char b div 16), hexdigit (of_char b mod 16)]) ip)
      else (case To4 ip of
              Some p4 \<Rightarrow> Join (map (\<lambda>b. nat_text (of_char b)) p4) ''.''
            | None \<Rightarrow> v6_text (v6groups ip)))"

section \<open>The order of strings\<close>

text \<open>Go compares strings byte by byte; a proper prefix is smaller.\<close>

fun str_le :: "string \<Rightarrow> string \<Rightarrow> bool" where
  "str_le [] t = True"
| "str_le (c # s) [] = False"
| "str_le (c # s) (d # t) =
     ((of_char c :: nat) < of_char d \<or> (c = d \<and> str_le s t))"

definition str_less :: "string \<Rightarrow> string \<Rightarrow> bool" where
  "str_less s t \<longleftrightarrow> \<not> str_le t s"

text \<open>\<^verbatim>\<open>sort.SliceStable\<close> and \<^verbatim>\<open>sort.Strings\<close>: insertion into a list sorted by the strings that
  \<open>key\<close> reads off the elements. An element goes in front of the first one that is not smaller,
  so folding from the right keeps the order of equal keys.\<close>

primrec insert_by :: "('a \<Rightarrow> string) \<Rightarrow> 'a \<Rightarrow> 'a list \<Rightarrow> 'a list" where
  "insert_by key x [] = [x]"
| "insert_by key x (y # ys) =
     (if str_le (key x) (key y) then x # y # ys else y # insert_by key x ys)"

definition sort_by :: "('a \<Rightarrow> string) \<Rightarrow> 'a list \<Rightarrow> 'a list" where
  "sort_by key xs = foldr (insert_by key) xs []"

section \<open>Facts\<close>

subsection \<open>Runes of plain text\<close>

text \<open>A string of ASCII bytes decodes to its bytes.\<close>

definition ascii :: "string \<Rightarrow> bool" where
  "ascii s \<longleftrightarrow> (\<forall>c \<in> set s. (of_char c :: nat) < 128)"

lemma decodeRune_ascii:
  "(of_char c :: nat) < 128 \<Longrightarrow> decodeRune (c # cs) = (of_char c, 1)"
  by (simp add: decodeRune.simps(2))

lemma runes_ascii: "ascii s \<Longrightarrow> runes s = map of_char s"
  by (induction s) (auto simp: ascii_def decodeRune_ascii runes.simps(2))

lemma runes_eq_Nil [simp]: "runes s = [] \<longleftrightarrow> s = []"
  by (cases s) (simp_all add: runes.simps(2))

lemma of_char_eq_iff: "(of_char c :: nat) = of_char d \<longleftrightarrow> c = d"
  by simp

subsection \<open>The order is linear\<close>

lemma str_le_refl [simp]: "str_le s s"
  by (induction s) auto

lemma str_le_total: "str_le s t \<or> str_le t s"
proof (induction s t rule: str_le.induct)
  case (3 c s d t)
  then show ?case by (cases "c = d") (auto simp: neq_iff [symmetric])
qed auto

lemma str_le_antisym: "str_le s t \<Longrightarrow> str_le t s \<Longrightarrow> s = t"
proof (induction s t rule: str_le.induct)
  case (1 t)
  then show ?case by (cases t) auto
qed auto

lemma str_le_trans: "str_le s t \<Longrightarrow> str_le t u \<Longrightarrow> str_le s u"
proof (induction s t arbitrary: u rule: str_le.induct)
  case (3 c s d t)
  then show ?case by (cases u) auto
qed (case_tac u; simp)+

subsection \<open>Sorting\<close>

abbreviation sorted_by :: "('a \<Rightarrow> string) \<Rightarrow> 'a list \<Rightarrow> bool" where
  "sorted_by key \<equiv> sorted_wrt (\<lambda>x y. str_le (key x) (key y))"

lemma mset_insert_by [simp]: "mset (insert_by key x ys) = add_mset x (mset ys)"
  by (induction ys) auto

lemma mset_sort_by [simp]: "mset (sort_by key xs) = mset xs"
  by (induction xs) (simp_all add: sort_by_def)

lemma set_insert_by [simp]: "set (insert_by key x ys) = insert x (set ys)"
  by (induction ys) auto

lemma set_sort_by [simp]: "set (sort_by key xs) = set xs"
  using mset_eq_setD [OF mset_sort_by] .

lemma length_sort_by [simp]: "length (sort_by key xs) = length xs"
  using mset_eq_length [OF mset_sort_by] .

lemma sort_by_Nil [simp]: "sort_by key [] = []"
  by (simp add: sort_by_def)

lemma sort_by_eq_Nil [simp]: "sort_by key xs = [] \<longleftrightarrow> xs = []"
  using length_sort_by [of key xs] by (metis length_0_conv)

lemma sorted_insert_by: "sorted_by key ys \<Longrightarrow> sorted_by key (insert_by key x ys)"
proof (induction ys)
  case (Cons y ys)
  show ?case
  proof (cases "str_le (key x) (key y)")
    case True
    with Cons.prems show ?thesis by (auto intro: str_le_trans)
  next
    case False
    with Cons show ?thesis using str_le_total [of "key x" "key y"] by auto
  qed
qed simp

lemma sorted_sort_by: "sorted_by key (sort_by key xs)"
  by (induction xs) (simp_all add: sort_by_def sorted_insert_by)

text \<open>Sorting the elements that share one key leaves them in the order they had: the sort is
  stable.\<close>

lemma filter_insert_by:
  "sorted_by key ys \<Longrightarrow>
   filter (\<lambda>y. key y = k) (insert_by key x ys) =
     (if key x = k then x # filter (\<lambda>y. key y = k) ys else filter (\<lambda>y. key y = k) ys)"
proof (induction ys)
  case (Cons y ys)
  have "key y = key x \<Longrightarrow> str_le (key x) (key y)" by simp
  with Cons show ?case by auto
qed simp

lemma sort_by_stable: "filter (\<lambda>y. key y = k) (sort_by key xs) = filter (\<lambda>y. key y = k) xs"
proof (induction xs)
  case (Cons x xs)
  have "sort_by key (x # xs) = insert_by key x (sort_by key xs)" by (simp add: sort_by_def)
  then show ?case by (simp add: filter_insert_by sorted_sort_by Cons.IH)
qed simp

text \<open>A list sorted by a key that tells its elements apart is determined by its elements.\<close>

lemma sorted_by_unique:
  assumes "inj_on key (set xs)" and "mset xs = mset ys"
    and "sorted_by key xs" and "sorted_by key ys"
  shows "xs = ys"
  using assms
proof (induction xs arbitrary: ys)
  case (Cons x xs)
  from Cons.prems(2) obtain y ys' where ys: "ys = y # ys'" by (cases ys) auto
  have "x \<in> set ys" and "y \<in> set (x # xs)"
    using Cons.prems(2) ys by (metis list.set_intros(1) mset_eq_setD)+
  with Cons.prems(3,4) ys have "str_le (key x) (key y)" and "str_le (key y) (key x)"
    by auto
  then have "key x = key y" by (rule str_le_antisym)
  with \<open>y \<in> set (x # xs)\<close> Cons.prems(1) have "x = y" by (metis inj_onD list.set_intros(1))
  with Cons.prems ys have "xs = ys'" by (intro Cons.IH) (auto simp: inj_on_def)
  with \<open>x = y\<close> ys show ?case by simp
qed simp

lemma sort_by_perm:
  assumes "inj_on key (set xs)" and "mset xs = mset ys"
  shows "sort_by key xs = sort_by key ys"
  using assms by (intro sorted_by_unique [of key]) (simp_all add: sorted_sort_by)

end
