(* ===== verification/AP_Wildcard.thy ===== *)
theory AP_Wildcard
  imports AP_GoLib "HOL-Library.Sublist"
begin

text \<open>
  The wildcard matcher of \<^verbatim>\<open>pkg/internal/util/wildcard.go\<close>. Policies use it for every allowed
  value and for the issuer and namespace selectors. A pattern is text in which each \<open>*\<close> stands
  for any run of code points, the empty one included. The matcher is compared with that reading
  of patterns (\<open>wild_expands\<close>): choose a string for each \<open>*\<close>, keep every other code point,
  and concatenate.
\<close>

section \<open>The matcher\<close>

abbreviation star :: rune where
  "star \<equiv> 42"

text \<open>\<^verbatim>\<open>matchRunes\<close>: the loop walks pattern and string together; a \<open>*\<close> branches into dropping the
  \<open>*\<close> and consuming one rune of the string.\<close>

declare conj_cong [fundef_cong]

function matchRunes :: "rune list \<Rightarrow> rune list \<Rightarrow> bool" where
  "matchRunes [] str = (length str = 0)"
| "matchRunes (p # pattern) str =
     (if p = star then
        matchRunes pattern str \<or> (length str > 0 \<and> matchRunes (p # pattern) (tl str))
      else if length str = 0 \<or> hd str \<noteq> p then False
      else matchRunes pattern (tl str))"
  by pat_completeness auto
termination
  by (relation "measure (\<lambda>(pattern, str). length pattern + length str)") auto

declare matchRunes.simps(2) [simp del]

definition WildcardMatches :: "string \<Rightarrow> string \<Rightarrow> bool" where
  "WildcardMatches pattern str =
     (if length pattern = 0 then length str = 0
      else if pattern = ''*'' then True
      else matchRunes (runes pattern) (runes str))"

primrec WildcardContains :: "string list \<Rightarrow> string \<Rightarrow> bool" where
  "WildcardContains [] member = False"
| "WildcardContains (pattern # patterns) member =
     (if WildcardMatches pattern member then True else WildcardContains patterns member)"

primrec WildcardSubset :: "string list \<Rightarrow> string list \<Rightarrow> bool" where
  "WildcardSubset patterns [] = True"
| "WildcardSubset patterns (member # members) =
     (if \<not> WildcardContains patterns member then False else WildcardSubset patterns members)"

section \<open>What a pattern means\<close>

text \<open>\<open>parts\<close> gives the text that each code point of the pattern stands for.\<close>

definition wild_expands :: "rune list \<Rightarrow> rune list \<Rightarrow> bool" where
  "wild_expands pattern str \<longleftrightarrow>
     (\<exists>parts. list_all2 (\<lambda>p part. p = star \<or> part = [p]) pattern parts \<and> str = concat parts)"

section \<open>The matcher decides the meaning\<close>

lemma wild_expands_Nil [simp]: "wild_expands [] str \<longleftrightarrow> str = []"
  by (auto simp: wild_expands_def)

lemma wild_expands_Cons:
  "wild_expands (p # pattern) str \<longleftrightarrow>
     (\<exists>u v. str = u @ v \<and> (p = star \<or> u = [p]) \<and> wild_expands pattern v)"
proof
  assume "wild_expands (p # pattern) str"
  then obtain xs where xs: "list_all2 (\<lambda>p part. p = star \<or> part = [p]) (p # pattern) xs"
    and str: "str = concat xs"
    by (auto simp: wild_expands_def)
  from xs obtain u parts where "xs = u # parts" by (cases xs) auto
  with xs str show "\<exists>u v. str = u @ v \<and> (p = star \<or> u = [p]) \<and> wild_expands pattern v"
    by (intro exI [of _ u] exI [of _ "concat parts"]) (auto simp: wild_expands_def)
next
  assume "\<exists>u v. str = u @ v \<and> (p = star \<or> u = [p]) \<and> wild_expands pattern v"
  then obtain u parts where "list_all2 (\<lambda>p part. p = star \<or> part = [p]) pattern parts"
    and "p = star \<or> u = [p]" and "str = u @ concat parts"
    by (auto simp: wild_expands_def)
  then show "wild_expands (p # pattern) str"
    unfolding wild_expands_def by (intro exI [of _ "u # parts"]) simp
qed

lemma wild_expands_star:
  "wild_expands (star # pattern) str \<longleftrightarrow>
     wild_expands pattern str \<or> (str \<noteq> [] \<and> wild_expands (star # pattern) (tl str))"
proof (cases str)
  case Nil
  then show ?thesis by (simp add: wild_expands_Cons)
next
  case (Cons c cs)
  have "wild_expands (star # pattern) (c # cs) \<longleftrightarrow>
        (\<exists>u v. c # cs = u @ v \<and> wild_expands pattern v)"
    by (simp add: wild_expands_Cons)
  also have "\<dots> \<longleftrightarrow> wild_expands pattern (c # cs) \<or> (\<exists>u v. cs = u @ v \<and> wild_expands pattern v)"
    by (auto simp: Cons_eq_append_conv)
  finally show ?thesis using Cons by (simp add: wild_expands_Cons)
qed

lemma wild_expands_literal:
  "p \<noteq> star \<Longrightarrow>
   wild_expands (p # pattern) str \<longleftrightarrow> str \<noteq> [] \<and> hd str = p \<and> wild_expands pattern (tl str)"
  by (cases str) (auto simp: wild_expands_Cons)

lemma matchRunes_iff: "matchRunes pattern str \<longleftrightarrow> wild_expands pattern str"
proof (induction pattern str rule: matchRunes.induct)
  case (1 str)
  show ?case by simp
next
  case (2 p pattern str)
  show ?case
  proof (cases "p = star")
    case True
    with 2 show ?thesis
      by (auto simp: matchRunes.simps(2) [of star pattern str] wild_expands_star [of pattern str])
  next
    case False
    with 2 show ?thesis
      by (auto simp: matchRunes.simps(2) [of p pattern str] wild_expands_literal)
  qed
qed

lemma runes_star: "runes ''*'' = [star]"
  by (simp add: runes_ascii ascii_def)

lemma wild_expands_star_only: "wild_expands [star] str"
  by (simp add: wild_expands_Cons)

lemma WildcardMatches_iff:
  "WildcardMatches pattern str \<longleftrightarrow> wild_expands (runes pattern) (runes str)"
  by (auto simp: WildcardMatches_def matchRunes_iff runes_star wild_expands_star_only)

lemma WildcardContains_iff:
  "WildcardContains patterns member \<longleftrightarrow> (\<exists>p \<in> set patterns. WildcardMatches p member)"
  by (induction patterns) auto

lemma WildcardSubset_iff:
  "WildcardSubset patterns members \<longleftrightarrow>
     (\<forall>m \<in> set members. \<exists>p \<in> set patterns. WildcardMatches p m)"
  by (induction members) (auto simp: WildcardContains_iff)

text \<open>C11: \<^verbatim>\<open>WildcardMatches\<close> holds exactly when the code points of the string are those of the
  pattern with every \<open>*\<close> replaced by some (possibly empty) text; the two early returns change
  nothing. \<^verbatim>\<open>WildcardSubset\<close> holds exactly when every member is such an expansion of one of the
  patterns.\<close>

theorem WildcardMatches_expands:
  "(WildcardMatches pattern str \<longleftrightarrow> wild_expands (runes pattern) (runes str)) \<and>
   (WildcardSubset patterns members \<longleftrightarrow>
      (\<forall>m \<in> set members. \<exists>p \<in> set patterns. wild_expands (runes p) (runes m)))"
  by (simp add: WildcardMatches_iff WildcardSubset_iff)

theorem WildcardMatches_expands_witness:
  "WildcardSubset [''*''] [''a'', ''b'']"
  using WildcardMatches_expands [of _ _ "[''*'']" "[''a'', ''b'']"]
  by (simp add: runes_star wild_expands_star_only)

section \<open>Patterns without and with one wildcard\<close>

text \<open>Decoding yields a code point below 128 only from the byte of that value.\<close>

lemma decodeRune_above_127:
  "128 \<le> (of_char c :: nat) \<Longrightarrow> 128 \<le> fst (decodeRune (c # cs))"
  unfolding decodeRune.simps(2) Let_def second_ok_def
  by (cases "(of_char c :: nat) = 224"; cases "(of_char c :: nat) = 240") auto

lemma decodeRune_below_128:
  assumes "fst (decodeRune (c # cs)) = b" and "b < 128"
  shows "of_char c = b" and "snd (decodeRune (c # cs)) = 1"
proof -
  have "(of_char c :: nat) < 128"
    using assms decodeRune_above_127 [of c cs] by linarith
  then show "of_char c = b" and "snd (decodeRune (c # cs)) = 1"
    using assms by (auto simp: decodeRune_ascii)
qed

lemma bytes_inj: "map (of_char :: char \<Rightarrow> nat) xs = map of_char ys \<longleftrightarrow> xs = ys"
  by (rule inj_map_eq_map) (simp add: inj_def)

lemma runes_eq_bytes:
  "runes s = map of_char p \<Longrightarrow> ascii p \<Longrightarrow> s = p"
proof (induction p arbitrary: s)
  case Nil
  then show ?case by simp
next
  case (Cons c p)
  then obtain d s' where s: "s = d # s'" by (cases s) auto
  from Cons.prems(2) have c: "(of_char c :: nat) < 128" by (simp add: ascii_def)
  from Cons.prems(1) s have d: "fst (decodeRune (d # s')) = of_char c"
    by (simp add: runes.simps(2))
  with decodeRune_below_128 [OF d c] Cons.prems s have "d = c" and "runes s' = map of_char p"
    by (simp_all add: runes.simps(2))
  with Cons s show ?case by (simp add: ascii_def)
qed

lemma wild_expands_no_star:
  "star \<notin> set pattern \<Longrightarrow> wild_expands pattern str \<longleftrightarrow> str = pattern"
proof (induction pattern arbitrary: str)
  case (Cons p pattern)
  then have "wild_expands (p # pattern) str \<longleftrightarrow> str \<noteq> [] \<and> hd str = p \<and> tl str = pattern"
    by (simp add: wild_expands_literal)
  then show ?case by (cases str) auto
qed simp

lemma star_notin_bytes: "CHR ''*'' \<notin> set p \<Longrightarrow> star \<notin> of_char ` set p"
proof
  assume "CHR ''*'' \<notin> set p" and "star \<in> of_char ` set p"
  then obtain c where c: "c \<in> set p" "of_char c = star" by auto
  then have "c = char_of star" by (metis char_of_char)
  then have "c = CHR ''*''" by (simp add: char_of_def bit_0)
  with c \<open>CHR ''*'' \<notin> set p\<close> show False by simp
qed

lemma matches_literal:
  assumes "ascii pattern" and "CHR ''*'' \<notin> set pattern"
  shows "WildcardMatches pattern str \<longleftrightarrow> str = pattern"
proof -
  have no_star: "star \<notin> set (runes pattern)"
    using star_notin_bytes [OF assms(2)] by (simp add: runes_ascii [OF assms(1)])
  have "WildcardMatches pattern str \<longleftrightarrow> runes str = runes pattern"
    by (simp only: WildcardMatches_iff wild_expands_no_star [OF no_star])
  then show ?thesis
    using runes_eq_bytes [of str pattern] runes_ascii [OF assms(1)] assms(1) by auto
qed

lemma matches_affix:
  assumes "ascii lit" and "CHR ''*'' \<notin> set lit" and "ascii str"
  shows "(WildcardMatches (CHR ''*'' # lit) str \<longleftrightarrow> suffix lit str) \<and>
         (WildcardMatches (lit @ ''*'') str \<longleftrightarrow> prefix lit str)"
proof -
  have lits: "star \<notin> of_char ` set lit" using assms(2) by (rule star_notin_bytes)
  have pre: "wild_expands (p @ [star]) s \<longleftrightarrow> prefix p s" if "star \<notin> set p" for p s
    using that
  proof (induction p arbitrary: s)
    case (Cons c p)
    then show ?case by (cases s) (auto simp: wild_expands_literal)
  qed (simp add: wild_expands_star_only)
  have "WildcardMatches (CHR ''*'' # lit) str \<longleftrightarrow>
        (\<exists>u. map of_char str = u @ (map of_char lit :: nat list))"
    using assms lits
    by (simp add: WildcardMatches_iff runes_ascii ascii_def wild_expands_Cons
        wild_expands_no_star)
  also have "\<dots> \<longleftrightarrow> suffix lit str"
    by (auto simp: suffix_def map_eq_append_conv bytes_inj)
  finally have suf: "WildcardMatches (CHR ''*'' # lit) str \<longleftrightarrow> suffix lit str" .
  have "WildcardMatches (lit @ ''*'') str \<longleftrightarrow> prefix (map of_char lit :: nat list) (map of_char str)"
    using assms lits pre [of "map of_char lit"]
    by (simp add: WildcardMatches_iff runes_ascii ascii_def)
  also have "\<dots> \<longleftrightarrow> prefix lit str"
    by (auto simp: prefix_def map_eq_append_conv bytes_inj)
  finally show ?thesis using suf by simp
qed

text \<open>The shapes of patterns that policies mostly use. An ASCII literal without \<open>*\<close> matches itself
  and no other byte string, whatever encoding that string is in; \<open>*suffix\<close> matches exactly the ASCII
  strings that end in the suffix, and \<open>prefix*\<close> those that begin with the prefix.\<close>

theorem WildcardMatches_shapes:
  assumes "ascii lit" and "CHR ''*'' \<notin> set lit"
  shows "(WildcardMatches lit str \<longleftrightarrow> str = lit) \<and>
         (ascii str \<longrightarrow> (WildcardMatches (CHR ''*'' # lit) str \<longleftrightarrow> suffix lit str) \<and>
                        (WildcardMatches (lit @ ''*'') str \<longleftrightarrow> prefix lit str))"
  using matches_literal [OF assms] matches_affix [OF assms] by blast

theorem WildcardMatches_shapes_witness:
  "WildcardMatches ''example.com'' ''example.com'' \<and> \<not> WildcardMatches ''example.com'' ''www.example.com'' \<and>
   WildcardMatches ''*.example.com'' ''www.example.com'' \<and>
   WildcardMatches ''10.0.*'' ''10.0.3.4'' \<and> \<not> WildcardMatches ''10.0.*'' ''10.1.3.4''"
  using WildcardMatches_shapes [of "''example.com''" "''example.com''"]
    WildcardMatches_shapes [of "''example.com''" "''www.example.com''"]
    WildcardMatches_shapes [of "''.example.com''" "''www.example.com''"]
    WildcardMatches_shapes [of "''10.0.''" "''10.0.3.4''"]
    WildcardMatches_shapes [of "''10.0.''" "''10.1.3.4''"]
  by (simp add: ascii_def suffix_def)

end
