(* ===== verification/AP_API.thy ===== *)
theory AP_API
  imports AP_Wildcard
begin

text \<open>
  The data the program works on: the \<^verbatim>\<open>CertificateRequestPolicy\<close> resource
  (\<^verbatim>\<open>pkg/apis/policy/v1alpha1\<close>), the fields it reads of cert-manager's
  \<^verbatim>\<open>CertificateRequest\<close> and of the decoded X.509 signing request, the field errors that
  evaluators and webhooks collect, and the record \<open>extern\<close> of what third-party packages
  compute. A Go pointer that may be \<open>nil\<close> is an option, a map that is ranged over an
  association list (one iteration order), a slice a list.
\<close>

section \<open>CertificateRequestPolicy\<close>

record ValidationRule =
  Rule :: string
  Message :: "string option"

record AllowedStringSlice =
  ss_Values :: "string list option"
  ss_Required :: "bool option"
  ss_Validations :: "ValidationRule list"

record AllowedString =
  s_Value :: "string option"
  s_Required :: "bool option"
  s_Validations :: "ValidationRule list"

record AllowedX509Subject =
  Organizations :: "AllowedStringSlice option"
  Countries :: "AllowedStringSlice option"
  OrganizationalUnits :: "AllowedStringSlice option"
  Localities :: "AllowedStringSlice option"
  Provinces :: "AllowedStringSlice option"
  StreetAddresses :: "AllowedStringSlice option"
  PostalCodes :: "AllowedStringSlice option"
  SerialNumber :: "AllowedString option"

record PolicyAllowed =
  CommonName :: "AllowedString option"
  DNSNames :: "AllowedStringSlice option"
  IPAddresses :: "AllowedStringSlice option"
  URIs :: "AllowedStringSlice option"
  EmailAddresses :: "AllowedStringSlice option"
  IsCA :: "bool option"
  Usages :: "string list option"
  Subject :: "AllowedX509Subject option"

text \<open>Sizes and durations (nanoseconds) are only compared, never computed with, so Go's
  \<^verbatim>\<open>int\<close> and \<^verbatim>\<open>time.Duration\<close> are integers here.\<close>

record ConstraintsPrivateKey =
  Algorithm :: "string option"
  MinSize :: "int option"
  MaxSize :: "int option"

record PolicyConstraints =
  MinDuration :: "int option"
  MaxDuration :: "int option"
  PrivateKey :: "ConstraintsPrivateKey option"

type_synonym labels = "(string \<times> string) list"

record PluginData =
  pd_Values :: labels

record SelectorIssuerRef =
  sel_Name :: "string option"
  sel_Kind :: "string option"
  sel_Group :: "string option"

record SelectorNamespace =
  MatchNames :: "string list"
  MatchLabels :: "labels option"

record PolicySelector =
  sel_IssuerRef :: "SelectorIssuerRef option"
  sel_Namespace :: "SelectorNamespace option"

record PolicySpec =
  Allowed :: "PolicyAllowed option"
  Constraints :: "PolicyConstraints option"
  Plugins :: "(string \<times> PluginData) list"
  Selector :: PolicySelector

record PolicyCondition =
  pc_Type :: string
  pc_Status :: string
  pc_LastTransitionTime :: "int option"
  pc_Reason :: string
  pc_Message :: string
  pc_ObservedGeneration :: int

record PolicyStatus =
  p_Conditions :: "PolicyCondition list"

text \<open>The API server gives every object it creates a UID of its own: a policy that is deleted and created
  again under the same name is another object.\<close>

record CertificateRequestPolicy =
  p_Name :: string
  p_UID :: string
  p_Generation :: int
  p_Spec :: PolicySpec
  p_Status :: PolicyStatus

abbreviation ConditionReady :: string where
  "ConditionReady \<equiv> ''Ready''"

abbreviation ConditionTrue :: string where
  "ConditionTrue \<equiv> ''True''"

abbreviation ConditionFalse :: string where
  "ConditionFalse \<equiv> ''False''"

text \<open>The zero values \<^verbatim>\<open>new(T)\<close> that the evaluators fall back to.\<close>

definition empty_subject :: AllowedX509Subject where
  "empty_subject = \<lparr>Organizations = None, Countries = None, OrganizationalUnits = None,
     Localities = None, Provinces = None, StreetAddresses = None, PostalCodes = None,
     SerialNumber = None\<rparr>"

definition empty_allowed :: PolicyAllowed where
  "empty_allowed = \<lparr>CommonName = None, DNSNames = None, IPAddresses = None, URIs = None,
     EmailAddresses = None, IsCA = None, Usages = None, Subject = None\<rparr>"

section \<open>CertificateRequest and the signing request inside it\<close>

record IssuerReference =
  ir_Name :: string
  ir_Kind :: string
  ir_Group :: string

record CRCondition =
  cc_Type :: string
  cc_Status :: string
  cc_LastTransitionTime :: "int option"
  cc_Reason :: string
  cc_Message :: string

record CertificateRequest =
  cr_Name :: string
  cr_Namespace :: string
  cr_Duration :: "int option"
  cr_IssuerRef :: IssuerReference
  cr_Request :: string
  cr_IsCA :: bool
  cr_Usages :: "string list"
  cr_Username :: string
  cr_UID :: string
  cr_Groups :: "string list"
  cr_Extra :: "(string \<times> string list) list"
  cr_Conditions :: "CRCondition list"

abbreviation ConditionApproved :: string where
  "ConditionApproved \<equiv> ''Approved''"

abbreviation ConditionDenied :: string where
  "ConditionDenied \<equiv> ''Denied''"

text \<open>The dynamic type of the public key that \<^verbatim>\<open>crypto/x509\<close> hands out: RSA and ECDSA keys as
  pointers, Ed25519 keys by value. A pointer to an Ed25519 key is a type of its own. ECDSA keys lie
  on one of the four curves of \<^verbatim>\<open>crypto/elliptic\<close>, whose parameters have the bit sizes below.\<close>

datatype curve = P224 | P256 | P384 | P521

primrec BitSize :: "curve \<Rightarrow> int" where
  "BitSize P224 = 224"
| "BitSize P256 = 256"
| "BitSize P384 = 384"
| "BitSize P521 = 521"

datatype PublicKey =
    RSAPublicKeyPtr int            \<comment> \<open>the modulus\<close>
  | ECDSAPublicKeyPtr curve
  | Ed25519PublicKeyPtr string
  | Ed25519PublicKeyVal string
  | OtherPublicKey string          \<comment> \<open>any other type, by its name\<close>

text \<open>What \<^verbatim>\<open>crypto/x509\<close> can hand out: it refuses an RSA modulus that is not positive and never
  returns a pointer to an Ed25519 key.\<close>

fun x509_key :: "PublicKey \<Rightarrow> bool" where
  "x509_key (RSAPublicKeyPtr n) \<longleftrightarrow> 0 < n"
| "x509_key (Ed25519PublicKeyPtr _) \<longleftrightarrow> False"
| "x509_key _ \<longleftrightarrow> True"

record PkixName =
  n_CommonName :: string
  n_Organization :: "string list"
  n_Country :: "string list"
  n_OrganizationalUnit :: "string list"
  n_Locality :: "string list"
  n_Province :: "string list"
  n_StreetAddress :: "string list"
  n_PostalCode :: "string list"
  n_SerialNumber :: string

text \<open>\<open>'url\<close> is \<^verbatim>\<open>net/url.URL\<close>, which the program only renders with \<^verbatim>\<open>String\<close>.\<close>

record 'url CSR =
  csr_Subject :: PkixName
  csr_DNSNames :: "string list"
  csr_IPAddresses :: "string list"
  csr_URIs :: "'url list"
  csr_EmailAddresses :: "string list"
  csr_PublicKey :: PublicKey

section \<open>Field errors\<close>

datatype path_elem = PName string | PIndex nat

type_synonym path = "path_elem list"

definition NewPath :: "string list \<Rightarrow> path" where
  "NewPath names = map PName names"

definition Child :: "path \<Rightarrow> string \<Rightarrow> path" where
  "Child p name = p @ [PName name]"

definition Index :: "path \<Rightarrow> nat \<Rightarrow> path" where
  "Index p i = p @ [PIndex i]"

datatype field_value =
    VString string | VStrings "string list" | VBool bool | VInt int | VLabels labels

datatype field_error =
    FInvalid path field_value string
  | FRequired path string
  | FInternalError path goerr
  | FNotSupported path string "string list"

section \<open>What other packages compute\<close>

datatype cel_type = BoolType | OtherType string

record service_account =
  sa_Name :: string
  sa_Namespace :: string

text \<open>Values of CEL expressions (\<^verbatim>\<open>ref.Val\<close>) as far as the program tells them apart.\<close>

datatype cel_val =
    CelBool bool | CelString string | CelSA service_account | CelErr string
  | CelTypeVal cel_type | CelOther string

text \<open>A Go value that the program asks a CEL value for: a service account or a string.\<close>

datatype native = NativeSA service_account | NativeString string

text \<open>The variables of a rule: \<^verbatim>\<open>self\<close> and the fields of \<^verbatim>\<open>cr\<close>.\<close>

record cel_vars =
  var_self :: string
  var_cr_name :: string
  var_cr_namespace :: string
  var_cr_username :: string

text \<open>
  Each field is a function of a package outside the repository. \<open>'env\<close>, \<open>'ast\<close> and \<open>'prog\<close>
  are cel-go's environment, checked expression and program.

  \<^item> \<open>x_DecodeCSR\<close>: cert-manager's \<^verbatim>\<open>DecodeX509CertificateRequestBytes\<close>;
  \<^item> \<open>x_IsApproved\<close>, \<open>x_IsDenied\<close>: cert-manager's \<^verbatim>\<open>CertificateRequestIsApproved\<close>/\<^verbatim>\<open>IsDenied\<close>;
  \<^item> \<open>x_URL_String\<close>, \<open>x_Quote\<close>: \<^verbatim>\<open>URL.String\<close> and the \<^verbatim>\<open>%q\<close> verb;
  \<^item> \<open>x_nil_Duration\<close>: what \<^verbatim>\<open>(*metav1.Duration)(nil).String()\<close> prints;
  \<^item> \<open>x_ToAggregate\<close>: \<^verbatim>\<open>field.ErrorList.ToAggregate\<close>, \<open>None\<close> for a nil aggregate, otherwise the
    list of its errors; \<open>x_AggregateText\<close> the text of an aggregate;
  \<^item> \<open>x_NewAggregate\<close>: \<^verbatim>\<open>utilerrors.NewAggregate\<close>;
  \<^item> \<open>x_LabelSelector\<close>: \<^verbatim>\<open>metav1.LabelSelectorAsSelector\<close> for match labels, as the set of label
    sets the selector matches;
  \<^item> \<open>x_IgnoreNotFound\<close>: controller-runtime's \<^verbatim>\<open>client.IgnoreNotFound\<close>;
  \<^item> \<open>x_NewEnv\<close>, \<open>x_Compile\<close>, \<open>x_OutputType\<close>, \<open>x_Program\<close>, \<open>x_Eval\<close>: cel-go;
  \<^item> \<open>x_SplitUsername\<close>, \<open>x_MakeUsername\<close>: the API server's service account names;
  \<^item> \<open>x_NoSuchOverload\<close>: cel-go's \<^verbatim>\<open>MaybeNoSuchOverloadErr\<close>;
  \<^item> \<open>x_Value\<close>: the method \<^verbatim>\<open>Value\<close> of cel-go's own values, \<open>None\<close> where the Go value is neither a
    string nor a service account. Not only CEL strings have a Go string: a type value has the name
    of the type.
\<close>

record ('url, 'env, 'ast, 'prog) extern =
  x_DecodeCSR :: "string \<Rightarrow> goerr + 'url CSR"
  x_IsApproved :: "CertificateRequest \<Rightarrow> bool"
  x_IsDenied :: "CertificateRequest \<Rightarrow> bool"
  x_URL_String :: "'url \<Rightarrow> string"
  x_Quote :: "string \<Rightarrow> string"
  x_nil_Duration :: string
  x_ToAggregate :: "field_error list \<Rightarrow> goerr list option"
  x_AggregateText :: "goerr list \<Rightarrow> string"
  x_NewAggregate :: "goerr option list \<Rightarrow> goerr option"
  x_LabelSelector :: "labels \<Rightarrow> goerr + (labels \<Rightarrow> bool)"
  x_IgnoreNotFound :: "goerr \<Rightarrow> goerr option"
  x_NewEnv :: "goerr + 'env"
  x_Compile :: "'env \<Rightarrow> string \<Rightarrow> goerr + 'ast"
  x_OutputType :: "'ast \<Rightarrow> cel_type"
  x_Program :: "'env \<Rightarrow> 'ast \<Rightarrow> 'prog option \<times> goerr option"
  x_Eval :: "'prog \<Rightarrow> cel_vars \<Rightarrow> goerr + cel_val"
  x_SplitUsername :: "string \<Rightarrow> goerr + string \<times> string"
  x_MakeUsername :: "string \<Rightarrow> string \<Rightarrow> string"
  x_NoSuchOverload :: "cel_val \<Rightarrow> cel_val"
  x_Value :: "cel_val \<Rightarrow> native option"

section \<open>Documented behaviour of those packages\<close>

text \<open>\<^verbatim>\<open>ToAggregate\<close> returns nil for an empty list only, and an aggregate always has an error in
  it.\<close>

definition ToAggregate_doc :: "('url, 'env, 'ast, 'prog) extern \<Rightarrow> bool" where
  "ToAggregate_doc x \<longleftrightarrow>
     (\<forall>el. (x_ToAggregate x el = None \<longleftrightarrow> el = []) \<and> x_ToAggregate x el \<noteq> Some [])"

text \<open>\<^verbatim>\<open>NewAggregate\<close> drops nil errors and returns nil when none is left.\<close>

definition NewAggregate_doc :: "('url, 'env, 'ast, 'prog) extern \<Rightarrow> bool" where
  "NewAggregate_doc x \<longleftrightarrow>
     (\<forall>es. x_NewAggregate x es = None \<longleftrightarrow> (\<forall>e \<in> set es. e = None))"

text \<open>cel-go: a program made from an expression that type-checks as a boolean yields a boolean
  value whenever its evaluation returns no error.\<close>

definition cel_type_sound :: "('url, 'env, 'ast, 'prog) extern \<Rightarrow> bool" where
  "cel_type_sound x \<longleftrightarrow>
     (\<forall>env ast prog vars v.
        x_OutputType x ast = BoolType \<and> x_Program x env ast = (Some prog, None) \<and>
        x_Eval x prog vars = Inr v \<longrightarrow> (\<exists>b. v = CelBool b))"

text \<open>cel-go: \<^verbatim>\<open>Program\<close> returns a program or an error.\<close>

definition cel_program_total :: "('url, 'env, 'ast, 'prog) extern \<Rightarrow> bool" where
  "cel_program_total x \<longleftrightarrow>
     (\<forall>env ast. snd (x_Program x env ast) = None \<longrightarrow> fst (x_Program x env ast) \<noteq> None)"

text \<open>cel-go: the Go value of a CEL string is that string.\<close>

definition cel_string_doc :: "('url, 'env, 'ast, 'prog) extern \<Rightarrow> bool" where
  "cel_string_doc x \<longleftrightarrow> (\<forall>s. x_Value x (CelString s) = Some (NativeString s))"

section \<open>A concrete instance\<close>

text \<open>An instance of the parameters in which the documented behaviours hold, for the witnesses of
  the properties: rules are their own programs, the rule \<open>true\<close> accepts and others reject; the
  bytes \<open>csr\<close> decode to a small request and other bytes do not decode; URLs are their text.\<close>

definition sample_name :: PkixName where
  "sample_name = \<lparr>n_CommonName = ''www.example.com'', n_Organization = [''acme''],
     n_Country = [], n_OrganizationalUnit = [], n_Locality = [], n_Province = [],
     n_StreetAddress = [], n_PostalCode = [], n_SerialNumber = ''''\<rparr>"

definition sample_csr :: "string CSR" where
  "sample_csr = \<lparr>csr_Subject = sample_name, csr_DNSNames = [''www.example.com''],
     csr_IPAddresses = [], csr_URIs = [], csr_EmailAddresses = [],
     csr_PublicKey = ECDSAPublicKeyPtr P256\<rparr>"

definition sample_request :: CertificateRequest where
  "sample_request = \<lparr>cr_Name = ''req'', cr_Namespace = ''ns'', cr_Duration = Some 3600000000000,
     cr_IssuerRef = \<lparr>ir_Name = ''ca'', ir_Kind = '''', ir_Group = ''''\<rparr>,
     cr_Request = ''csr'', cr_IsCA = False, cr_Usages = [''server auth''],
     cr_Username = ''alice'', cr_UID = ''1'', cr_Groups = [''dev''], cr_Extra = [],
     cr_Conditions = []\<rparr>"

definition sample_extern :: "(string, unit, string, string) extern" where
  "sample_extern = \<lparr>
     x_DecodeCSR = (\<lambda>b. if b = ''csr'' then Inr sample_csr
                        else if b = ''csr-ed25519'' then
                          Inr (sample_csr\<lparr>csr_PublicKey := Ed25519PublicKeyVal ''key''\<rparr>)
                        else Inl (ErrLib ''error decoding certificate request PEM block'')),
     x_IsApproved = (\<lambda>cr. \<exists>c \<in> set (cr_Conditions cr).
                         cc_Type c = ConditionApproved \<and> cc_Status c = ConditionTrue),
     x_IsDenied = (\<lambda>cr. \<exists>c \<in> set (cr_Conditions cr).
                         cc_Type c = ConditionDenied \<and> cc_Status c = ConditionTrue),
     x_URL_String = (\<lambda>u. u),
     x_Quote = (\<lambda>s. CHR 0x22 # s @ [CHR 0x22]),
     x_nil_Duration = ''nil'',
     x_ToAggregate = (\<lambda>el. if el = [] then None else Some (map (\<lambda>_. ErrLib ''field'') el)),
     x_AggregateText = (\<lambda>es. Join (map errText es) '', ''),
     x_NewAggregate = (\<lambda>es. case filter (\<lambda>e. e \<noteq> None) es of [] \<Rightarrow> None | e # _ \<Rightarrow> e),
     x_LabelSelector = (\<lambda>ml. if fst ` set ml \<subseteq> {''''} \<and> ml \<noteq> [] then Inl (ErrLib ''bad label'')
                            else Inr (\<lambda>ls. set ml \<subseteq> set ls)),
     x_IgnoreNotFound = (\<lambda>e. if e = ErrLib ''not found'' then None else Some e),
     x_NewEnv = Inr (),
     x_Compile = (\<lambda>_ e. if e = '''' then Inl (ErrLib ''syntax error'') else Inr e),
     x_OutputType = (\<lambda>a. if a = ''size(self)'' then OtherType ''int'' else BoolType),
     x_Program = (\<lambda>_ a. (Some a, None)),
     x_Eval = (\<lambda>p _. Inr (CelBool (p = ''true''))),
     x_SplitUsername = (\<lambda>s. if s = ''system:serviceaccount:ns:sa'' then Inr (''ns'', ''sa'')
                            else Inl (ErrLib ''Username must be in the form system:serviceaccount'')),
     x_MakeUsername = (\<lambda>ns n. ''system:serviceaccount:'' @ ns @ '':'' @ n),
     x_NoSuchOverload = (\<lambda>v. CelErr ''no such overload''),
     x_Value = (\<lambda>v. case v of
                        CelString s \<Rightarrow> Some (NativeString s)
                      | CelTypeVal t \<Rightarrow>
                          Some (NativeString (case t of BoolType \<Rightarrow> ''bool'' | OtherType n \<Rightarrow> n))
                      | _ \<Rightarrow> None)\<rparr>"

lemma sample_extern_doc:
  "ToAggregate_doc sample_extern" "NewAggregate_doc sample_extern"
  "cel_type_sound sample_extern" "cel_program_total sample_extern" "cel_string_doc sample_extern"
  by (auto simp: sample_extern_def cel_string_doc_def ToAggregate_doc_def NewAggregate_doc_def cel_type_sound_def
      cel_program_total_def filter_empty_conv split: list.splits dest!: filter_eq_ConsD)

end
