(* ===== verification/AP_Validation.thy ===== *)
theory AP_Validation
  imports AP_API
begin

text \<open>
  \<^verbatim>\<open>pkg/internal/approver/validation\<close>: compiling and running the CEL rules of a policy, the lazy
  cache of compiled validators, and the service account functions that rules may call. cel-go
  itself is a parameter (\<open>extern\<close>).

  The cache is a map from expressions to entries. Read through the interface
  \<open>validator_cache\<close> it is transparent: every \<^verbatim>\<open>Get\<close> returns what a fresh compilation returns.
  How concurrent calls of \<^verbatim>\<open>Get\<close> interleave is the subject of \<open>AP_CacheConc\<close>.
\<close>

section \<open>Validators\<close>

record 'prog validator =
  v_expression :: string
  v_program :: "'prog option"

definition cel_type_text :: "cel_type \<Rightarrow> string" where
  "cel_type_text t = (case t of BoolType \<Rightarrow> ''bool'' | OtherType n \<Rightarrow> n)"

text \<open>\<^verbatim>\<open>compile\<close> returns its error and changes the program of the receiver.\<close>

definition compile ::
  "('u, 'e, 'a, 'p) extern \<Rightarrow> 'p validator \<Rightarrow> goerr option \<times> 'p validator" where
  "compile x v =
     (if v_program v \<noteq> None then (None, v)
      else case x_NewEnv x of
        Inl err \<Rightarrow> (Some err, v)
      | Inr env \<Rightarrow>
          (case x_Compile x env (v_expression v) of
             Inl err \<Rightarrow> (Some err, v)
           | Inr ast \<Rightarrow>
               if x_OutputType x ast \<noteq> BoolType then
                 (Some (ErrNew (''got '' @ cel_type_text (x_OutputType x ast) @ '', wanted '' @
                                cel_type_text BoolType @ '' result type'')), v)
               else
                 (let (prog, err) = x_Program x env ast
                  in (err, v\<lparr>v_program := prog\<rparr>))))"

definition validator_vars :: "string \<Rightarrow> CertificateRequest \<Rightarrow> cel_vars" where
  "validator_vars value request =
     \<lparr>var_self = value, var_cr_name = cr_Name request, var_cr_namespace = cr_Namespace request,
      var_cr_username = cr_Username request\<rparr>"

text \<open>\<^verbatim>\<open>Validate\<close>: the type assertion \<^verbatim>\<open>out.Value().(bool)\<close> panics on a value that is no bool.\<close>

definition Validate ::
  "('u, 'e, 'a, 'p) extern \<Rightarrow> 'p validator \<Rightarrow> string \<Rightarrow> CertificateRequest \<Rightarrow>
   (goerr + bool) outcome" where
  "Validate x v value request =
     (case v_program v of
        None \<Rightarrow> Returns (Inl (ErrNew ''must compile first''))
      | Some prog \<Rightarrow>
          (case x_Eval x prog (validator_vars value request) of
             Inl err \<Rightarrow> Returns (Inl err)
           | Inr (CelBool b) \<Rightarrow> Returns (Inr b)
           | Inr _ \<Rightarrow> Panics ''interface conversion: not a bool''))"

section \<open>The cache\<close>

record 'prog cacheEntry =
  ce_validator :: "'prog validator option"
  ce_err :: "goerr option"

type_synonym 'prog cache = "string \<rightharpoonup> 'prog cacheEntry"

text \<open>\<^verbatim>\<open>sync.Map.LoadOrStore\<close>: the entry that was there, or else the new one.\<close>

definition LoadOrStore ::
  "string \<Rightarrow> 'p cacheEntry \<Rightarrow> 'p cache \<Rightarrow> 'p cacheEntry \<times> 'p cache" where
  "LoadOrStore k new m =
     (case m k of Some ce \<Rightarrow> (ce, m) | None \<Rightarrow> (new, m(k \<mapsto> new)))"

text \<open>The entry that \<^verbatim>\<open>Get\<close> makes for an expression it does not find. After an error its validator is a nil
  pointer, \<open>None\<close>; wrapped into the interface that \<^verbatim>\<open>Get\<close> returns it is not equal to nil, but callers
  look at the error first.\<close>

definition new_entry :: "('u, 'e, 'a, 'p) extern \<Rightarrow> string \<Rightarrow> 'p cacheEntry" where
  "new_entry x expr =
     (let (err, v) = compile x \<lparr>v_expression = expr, v_program = None\<rparr>
      in \<lparr>ce_validator = (if err \<noteq> None then None else Some v), ce_err = err\<rparr>)"

definition Get ::
  "('u, 'e, 'a, 'p) extern \<Rightarrow> string \<Rightarrow> 'p cache \<Rightarrow>
   ('p validator option \<times> goerr option) \<times> 'p cache" where
  "Get x expr m =
     (case m expr of
        Some ce \<Rightarrow> ((ce_validator ce, ce_err ce), m)
      | None \<Rightarrow>
          (let (ce, m') = LoadOrStore expr (new_entry x expr) m
           in ((ce_validator ce, ce_err ce), m')))"

definition NewCache :: "'p cache" where
  "NewCache = Map.empty"

text \<open>The cache after a sequence of calls for the given expressions.\<close>

definition cache_after :: "('u, 'e, 'a, 'p) extern \<Rightarrow> string list \<Rightarrow> 'p cache" where
  "cache_after x asked = foldl (\<lambda>m expr. snd (Get x expr m)) NewCache asked"

text \<open>Every entry is what compiling its expression gives.\<close>

definition cache_ok :: "('u, 'e, 'a, 'p) extern \<Rightarrow> 'p cache \<Rightarrow> bool" where
  "cache_ok x m \<longleftrightarrow> (\<forall>expr ce. m expr = Some ce \<longrightarrow> ce = new_entry x expr)"

section \<open>Service accounts\<close>

definition SAType :: cel_type where
  "SAType = OtherType ''cm.io.policy.pkg.internal.approver.validation.ServiceAccount''"

definition TypeType :: cel_type where
  "TypeType = OtherType ''type''"

text \<open>A Go type as \<^verbatim>\<open>reflect.Type.AssignableTo\<close> sees it from \<^verbatim>\<open>ServiceAccount\<close> and \<^verbatim>\<open>string\<close>.\<close>

record rtype =
  rt_name :: string
  rt_from_sa :: bool
  rt_from_string :: bool

text \<open>A text between single quotes.\<close>

definition squote :: "string \<Rightarrow> string" where
  "squote s = CHR 0x27 # s @ [CHR 0x27]"

definition ConvertToNative ::
  "('u, 'e, 'a, 'p) extern \<Rightarrow> service_account \<Rightarrow> rtype \<Rightarrow> goerr + native" where
  "ConvertToNative x sa typeDesc =
     (if rt_from_sa typeDesc then Inr (NativeSA sa)
      else if rt_from_string typeDesc then
        Inr (NativeString (x_MakeUsername x (sa_Namespace sa) (sa_Name sa)))
      else Inl (ErrNew (''type conversion error from '' @ squote ''serviceaccount'' @ '' to '' @
                        squote (rt_name typeDesc))))"

definition ConvertToType :: "service_account \<Rightarrow> cel_type \<Rightarrow> cel_val" where
  "ConvertToType sa typeVal =
     (if typeVal = SAType then CelSA sa
      else if typeVal = TypeType then CelTypeVal SAType
      else CelErr (''type conversion error from '' @ squote (cel_type_text SAType) @ '' to '' @
                   squote (cel_type_text typeVal)))"

definition sa_Equal :: "('u, 'e, 'a, 'p) extern \<Rightarrow> service_account \<Rightarrow> cel_val \<Rightarrow> cel_val" where
  "sa_Equal x sa other =
     (case other of
        CelSA otherSA \<Rightarrow>
          CelBool (sa_Name sa = sa_Name otherSA \<and> sa_Namespace sa = sa_Namespace otherSA)
      | _ \<Rightarrow> x_NoSuchOverload x other)"

definition sa_Type :: "service_account \<Rightarrow> cel_type" where
  "sa_Type sa = SAType"

definition sa_Value :: "service_account \<Rightarrow> native" where
  "sa_Value sa = NativeSA sa"

text \<open>\<^verbatim>\<open>arg.Value()\<close>, a dynamic dispatch: the method above for a service account, cel-go's for its own
  values.\<close>

definition cel_Value :: "('u, 'e, 'a, 'p) extern \<Rightarrow> cel_val \<Rightarrow> native option" where
  "cel_Value x arg = (case arg of CelSA sa \<Rightarrow> Some (sa_Value sa) | _ \<Rightarrow> x_Value x arg)"

definition stringToServiceAccount :: "('u, 'e, 'a, 'p) extern \<Rightarrow> cel_val \<Rightarrow> cel_val" where
  "stringToServiceAccount x arg =
     (case cel_Value x arg of
        Some (NativeString s) \<Rightarrow>
          (case x_SplitUsername x s of
             Inl err \<Rightarrow> CelErr (''Unable to convert to serviceaccount: err: '' @ errText err @
                              '', username: '' @ s)
           | Inr (ns, name) \<Rightarrow> CelSA \<lparr>sa_Name = name, sa_Namespace = ns\<rparr>)
      | _ \<Rightarrow> x_NoSuchOverload x arg)"

definition isServiceAccount :: "('u, 'e, 'a, 'p) extern \<Rightarrow> cel_val \<Rightarrow> cel_val" where
  "isServiceAccount x arg =
     (case cel_Value x arg of
        Some (NativeString s) \<Rightarrow>
          (case x_SplitUsername x s of Inl err \<Rightarrow> CelBool False | Inr _ \<Rightarrow> CelBool True)
      | _ \<Rightarrow> x_NoSuchOverload x arg)"

definition getServiceAccountName :: "('u, 'e, 'a, 'p) extern \<Rightarrow> cel_val \<Rightarrow> cel_val" where
  "getServiceAccountName x arg =
     (case cel_Value x arg of Some (NativeSA sa) \<Rightarrow> CelString (sa_Name sa) | _ \<Rightarrow> x_NoSuchOverload x arg)"

definition getServiceAccountNamespace :: "('u, 'e, 'a, 'p) extern \<Rightarrow> cel_val \<Rightarrow> cel_val" where
  "getServiceAccountNamespace x arg =
     (case cel_Value x arg of Some (NativeSA sa) \<Rightarrow> CelString (sa_Namespace sa) | _ \<Rightarrow> x_NoSuchOverload x arg)"

text \<open>The declarations of the library: function name, overload, whether it is a member function, the
  types of the argument and the result, and the Go function bound to it. Each is unary.\<close>

record cel_overload =
  ov_function :: string
  ov_id :: string
  ov_member :: bool
  ov_arg :: cel_type
  ov_result :: cel_type
  ov_binding :: "cel_val \<Rightarrow> cel_val"

definition StringType :: cel_type where
  "StringType = OtherType ''string''"

definition saLibraryDecls :: "('u, 'e, 'a, 'p) extern \<Rightarrow> cel_overload list" where
  "saLibraryDecls x =
     [\<lparr>ov_function = ''serviceAccount'', ov_id = ''username_to_serviceaccount'', ov_member = False,
       ov_arg = StringType, ov_result = SAType, ov_binding = stringToServiceAccount x\<rparr>,
      \<lparr>ov_function = ''getName'', ov_id = ''serviceaccount_get_name'', ov_member = True,
       ov_arg = SAType, ov_result = StringType, ov_binding = getServiceAccountName x\<rparr>,
      \<lparr>ov_function = ''getNamespace'', ov_id = ''serviceaccount_get_namespace'', ov_member = True,
       ov_arg = SAType, ov_result = StringType, ov_binding = getServiceAccountNamespace x\<rparr>,
      \<lparr>ov_function = ''isServiceAccount'', ov_id = ''serviceaccount_is_sa'', ov_member = False,
       ov_arg = StringType, ov_result = BoolType, ov_binding = isServiceAccount x\<rparr>]"

text \<open>The options with which the library is added to an environment: one per function, in the order
  of the iteration over the map.\<close>

definition CompileOptions :: "cel_overload list \<Rightarrow> (string \<times> cel_overload list) list" where
  "CompileOptions decls = map (\<lambda>ov. (ov_function ov, [ov])) decls"

definition ProgramOptions :: "unit list" where
  "ProgramOptions = []"

section \<open>Compiling and validating\<close>

text \<open>What a compilation can end in: an error and no program, or a program that comes from an
  expression checked to be boolean.\<close>

lemma compile_cases:
  assumes "compile x \<lparr>v_expression = expr, v_program = None\<rparr> = (err, v)"
  obtains (failed) e where "err = Some e"
  | (compiled) env ast where "err = None" and "x_OutputType x ast = BoolType"
      and "x_Program x env ast = (v_program v, None)" and "v_expression v = expr"
  using assms
  by (cases err) (auto simp: compile_def split: sum.splits if_splits prod.splits)

lemma new_entry_valid:
  "ce_validator (new_entry x expr) = Some v \<Longrightarrow>
   (\<exists>env ast. x_OutputType x ast = BoolType \<and> x_Program x env ast = (v_program v, None))"
  by (auto simp: new_entry_def split: prod.splits if_splits elim!: compile_cases)

lemma new_entry_one_of:
  "ce_err (new_entry x expr) = None \<longleftrightarrow> ce_validator (new_entry x expr) \<noteq> None"
  by (auto simp: new_entry_def split: prod.splits)

lemma Validate_no_panic:
  assumes "cel_type_sound x" and "ce_validator (new_entry x expr) = Some v"
  shows "\<exists>r. Validate x v s request = Returns r"
proof (cases "v_program v")
  case None
  then show ?thesis by (simp add: Validate_def)
next
  case (Some prog)
  obtain env ast where "x_OutputType x ast = BoolType" "x_Program x env ast = (Some prog, None)"
    using new_entry_valid [OF assms(2)] Some by auto
  with assms(1) show ?thesis
    unfolding cel_type_sound_def Validate_def Some
    by (fastforce split: sum.splits cel_val.splits)
qed

section \<open>The cache is transparent\<close>

locale validator_cache =
  fixes get :: "string \<Rightarrow> 'c \<Rightarrow> 'r \<times> 'c"
    and fresh :: "string \<Rightarrow> 'r"
    and ok :: "'c \<Rightarrow> bool"
    and empty :: 'c
  assumes ok_empty: "ok empty"
    and get_result: "ok c \<Longrightarrow> fst (get e c) = fresh e"
    and get_ok: "ok c \<Longrightarrow> ok (snd (get e c))"
begin

lemma get_eq: "ok c \<Longrightarrow> \<exists>c'. get e c = (fresh e, c') \<and> ok c'"
  using get_result [of c e] get_ok [of c e] by (cases "get e c") auto

lemma ok_after_gets: "ok c \<Longrightarrow> ok (foldl (\<lambda>c e. snd (get e c)) c es)"
  by (induction es arbitrary: c) (simp_all add: get_ok)

lemma get_after_gets: "fst (get e (foldl (\<lambda>c e. snd (get e c)) empty es)) = fresh e"
  by (rule get_result) (rule ok_after_gets [OF ok_empty])

end

lemma cache_ok_empty: "cache_ok x NewCache"
  by (simp add: cache_ok_def NewCache_def)

lemma Get_fresh:
  assumes "cache_ok x m"
  shows "fst (Get x expr m) = (ce_validator (new_entry x expr), ce_err (new_entry x expr))"
    and "cache_ok x (snd (Get x expr m))"
  using assms by (auto simp: Get_def LoadOrStore_def cache_ok_def split: option.splits)

interpretation vc: validator_cache
  "Get x" "\<lambda>expr. (ce_validator (new_entry x expr), ce_err (new_entry x expr))"
  "cache_ok x" NewCache
  for x
  by unfold_locales (simp_all add: cache_ok_empty Get_fresh)

section \<open>Properties\<close>

text \<open>C26: the cache is transparent. Starting from the empty cache, whatever expressions were
  asked for before, \<^verbatim>\<open>Get\<close> returns the validator and error of a fresh compilation, and the
  cache then holds exactly the entry it answered with.\<close>

theorem Get_transparent:
  "fst (Get x expr (cache_after x asked)) =
     (ce_validator (new_entry x expr), ce_err (new_entry x expr)) \<and>
   snd (Get x expr (cache_after x asked)) expr = Some (new_entry x expr)"
proof -
  have ok: "cache_ok x (cache_after x asked)"
    unfolding cache_after_def by (rule vc.ok_after_gets [OF vc.ok_empty])
  then have "snd (Get x expr (cache_after x asked)) expr = Some (new_entry x expr)"
    by (auto simp: Get_def LoadOrStore_def cache_ok_def split: option.splits)
  then show ?thesis unfolding cache_after_def by (simp add: vc.get_after_gets)
qed

text \<open>C27: compiling and validating agree. \<^verbatim>\<open>Get\<close> returns a validator exactly when it returns no
  error; and when cel-go is type sound, running that validator ends in a verdict or an error
  value, never in the panic of the type assertion.\<close>

theorem Get_validator_safe:
  assumes "cel_type_sound x" and "cache_ok x m" and "Get x expr m = ((v, err), m')"
  shows "(v = None \<longleftrightarrow> err \<noteq> None) \<and>
         (\<forall>w. v = Some w \<longrightarrow> (\<exists>r. Validate x w s request = Returns r))"
proof -
  have "v = ce_validator (new_entry x expr)" and "err = ce_err (new_entry x expr)"
    using Get_fresh(1) [OF assms(2), of expr] assms(3) by simp_all
  then show ?thesis
    using new_entry_one_of [of x expr] Validate_no_panic [OF assms(1)] by auto
qed

theorem Get_validator_safe_witness:
  "\<exists>v m'. Get sample_extern ''true'' NewCache = ((Some v, None), m') \<and>
          (\<exists>r. Validate sample_extern v ''a'' sample_request = Returns r)"
proof -
  obtain v err m' where g: "Get sample_extern ''true'' NewCache = ((v, err), m')"
    by (metis surj_pair)
  have "err = None"
    using g by (auto simp: Get_def LoadOrStore_def new_entry_def compile_def NewCache_def
        sample_extern_def)
  with Get_validator_safe
      [OF sample_extern_doc(3) cache_ok_empty g, where s = "''a''" and request = sample_request] g
  show ?thesis by auto
qed

text \<open>The Go value of a string and of a service account.\<close>

lemma cel_Value_simps [simp]:
  "cel_string_doc x \<Longrightarrow> cel_Value x (CelString s) = Some (NativeString s)"
  "cel_Value x (CelSA sa) = Some (NativeSA sa)"
  by (simp_all add: cel_Value_def sa_Value_def cel_string_doc_def)

text \<open>The service account functions agree. \<^verbatim>\<open>isServiceAccount\<close> is true on exactly the values that
  \<^verbatim>\<open>serviceAccount\<close> converts; on the user name of an account \<^verbatim>\<open>getName\<close> and \<^verbatim>\<open>getNamespace\<close> return its
  parts, and two accounts are equal iff both parts are.\<close>

lemma serviceAccount_functions:
  assumes "cel_string_doc x"
  shows "isServiceAccount x (CelString s) = CelBool True \<longleftrightarrow>
      (\<exists>sa. stringToServiceAccount x (CelString s) = CelSA sa)"
    and "x_SplitUsername x s = Inr (ns, name) \<Longrightarrow>
      getServiceAccountName x (stringToServiceAccount x (CelString s)) = CelString name \<and>
      getServiceAccountNamespace x (stringToServiceAccount x (CelString s)) = CelString ns"
    and "sa_Equal x sa1 (CelSA sa2) = CelBool True \<longleftrightarrow> sa1 = sa2"
  using assms
  by (auto simp: isServiceAccount_def stringToServiceAccount_def getServiceAccountName_def
      getServiceAccountNamespace_def sa_Equal_def split: sum.splits)

text \<open>The type of a value; errors have none, and values of other types are not told apart.\<close>

fun cel_val_type :: "cel_val \<Rightarrow> cel_type option" where
  "cel_val_type (CelBool b) = Some BoolType"
| "cel_val_type (CelString s) = Some StringType"
| "cel_val_type (CelSA sa) = Some (sa_Type sa)"
| "cel_val_type (CelTypeVal t) = Some TypeType"
| "cel_val_type (CelErr e) = None"
| "cel_val_type (CelOther s) = None"

lemma cel_string_value: "cel_val_type v = Some StringType \<Longrightarrow> \<exists>s. v = CelString s"
  by (cases v) (simp_all add: StringType_def SAType_def TypeType_def sa_Type_def)

lemma cel_sa_value: "cel_val_type v = Some SAType \<Longrightarrow> \<exists>sa. v = CelSA sa"
  by (cases v) (simp_all add: StringType_def SAType_def TypeType_def sa_Type_def)

lemma saLibraryDecls_cases:
  assumes "ov \<in> set (saLibraryDecls x)"
  obtains (convert) "ov_function ov = ''serviceAccount''" "ov_arg ov = StringType" "ov_result ov = SAType"
      "ov_binding ov = stringToServiceAccount x"
    | (name) "ov_arg ov = SAType" "ov_result ov = StringType" "ov_binding ov = getServiceAccountName x"
    | (namespace) "ov_arg ov = SAType" "ov_result ov = StringType"
      "ov_binding ov = getServiceAccountNamespace x"
    | (test) "ov_arg ov = StringType" "ov_result ov = BoolType" "ov_binding ov = isServiceAccount x"
proof -
  from assms have "ov = saLibraryDecls x ! 0 \<or> ov = saLibraryDecls x ! 1 \<or> ov = saLibraryDecls x ! 2 \<or>
      ov = saLibraryDecls x ! 3"
    unfolding saLibraryDecls_def by simp
  then show thesis
    by (elim disjE) (rule convert name namespace test; simp add: saLibraryDecls_def; fail)+
qed

lemma saLibrary_result:
  assumes doc: "cel_string_doc x" and ov: "ov \<in> set (saLibraryDecls x)" and "cel_val_type v = Some (ov_arg ov)"
  shows "cel_val_type (ov_binding ov v) = Some (ov_result ov) \<or>
         ov_function ov = ''serviceAccount'' \<and> isServiceAccount x v = CelBool False \<and>
           (\<exists>msg. ov_binding ov v = CelErr msg)"
  using ov
proof (cases rule: saLibraryDecls_cases)
  case convert
  with assms(3) obtain s where "v = CelString s" using cel_string_value by metis
  with convert doc show ?thesis
    by (simp add: stringToServiceAccount_def isServiceAccount_def sa_Type_def split: sum.splits prod.splits)
next
  case name
  with assms(3) obtain sa where "v = CelSA sa" using cel_sa_value by metis
  with name show ?thesis by (simp add: getServiceAccountName_def)
next
  case namespace
  with assms(3) obtain sa where "v = CelSA sa" using cel_sa_value by metis
  with namespace show ?thesis by (simp add: getServiceAccountNamespace_def)
next
  case test
  with assms(3) obtain s where "v = CelString s" using cel_string_value by metis
  with test doc show ?thesis by (simp add: isServiceAccount_def split: sum.splits)
qed

text \<open>C33: the library keeps the types it declares to CEL's type checker. Called on a value of the
  declared argument type, a function returns a value of the declared result type; only
  \<^verbatim>\<open>serviceAccount\<close> may return an error instead, and does so only on strings that are not names of
  service accounts. Called on a value whose Go value is not a string (\<^verbatim>\<open>serviceAccount\<close>,
  \<^verbatim>\<open>isServiceAccount\<close>) or not a service account (\<^verbatim>\<open>getName\<close>, \<^verbatim>\<open>getNamespace\<close>), it returns CEL's error for
  a missing overload; a CEL value of another type whose Go value is a string, as a type value, is
  treated as that string. No two functions or overloads have the same name.\<close>

theorem saLibrary_typed:
  assumes "cel_string_doc x" and "ov \<in> set (saLibraryDecls x)"
  shows "(cel_val_type v = Some (ov_arg ov) \<longrightarrow>
            cel_val_type (ov_binding ov v) = Some (ov_result ov) \<or>
            ov_function ov = ''serviceAccount'' \<and> isServiceAccount x v = CelBool False \<and>
              (\<exists>msg. ov_binding ov v = CelErr msg)) \<and>
         (ov_arg ov = StringType \<and> cel_Value x v \<notin> range (Some \<circ> NativeString) \<or>
          ov_arg ov = SAType \<and> cel_Value x v \<notin> range (Some \<circ> NativeSA) \<longrightarrow>
            ov_binding ov v = x_NoSuchOverload x v) \<and>
         (ov_arg ov = StringType \<and> cel_Value x v = Some (NativeString s) \<longrightarrow>
            ov_binding ov v = ov_binding ov (CelString s)) \<and>
         distinct (map ov_function (saLibraryDecls x)) \<and> distinct (map ov_id (saLibraryDecls x))"
proof (intro conjI impI)
  assume "cel_val_type v = Some (ov_arg ov)"
  then show "cel_val_type (ov_binding ov v) = Some (ov_result ov) \<or>
      ov_function ov = ''serviceAccount'' \<and> isServiceAccount x v = CelBool False \<and>
        (\<exists>msg. ov_binding ov v = CelErr msg)"
    by (rule saLibrary_result [OF assms])
next
  assume other: "ov_arg ov = StringType \<and> cel_Value x v \<notin> range (Some \<circ> NativeString) \<or>
      ov_arg ov = SAType \<and> cel_Value x v \<notin> range (Some \<circ> NativeSA)"
  from assms(2) show "ov_binding ov v = x_NoSuchOverload x v"
    by (cases rule: saLibraryDecls_cases; use other in \<open>auto simp: StringType_def SAType_def
        stringToServiceAccount_def isServiceAccount_def getServiceAccountName_def
        getServiceAccountNamespace_def image_iff split: option.splits native.splits\<close>)
next
  assume str: "ov_arg ov = StringType \<and> cel_Value x v = Some (NativeString s)"
  from assms(2) show "ov_binding ov v = ov_binding ov (CelString s)"
    by (cases rule: saLibraryDecls_cases; use str assms(1) in \<open>simp add: StringType_def SAType_def
        stringToServiceAccount_def isServiceAccount_def\<close>)
qed (simp_all add: saLibraryDecls_def)

theorem saLibrary_typed_witness:
  "cel_val_type (ov_binding (saLibraryDecls sample_extern ! 1) (CelSA \<lparr>sa_Name = ''sa'', sa_Namespace = ''ns''\<rparr>)) =
     Some StringType \<and>
   ov_binding (saLibraryDecls sample_extern ! 3) (CelTypeVal BoolType) = CelBool False \<and>
   ov_binding (saLibraryDecls sample_extern ! 3) (CelBool True) = CelErr ''no such overload''"
proof (intro conjI)
  let ?sa = "CelSA \<lparr>sa_Name = ''sa'', sa_Namespace = ''ns''\<rparr>" and ?ov = "saLibraryDecls sample_extern ! 1"
    and ?is = "saLibraryDecls sample_extern ! 3"
  have ov: "?ov \<in> set (saLibraryDecls sample_extern)" "?is \<in> set (saLibraryDecls sample_extern)"
    by (rule nth_mem; simp add: saLibraryDecls_def)+
  note typed = saLibrary_typed [OF sample_extern_doc(5)]
  have "ov_function ?ov \<noteq> ''serviceAccount''" "ov_arg ?ov = SAType" "ov_result ?ov = StringType"
    by (simp_all add: saLibraryDecls_def)
  with typed [OF ov(1), of ?sa] show "cel_val_type (ov_binding ?ov ?sa) = Some StringType"
    by (simp add: sa_Type_def)
  have test: "ov_arg ?is = StringType" "ov_binding ?is = isServiceAccount sample_extern"
    by (simp_all add: saLibraryDecls_def)
  with typed [OF ov(2), of "CelTypeVal BoolType" "''bool''"]
  show "ov_binding ?is (CelTypeVal BoolType) = CelBool False"
    by (simp add: cel_Value_def sample_extern_def isServiceAccount_def)
  from typed [OF ov(2), of "CelBool True"] test(1)
  show "ov_binding ?is (CelBool True) = CelErr ''no such overload''"
    by (auto simp: cel_Value_def sample_extern_def)
qed

end
