(* ===== verification/AP_CacheConc.thy ===== *)
theory AP_CacheConc
  imports AP_Validation
begin

text \<open>
  \<^verbatim>\<open>cache.Get\<close> as concurrent goroutines run it. The map is a \<^verbatim>\<open>sync.Map\<close>, so \<^verbatim>\<open>Load\<close> and
  \<^verbatim>\<open>LoadOrStore\<close> are atomic, but other goroutines may run between them: two callers that both
  miss compile the expression twice, as the comment in the code says. Entries are kept on a heap
  and the map holds pointers, so that "the same entry" means the same pointer.
\<close>

section \<open>Goroutines and their steps\<close>

text \<open>Where a goroutine is inside \<^verbatim>\<open>Get(expr)\<close>: before \<^verbatim>\<open>Load\<close>, after a miss, with a compiled
  entry of its own before \<^verbatim>\<open>LoadOrStore\<close>, and with the entry it returns.\<close>

datatype pc = Idle | Loading string | Missed string | Compiled string nat | Returned string nat

record 'p gstate =
  g_map :: "string \<rightharpoonup> nat"
  g_heap :: "nat \<rightharpoonup> 'p cacheEntry"
  g_next :: nat
  g_pc :: "nat \<Rightarrow> pc"

definition g_init :: "'p gstate" where
  "g_init = \<lparr>g_map = Map.empty, g_heap = Map.empty, g_next = 0, g_pc = (\<lambda>_. Idle)\<rparr>"

abbreviation at_pc :: "'p gstate \<Rightarrow> nat \<Rightarrow> pc \<Rightarrow> 'p gstate" where
  "at_pc s i p \<equiv> s\<lparr>g_pc := (g_pc s)(i := p)\<rparr>"

text \<open>\<open>get_step x i s t\<close>: goroutine \<open>i\<close> moves.\<close>

inductive get_step ::
  "('u, 'e, 'a, 'p) extern \<Rightarrow> nat \<Rightarrow> 'p gstate \<Rightarrow> 'p gstate \<Rightarrow> bool" for x where
  call: "g_pc s i = Idle \<Longrightarrow> get_step x i s (at_pc s i (Loading e))"
| load_hit: "g_pc s i = Loading e \<Longrightarrow> g_map s e = Some q \<Longrightarrow>
    get_step x i s (at_pc s i (Returned e q))"
| load_miss: "g_pc s i = Loading e \<Longrightarrow> g_map s e = None \<Longrightarrow>
    get_step x i s (at_pc s i (Missed e))"
| compiled: "g_pc s i = Missed e \<Longrightarrow>
    get_step x i s (at_pc (s\<lparr>g_heap := (g_heap s)(g_next s \<mapsto> new_entry x e),
                             g_next := Suc (g_next s)\<rparr>) i (Compiled e (g_next s)))"
| stored: "g_pc s i = Compiled e q \<Longrightarrow> g_map s e = None \<Longrightarrow>
    get_step x i s (at_pc (s\<lparr>g_map := (g_map s)(e \<mapsto> q)\<rparr>) i (Returned e q))"
| lost_race: "g_pc s i = Compiled e q \<Longrightarrow> g_map s e = Some q' \<Longrightarrow>
    get_step x i s (at_pc s i (Returned e q'))"
| leave: "g_pc s i = Returned e q \<Longrightarrow> get_step x i s (at_pc s i Idle)"

inductive g_reachable :: "('u, 'e, 'a, 'p) extern \<Rightarrow> 'p gstate \<Rightarrow> bool" for x where
  init: "g_reachable x g_init"
| step: "g_reachable x s \<Longrightarrow> get_step x i s t \<Longrightarrow> g_reachable x t"

inductive_cases get_stepE: "get_step x i s t"

section \<open>The invariant\<close>

definition g_inv :: "('u, 'e, 'a, 'p) extern \<Rightarrow> 'p gstate \<Rightarrow> bool" where
  "g_inv x s \<longleftrightarrow>
     (\<forall>e q. g_map s e = Some q \<longrightarrow> g_heap s q = Some (new_entry x e)) \<and>
     (\<forall>i e q. g_pc s i = Compiled e q \<longrightarrow> g_heap s q = Some (new_entry x e)) \<and>
     (\<forall>i e q. g_pc s i = Returned e q \<longrightarrow> g_map s e = Some q) \<and>
     (\<forall>q. g_heap s q \<noteq> None \<longrightarrow> q < g_next s)"

lemma g_inv_init: "g_inv x g_init"
  by (simp add: g_inv_def g_init_def)

lemma g_inv_step:
  assumes "get_step x i s t" and "g_inv x s"
  shows "g_inv x t"
  using assms
proof (induction rule: get_step.induct)
  case (compiled s i e)
  have fresh: "g_heap s (g_next s) = None"
    using compiled.prems by (auto simp: g_inv_def)
  have "q \<noteq> g_next s" if "g_heap s q = Some ce" for q ce
    using that fresh by auto
  with compiled.prems show ?case
    by (auto simp: g_inv_def less_Suc_eq)
qed (auto simp: g_inv_def)

lemma g_reachable_inv: "g_reachable x s \<Longrightarrow> g_inv x s"
  by (induction rule: g_reachable.induct) (auto intro: g_inv_init g_inv_step)

lemma get_step_map_mono: "get_step x i s t \<Longrightarrow> g_map s e = Some q \<Longrightarrow> g_map t e = Some q"
  by (erule get_stepE) auto

section \<open>Progress\<close>

text \<open>How many steps of its own a goroutine is away from returning.\<close>

primrec pc_measure :: "pc \<Rightarrow> nat" where
  "pc_measure Idle = 0"
| "pc_measure (Loading e) = 3"
| "pc_measure (Missed e) = 2"
| "pc_measure (Compiled e q) = 1"
| "pc_measure (Returned e q) = 0"

lemma get_step_other: "get_step x i s t \<Longrightarrow> j \<noteq> i \<Longrightarrow> g_pc t j = g_pc s j"
  by (erule get_stepE) auto

lemma get_step_decreases:
  "get_step x i s t \<Longrightarrow> 0 < pc_measure (g_pc s i) \<Longrightarrow>
   pc_measure (g_pc t i) < pc_measure (g_pc s i)"
  by (erule get_stepE) auto

lemma get_step_enabled: "0 < pc_measure (g_pc s i) \<Longrightarrow> \<exists>t. get_step x i s t"
proof (cases "g_pc s i")
  case (Loading e)
  then show ?thesis by (cases "g_map s e") (auto intro: load_hit load_miss)
next
  case (Missed e)
  then show ?thesis by (auto intro: get_step.compiled)
next
  case (Compiled e q)
  then show ?thesis by (cases "g_map s e") (auto intro: stored lost_race)
qed auto

section \<open>Properties\<close>

text \<open>C10: under every interleaving, two calls of \<^verbatim>\<open>Get\<close> that have returned for the same
  expression hold the same entry, the one the map keeps, and that entry is what compiling the
  expression gives, also when both compiled it.\<close>

theorem concurrent_Get_agrees:
  assumes "g_reachable x s" and "g_pc s i = Returned e q" and "g_pc s j = Returned e q'"
  shows "q = q' \<and> g_map s e = Some q \<and> g_heap s q = Some (new_entry x e)"
proof -
  have inv: "g_inv x s" by (rule g_reachable_inv [OF assms(1)])
  then have "g_map s e = Some q" and "g_map s e = Some q'"
    using assms(2,3) unfolding g_inv_def by blast+
  with inv show ?thesis by (simp add: g_inv_def)
qed

theorem concurrent_Get_agrees_witness:
  "\<exists>s. g_reachable sample_extern s \<and> g_pc s 0 = Returned ''true'' 0 \<and>
       g_pc s 1 = Returned ''true'' 0 \<and>
       g_heap s 0 = Some (new_entry sample_extern ''true'')"
proof -
  let ?x = sample_extern
  let ?s1 = "at_pc (g_init :: string gstate) 0 (Loading ''true'')"
  let ?s2 = "at_pc ?s1 1 (Loading ''true'')"
  let ?s3 = "at_pc ?s2 0 (Missed ''true'')"
  let ?s4 = "at_pc ?s3 1 (Missed ''true'')"
  let ?s5 = "at_pc (?s4\<lparr>g_heap := (g_heap ?s4)(g_next ?s4 \<mapsto> new_entry ?x ''true''),
                        g_next := Suc (g_next ?s4)\<rparr>) 0 (Compiled ''true'' (g_next ?s4))"
  let ?s6 = "at_pc (?s5\<lparr>g_heap := (g_heap ?s5)(g_next ?s5 \<mapsto> new_entry ?x ''true''),
                        g_next := Suc (g_next ?s5)\<rparr>) 1 (Compiled ''true'' (g_next ?s5))"
  let ?s7 = "at_pc (?s6\<lparr>g_map := (g_map ?s6)(''true'' \<mapsto> 0)\<rparr>) 0 (Returned ''true'' 0)"
  let ?s8 = "at_pc ?s7 1 (Returned ''true'' 0)"
  have "g_reachable ?x ?s1" by (rule step [OF init call]) (simp add: g_init_def)
  then have "g_reachable ?x ?s2" by (rule step [OF _ call]) (simp add: g_init_def)
  then have "g_reachable ?x ?s3" by (rule step [OF _ load_miss]) (simp_all add: g_init_def)
  then have "g_reachable ?x ?s4" by (rule step [OF _ load_miss]) (simp_all add: g_init_def)
  then have "g_reachable ?x ?s5" by (rule step [OF _ get_step.compiled]) (simp add: g_init_def)
  then have "g_reachable ?x ?s6" by (rule step [OF _ get_step.compiled]) (simp add: g_init_def)
  then have "g_reachable ?x ?s7" by (rule step [OF _ stored]) (simp_all add: g_init_def)
  then have r: "g_reachable ?x ?s8" by (rule step [OF _ lost_race]) (simp_all add: g_init_def)
  have p: "g_pc ?s8 0 = Returned ''true'' 0" "g_pc ?s8 1 = Returned ''true'' 0" by simp_all
  from r p concurrent_Get_agrees [OF r p] show ?thesis by blast
qed

text \<open>C28: \<^verbatim>\<open>Get\<close> needs no other goroutine to return: a goroutine inside it can always move, each
  of its moves brings it nearer to returning, no move of another goroutine takes it back, and an
  entry once stored stays.\<close>

theorem concurrent_Get_progress:
  assumes "0 < pc_measure (g_pc s i)"
  shows "(\<exists>t. get_step x i s t) \<and>
         (\<forall>t. get_step x i s t \<longrightarrow> pc_measure (g_pc t i) < pc_measure (g_pc s i)) \<and>
         (\<forall>j t. j \<noteq> i \<and> get_step x j s t \<longrightarrow> g_pc t i = g_pc s i) \<and>
         (\<forall>j t e q. get_step x j s t \<and> g_map s e = Some q \<longrightarrow> g_map t e = Some q)"
proof (intro conjI allI impI)
  show "\<exists>t. get_step x i s t" by (rule get_step_enabled [OF assms])
next
  fix t assume "get_step x i s t"
  then show "pc_measure (g_pc t i) < pc_measure (g_pc s i)"
    using assms by (rule get_step_decreases)
next
  fix j t assume "j \<noteq> i \<and> get_step x j s t"
  then show "g_pc t i = g_pc s i" by (auto intro: get_step_other)
next
  fix j t e q assume "get_step x j s t \<and> g_map s e = Some q"
  then show "g_map t e = Some q" by (auto intro: get_step_map_mono)
qed

theorem concurrent_Get_progress_witness:
  "\<exists>t. get_step sample_extern 0 (at_pc g_init 0 (Missed ''true'')) t \<and> pc_measure (g_pc t 0) < 2"
  using concurrent_Get_progress [of "at_pc g_init 0 (Missed ''true'')" 0 sample_extern]
  by auto

end
