(* ===== verification/AP_Approver.thy ===== *)
theory AP_Approver
  imports AP_CacheConc
begin

text \<open>
  The approver interface (\<^verbatim>\<open>pkg/approver\<close>) and the registry that holds the approvers a build is
  made of (\<^verbatim>\<open>pkg/registry\<close>). An approver evaluates requests, validates policies at admission and
  reports whether a policy is ready. All approvers of a process share the state \<open>'s\<close>; for the
  approvers of this repository that is the validator cache.
\<close>

section \<open>Responses\<close>

type_synonym EvaluationResult = bool

abbreviation (input) ResultDenied :: EvaluationResult where
  "ResultDenied \<equiv> False"

abbreviation (input) ResultNotDenied :: EvaluationResult where
  "ResultNotDenied \<equiv> True"

record EvaluationResponse =
  er_Result :: EvaluationResult
  er_Message :: string

record WebhookValidationResponse =
  wv_Allowed :: bool
  wv_Errors :: "field_error list"
  wv_Warnings :: "string list"

record ReconcilerReadyResponse =
  rr_Ready :: bool
  rr_Errors :: "field_error list"
  rr_Requeue :: bool
  rr_RequeueAfter :: int

section \<open>From field errors to a response\<close>

text \<open>\<^verbatim>\<open>el.ToAggregate().Error()\<close>: a method call on a nil aggregate would panic.\<close>

definition aggregate_message ::
  "('u, 'e, 'a, 'p) extern \<Rightarrow> field_error list \<Rightarrow> string outcome" where
  "aggregate_message x el =
     (case x_ToAggregate x el of
        None \<Rightarrow> Panics ''nil pointer dereference''
      | Some es \<Rightarrow> Returns (x_AggregateText x es))"

definition denied_or_not ::
  "('u, 'e, 'a, 'p) extern \<Rightarrow> field_error list \<Rightarrow> (goerr + EvaluationResponse) outcome" where
  "denied_or_not x el =
     (if length el > 0 then
        out_bind (aggregate_message x el)
          (\<lambda>msg. Returns (Inr \<lparr>er_Result = ResultDenied, er_Message = msg\<rparr>))
      else Returns (Inr \<lparr>er_Result = ResultNotDenied, er_Message = ''''\<rparr>))"

section \<open>Approvers\<close>

text \<open>\<open>a_EnqueueChan\<close> is the channel the approver asks re-syncs on, \<open>None\<close> for nil.\<close>

record 's approver =
  a_Name :: string
  a_Prepare :: "('s, goerr option) go"
  a_Evaluate :: "CertificateRequestPolicy \<Rightarrow> CertificateRequest \<Rightarrow> ('s, goerr + EvaluationResponse) go"
  a_Validate :: "CertificateRequestPolicy \<Rightarrow> ('s, goerr + WebhookValidationResponse) go"
  a_Ready :: "CertificateRequestPolicy \<Rightarrow> ('s, goerr + ReconcilerReadyResponse) go"
  a_EnqueueChan :: "nat option"

section \<open>The registry\<close>

type_synonym 's registry = "'s approver list"

text \<open>\<^verbatim>\<open>Store\<close> compares every existing approver with every one to be stored and panics on equal
  names; the new ones are not compared with each other.\<close>

primrec clash_with :: "'s approver \<Rightarrow> 's approver list \<Rightarrow> string option" where
  "clash_with existing [] = None"
| "clash_with existing (toStore # approvers) =
     (if a_Name existing = a_Name toStore then Some (a_Name toStore)
      else clash_with existing approvers)"

primrec name_clash :: "'s registry \<Rightarrow> 's approver list \<Rightarrow> string option" where
  "name_clash [] approvers = None"
| "name_clash (existing # r) approvers =
     (case clash_with existing approvers of
        Some name \<Rightarrow> Some name | None \<Rightarrow> name_clash r approvers)"

definition Store :: "'s approver list \<Rightarrow> 's registry \<Rightarrow> 's registry outcome" where
  "Store approvers r =
     (case name_clash r approvers of
        Some name \<Rightarrow> Panics (''approver already registered with same name: '' @ name)
      | None \<Rightarrow> Returns (r @ approvers))"

definition Approvers :: "'s registry \<Rightarrow> 's approver list" where
  "Approvers r = r"

definition Evaluators ::
  "'s registry \<Rightarrow>
   (CertificateRequestPolicy \<Rightarrow> CertificateRequest \<Rightarrow> ('s, goerr + EvaluationResponse) go) list" where
  "Evaluators r = map a_Evaluate r"

definition Webhooks ::
  "'s registry \<Rightarrow> (CertificateRequestPolicy \<Rightarrow> ('s, goerr + WebhookValidationResponse) go) list" where
  "Webhooks r = map a_Validate r"

definition Reconcilers :: "'s registry \<Rightarrow> 's approver list" where
  "Reconcilers r = r"

definition registry_names :: "'s registry \<Rightarrow> string list" where
  "registry_names r = map a_Name r"

primrec Store_all :: "'s approver list \<Rightarrow> 's registry \<Rightarrow> 's registry outcome" where
  "Store_all [] r = Returns r"
| "Store_all (a # as) r = out_bind (Store [a] r) (Store_all as)"

section \<open>Facts\<close>

lemma clash_with_None: "clash_with e as = None \<longleftrightarrow> a_Name e \<notin> set (registry_names as)"
  by (induction as) (auto simp: registry_names_def)

lemma name_clash_None:
  "name_clash r as = None \<longleftrightarrow> set (registry_names r) \<inter> set (registry_names as) = {}"
proof (induction r)
  case (Cons e r)
  then show ?case
    using clash_with_None [of e as] by (auto simp: registry_names_def split: option.splits)
qed (simp add: registry_names_def)

lemma Store_Returns:
  "Store as r = Returns r' \<longleftrightarrow>
     set (registry_names r) \<inter> set (registry_names as) = {} \<and> r' = r @ as"
  by (auto simp: Store_def name_clash_None [symmetric] split: option.splits)

lemma registry_names_append [simp]:
  "registry_names (r @ as) = registry_names r @ registry_names as"
  by (simp add: registry_names_def)

text \<open>C32: storing approvers one call at a time, as the \<^verbatim>\<open>init\<close> functions do, succeeds exactly
  when all names are different, and then the registry holds the approvers in the order they were
  stored, with unique names; otherwise it panics.\<close>

theorem Store_all_unique:
  "Store_all as [] = Returns r \<longleftrightarrow> distinct (registry_names as) \<and> r = as"
proof -
  have "Store_all as r0 = Returns r \<longleftrightarrow>
        distinct (registry_names as) \<and>
        set (registry_names r0) \<inter> set (registry_names as) = {} \<and> r = r0 @ as"
    if "distinct (registry_names r0)" for r0
    using that
  proof (induction as arbitrary: r0)
    case Nil
    then show ?case by (auto simp: registry_names_def)
  next
    case (Cons a as)
    show ?case
    proof (cases "a_Name a \<in> set (registry_names r0)")
      case True
      then show ?thesis by (auto simp: Store_Returns registry_names_def)
    next
      case False
      then have "Store [a] r0 = Returns (r0 @ [a])"
        by (simp add: Store_Returns registry_names_def)
      moreover have "distinct (registry_names (r0 @ [a]))"
        using Cons.prems False by (simp add: registry_names_def)
      ultimately show ?thesis
        using Cons.IH [of "r0 @ [a]"] False by (auto simp: registry_names_def)
    qed
  qed
  from this [of "[]"] show ?thesis by (simp add: registry_names_def)
qed

text \<open>The check is incomplete for one call with several approvers: \<^verbatim>\<open>Store\<close> accepts any
  list of approvers whose names are new, also when a name occurs twice in it.\<close>

theorem Store_misses_duplicates:
  "Store [a, a] [] = Returns [a, a] \<and> \<not> distinct (registry_names [a, a])"
  by (simp add: Store_Returns registry_names_def)

section \<open>What an evaluator promises to its callers\<close>

text \<open>From every good state a call ends in the way \<open>verdict\<close> says, and leaves a good state: the
  shared state does not show in the answers.\<close>

locale evaluator_contract =
  fixes evaluate :: "'i \<Rightarrow> ('s, 'a) go"
    and good :: "'s \<Rightarrow> bool"
    and verdict :: "'i \<Rightarrow> 'a outcome"
  assumes ends: "go_ends good (evaluate i) (verdict i)"
begin

lemma answers:
  assumes "good s" and "evaluate i s = Returns (v, s')"
  shows "verdict i = Returns v" and "good s'"
  using go_ends_deterministic [OF ends assms] by blast+

lemma repeatable:
  assumes "good s" and "evaluate i s = Returns (v, s')" and "good t"
  shows "\<exists>t'. evaluate i t = Returns (v, t') \<and> good t'"
  using answers [OF assms(1,2)] ends [of i] assms(3) by (auto simp: go_ends_def)

end

end
