(* ===== verification/AP_Allowed.thy ===== *)
theory AP_Allowed
  imports AP_Approver
begin

text \<open>
  The \<^verbatim>\<open>allowed\<close> approver (\<^verbatim>\<open>pkg/internal/approver/allowed\<close>): a request may only ask for what the
  policy allows. \<^verbatim>\<open>Evaluate\<close> runs fifteen checks, one per attribute, and collects field errors;
  \<^verbatim>\<open>Validate\<close> checks the \<^verbatim>\<open>spec.allowed\<close> stanza of a policy at admission. The declarative reading
  of a stanza is \<open>allowed_permits\<close>; the theorems say that \<^verbatim>\<open>Evaluate\<close> decides it.
\<close>

section \<open>Checking one attribute\<close>

text \<open>\<^verbatim>\<open>runValidations\<close>: one error per rule that does not compile, fails to run or rejects.\<close>

primrec runValidations_from ::
  "('u, 'e, 'a, 'p) extern \<Rightarrow> CertificateRequest \<Rightarrow> nat \<Rightarrow> ValidationRule list \<Rightarrow> string \<Rightarrow>
   path \<Rightarrow> ('p cache, field_error list) go" where
  "runValidations_from x request i [] s fldPath = go_ret []"
| "runValidations_from x request i (v # vs) s fldPath =
     go_bind (\<lambda>m. Returns (Get x (Rule v) m)) (\<lambda>(validator, err).
       go_bind
         (case err of
            Some e \<Rightarrow> go_ret [FInternalError (Index fldPath i) e]
          | None \<Rightarrow>
              (case validator of
                 None \<Rightarrow> (\<lambda>m. Panics ''nil pointer dereference'')
               | Some w \<Rightarrow>
                   (case Validate x w s request of
                      Panics p \<Rightarrow> (\<lambda>m. Panics p)
                    | Returns (Inl e) \<Rightarrow> go_ret [FInternalError (Index fldPath i) e]
                    | Returns (Inr valid) \<Rightarrow>
                        go_ret (if \<not> valid then
                          [FInvalid (Index fldPath i) (VString s)
                             (case Message v of Some msg \<Rightarrow> msg
                              | None \<Rightarrow> ''failed rule: '' @ Rule v)]
                         else []))))
         (\<lambda>el. go_map (\<lambda>rest. el @ rest) (runValidations_from x request (Suc i) vs s fldPath)))"

definition runValidations ::
  "('u, 'e, 'a, 'p) extern \<Rightarrow> CertificateRequest \<Rightarrow> ValidationRule list \<Rightarrow> string \<Rightarrow> path \<Rightarrow>
   ('p cache, field_error list) go" where
  "runValidations x request validations s fldPath =
     runValidations_from x request 0 validations s fldPath"

definition evaluateString ::
  "('u, 'e, 'a, 'p) extern \<Rightarrow> CertificateRequest \<Rightarrow> string \<Rightarrow> AllowedString option \<Rightarrow> path \<Rightarrow>
   ('p cache, field_error list) go" where
  "evaluateString x request s crp fldPath =
     (if length s = 0 then
        go_ret (case crp of
            Some c \<Rightarrow> if s_Required c = Some True
              then [FRequired (Child fldPath ''required'') (FormatBool True)] else []
          | None \<Rightarrow> [])
      else case crp of
        None \<Rightarrow> go_ret [FInvalid fldPath (VString s) ''no allowed value'']
      | Some c \<Rightarrow>
          if s_Value c = None \<and> length (s_Validations c) = 0
          then go_ret [FInvalid fldPath (VString s) ''no allowed value'']
          else
            (let el = (case s_Value c of
                 Some value \<Rightarrow> if \<not> WildcardMatches value s
                   then [FInvalid (Child fldPath ''value'') (VString s) value] else []
               | None \<Rightarrow> [])
             in if length (s_Validations c) > 0 then
                  go_map (\<lambda>es. el @ es)
                    (runValidations x request (s_Validations c) s (Child fldPath ''validations''))
                else go_ret el))"

definition evaluateSlice ::
  "('u, 'e, 'a, 'p) extern \<Rightarrow> CertificateRequest \<Rightarrow> string list \<Rightarrow> AllowedStringSlice option \<Rightarrow>
   path \<Rightarrow> ('p cache, field_error list) go" where
  "evaluateSlice x request s crp fldPath =
     (if length s = 0 then
        go_ret (case crp of
            Some c \<Rightarrow> if ss_Required c = Some True
              then [FRequired (Child fldPath ''required'') (FormatBool True)] else []
          | None \<Rightarrow> [])
      else case crp of
        None \<Rightarrow> go_ret [FInvalid fldPath (VStrings s) ''no allowed values'']
      | Some c \<Rightarrow>
          if ss_Values c = None \<and> length (ss_Validations c) = 0
          then go_ret [FInvalid fldPath (VStrings s) ''no allowed values'']
          else
            (let el = (case ss_Values c of
                 Some vals \<Rightarrow> if \<not> WildcardSubset vals s
                   then [FInvalid (Child fldPath ''values'') (VStrings s) (Join vals '', '')] else []
               | None \<Rightarrow> [])
             in if length (ss_Validations c) > 0 then
                  go_map (\<lambda>es. el @ es)
                    (go_concat (map (\<lambda>v. runValidations x request (ss_Validations c) v
                                           (Child fldPath ''validations'')) s))
                else go_ret el))"

definition evaluateBool :: "bool \<Rightarrow> bool option \<Rightarrow> path \<Rightarrow> ('p cache, field_error list) go" where
  "evaluateBool b crp fldPath =
     go_ret (if b then
               (case crp of
                  None \<Rightarrow> [FInvalid fldPath (VBool b) ''nil'']
                | Some c \<Rightarrow> if \<not> c then [FInvalid fldPath (VBool b) (FormatBool c)] else [])
             else [])"

section \<open>The evaluators of the attributes\<close>

record 'u evaluator =
  ev_request :: CertificateRequest
  ev_csr :: "'u CSR"
  ev_allowed :: PolicyAllowed
  ev_fldPath :: path

record subjectEvaluator =
  sub_request :: CertificateRequest
  sub_sub :: PkixName
  sub_allowed :: AllowedX509Subject
  sub_fldPath :: path

definition eval_CommonName ::
  "('u, 'e, 'a, 'p) extern \<Rightarrow> 'u evaluator \<Rightarrow> ('p cache, field_error list) go" where
  "eval_CommonName x e = evaluateString x (ev_request e) (n_CommonName (csr_Subject (ev_csr e)))
     (CommonName (ev_allowed e)) (Child (ev_fldPath e) ''commonName'')"

definition eval_DNSNames ::
  "('u, 'e, 'a, 'p) extern \<Rightarrow> 'u evaluator \<Rightarrow> ('p cache, field_error list) go" where
  "eval_DNSNames x e = evaluateSlice x (ev_request e) (csr_DNSNames (ev_csr e))
     (DNSNames (ev_allowed e)) (Child (ev_fldPath e) ''dnsNames'')"

definition eval_IPAddresses ::
  "('u, 'e, 'a, 'p) extern \<Rightarrow> 'u evaluator \<Rightarrow> ('p cache, field_error list) go" where
  "eval_IPAddresses x e = evaluateSlice x (ev_request e) (map IP_String (csr_IPAddresses (ev_csr e)))
     (IPAddresses (ev_allowed e)) (Child (ev_fldPath e) ''ipAddresses'')"

definition eval_URIs ::
  "('u, 'e, 'a, 'p) extern \<Rightarrow> 'u evaluator \<Rightarrow> ('p cache, field_error list) go" where
  "eval_URIs x e = evaluateSlice x (ev_request e) (map (x_URL_String x) (csr_URIs (ev_csr e)))
     (URIs (ev_allowed e)) (Child (ev_fldPath e) ''uris'')"

definition eval_EmailAddresses ::
  "('u, 'e, 'a, 'p) extern \<Rightarrow> 'u evaluator \<Rightarrow> ('p cache, field_error list) go" where
  "eval_EmailAddresses x e = evaluateSlice x (ev_request e) (csr_EmailAddresses (ev_csr e))
     (EmailAddresses (ev_allowed e)) (Child (ev_fldPath e) ''emailAddresses'')"

definition eval_IsCA :: "'u evaluator \<Rightarrow> ('p cache, field_error list) go" where
  "eval_IsCA e = evaluateBool (cr_IsCA (ev_request e)) (IsCA (ev_allowed e))
     (Child (ev_fldPath e) ''isCA'')"

definition eval_Usages :: "'u evaluator \<Rightarrow> ('p cache, field_error list) go" where
  "eval_Usages e =
     go_ret
       (if length (cr_Usages (ev_request e)) > 0 then
          (case Usages (ev_allowed e) of
             None \<Rightarrow> [FInvalid (Child (ev_fldPath e) ''usages'')
                        (VStrings (cr_Usages (ev_request e))) ''nil'']
           | Some policyUsages \<Rightarrow>
               if \<not> WildcardSubset policyUsages (cr_Usages (ev_request e)) then
                 [FInvalid (Child (ev_fldPath e) ''usages'')
                    (VStrings (cr_Usages (ev_request e))) (Join policyUsages '', '')]
               else [])
        else [])"

definition eval_Subject :: "'u evaluator \<Rightarrow> subjectEvaluator" where
  "eval_Subject e =
     \<lparr>sub_request = ev_request e, sub_sub = csr_Subject (ev_csr e),
      sub_allowed = (case Subject (ev_allowed e) of None \<Rightarrow> empty_subject | Some a \<Rightarrow> a),
      sub_fldPath = Child (ev_fldPath e) ''subject''\<rparr>"

definition sub_slice ::
  "('u, 'e, 'a, 'p) extern \<Rightarrow> subjectEvaluator \<Rightarrow> (PkixName \<Rightarrow> string list) \<Rightarrow>
   (AllowedX509Subject \<Rightarrow> AllowedStringSlice option) \<Rightarrow> string \<Rightarrow> ('p cache, field_error list) go" where
  "sub_slice x e attr crp name = evaluateSlice x (sub_request e) (attr (sub_sub e))
     (crp (sub_allowed e)) (Child (sub_fldPath e) name)"

definition eval_Organization ::
  "('u, 'e, 'a, 'p) extern \<Rightarrow> subjectEvaluator \<Rightarrow> ('p cache, field_error list) go" where
  "eval_Organization x e = sub_slice x e n_Organization Organizations ''organizations''"

definition eval_Country ::
  "('u, 'e, 'a, 'p) extern \<Rightarrow> subjectEvaluator \<Rightarrow> ('p cache, field_error list) go" where
  "eval_Country x e = sub_slice x e n_Country Countries ''countries''"

definition eval_OrganizationalUnit ::
  "('u, 'e, 'a, 'p) extern \<Rightarrow> subjectEvaluator \<Rightarrow> ('p cache, field_error list) go" where
  "eval_OrganizationalUnit x e =
     sub_slice x e n_OrganizationalUnit OrganizationalUnits ''organizationalUnits''"

definition eval_Locality ::
  "('u, 'e, 'a, 'p) extern \<Rightarrow> subjectEvaluator \<Rightarrow> ('p cache, field_error list) go" where
  "eval_Locality x e = sub_slice x e n_Locality Localities ''localities''"

definition eval_Province ::
  "('u, 'e, 'a, 'p) extern \<Rightarrow> subjectEvaluator \<Rightarrow> ('p cache, field_error list) go" where
  "eval_Province x e = sub_slice x e n_Province Provinces ''provinces''"

definition eval_StreetAddress ::
  "('u, 'e, 'a, 'p) extern \<Rightarrow> subjectEvaluator \<Rightarrow> ('p cache, field_error list) go" where
  "eval_StreetAddress x e = sub_slice x e n_StreetAddress StreetAddresses ''streetAddresses''"

definition eval_PostalCode ::
  "('u, 'e, 'a, 'p) extern \<Rightarrow> subjectEvaluator \<Rightarrow> ('p cache, field_error list) go" where
  "eval_PostalCode x e = sub_slice x e n_PostalCode PostalCodes ''postalCodes''"

definition eval_SerialNumber ::
  "('u, 'e, 'a, 'p) extern \<Rightarrow> subjectEvaluator \<Rightarrow> ('p cache, field_error list) go" where
  "eval_SerialNumber x e = evaluateString x (sub_request e) (n_SerialNumber (sub_sub e))
     (SerialNumber (sub_allowed e)) (Child (sub_fldPath e) ''serialNumber'')"

section \<open>Evaluate\<close>

definition evaluateFns ::
  "('u, 'e, 'a, 'p) extern \<Rightarrow> 'u evaluator \<Rightarrow> ('p cache, field_error list) go list" where
  "evaluateFns x evaluate =
     (let evaluateSubject = eval_Subject evaluate in
      [eval_CommonName x evaluate, eval_DNSNames x evaluate, eval_IPAddresses x evaluate,
       eval_URIs x evaluate, eval_EmailAddresses x evaluate, eval_IsCA evaluate,
       eval_Usages evaluate, eval_Organization x evaluateSubject, eval_Country x evaluateSubject,
       eval_OrganizationalUnit x evaluateSubject, eval_Locality x evaluateSubject,
       eval_Province x evaluateSubject, eval_StreetAddress x evaluateSubject,
       eval_PostalCode x evaluateSubject, eval_SerialNumber x evaluateSubject])"

definition policy_allowed :: "CertificateRequestPolicy \<Rightarrow> PolicyAllowed" where
  "policy_allowed policy =
     (case Allowed (p_Spec policy) of None \<Rightarrow> empty_allowed | Some a \<Rightarrow> a)"

definition allowed_Evaluate ::
  "('u, 'e, 'a, 'p) extern \<Rightarrow> CertificateRequestPolicy \<Rightarrow> CertificateRequest \<Rightarrow>
   ('p cache, goerr + EvaluationResponse) go" where
  "allowed_Evaluate x policy request =
     (case x_DecodeCSR x (cr_Request request) of
        Inl err \<Rightarrow> go_ret (Inl err)
      | Inr csr \<Rightarrow>
          go_bind
            (go_concat (evaluateFns x
               \<lparr>ev_request = request, ev_csr = csr, ev_allowed = policy_allowed policy,
                ev_fldPath = NewPath [''spec'', ''allowed'']\<rparr>))
            (\<lambda>el. go_lift (denied_or_not x el)))"

section \<open>Validate\<close>

text \<open>The checks on one \<^verbatim>\<open>validations\<close> list: every rule must compile.\<close>

primrec validateRules_from ::
  "('u, 'e, 'a, 'p) extern \<Rightarrow> path \<Rightarrow> nat \<Rightarrow> ValidationRule list \<Rightarrow>
   ('p cache, field_error list) go" where
  "validateRules_from x fldPath i [] = go_ret []"
| "validateRules_from x fldPath i (validation # validations) =
     go_bind (\<lambda>m. Returns (Get x (Rule validation) m)) (\<lambda>(_, err).
       go_map (\<lambda>rest. (case err of
            Some e \<Rightarrow> [FInvalid (Index (Child fldPath ''validations'') i) (VString (Rule validation))
                       (errText e)]
          | None \<Rightarrow> []) @ rest)
         (validateRules_from x fldPath (Suc i) validations))"

definition validateSlice ::
  "('u, 'e, 'a, 'p) extern \<Rightarrow> path \<times> AllowedStringSlice option \<Rightarrow>
   ('p cache, field_error list) go" where
  "validateSlice x pair =
     (case pair of
        (fldPath, None) \<Rightarrow> go_ret []
      | (fldPath, Some slice) \<Rightarrow>
          go_map (\<lambda>rest.
             (if ss_Required slice = Some True \<and> ss_Values slice = None \<and>
                 length (ss_Validations slice) = 0
              then [FRequired (Child fldPath ''values'')
                      (''at least one of '' @ squote ''values'' @ '' or '' @ squote ''validations'' @
                       '' must be defined if field is '' @ squote ''required'')]
              else []) @ rest)
            (validateRules_from x fldPath 0 (ss_Validations slice)))"

definition validateString ::
  "('u, 'e, 'a, 'p) extern \<Rightarrow> path \<times> AllowedString option \<Rightarrow>
   ('p cache, field_error list) go" where
  "validateString x pair =
     (case pair of
        (fldPath, None) \<Rightarrow> go_ret []
      | (fldPath, Some str) \<Rightarrow>
          go_map (\<lambda>rest.
             (if s_Required str = Some True \<and> s_Value str = None \<and>
                 length (s_Validations str) = 0
              then [FRequired (Child fldPath ''value'')
                      (''at least one of '' @ squote ''value'' @ '' or '' @ squote ''validations'' @
                       '' must be defined if field is '' @ squote ''required'')]
              else []) @ rest)
            (validateRules_from x fldPath 0 (s_Validations str)))"

text \<open>The \<^verbatim>\<open>stringSlices\<close> and \<^verbatim>\<open>strings\<close> that \<^verbatim>\<open>Validate\<close> collects from the stanza.\<close>

definition slicePairs :: "path \<Rightarrow> PolicyAllowed \<Rightarrow> (path \<times> AllowedStringSlice option) list" where
  "slicePairs fldPath allowed =
     [(Child fldPath ''dnsNames'', DNSNames allowed),
      (Child fldPath ''ipAddresses'', IPAddresses allowed),
      (Child fldPath ''uris'', URIs allowed),
      (Child fldPath ''emailAddresses'', EmailAddresses allowed)] @
     (case Subject allowed of
        None \<Rightarrow> []
      | Some allowedSub \<Rightarrow>
          (let fldPathSub = Child fldPath ''subject'' in
           [(Child fldPathSub ''organizations'', Organizations allowedSub),
            (Child fldPathSub ''countries'', Countries allowedSub),
            (Child fldPathSub ''organizationalUnits'', OrganizationalUnits allowedSub),
            (Child fldPathSub ''localities'', Localities allowedSub),
            (Child fldPathSub ''provinces'', Provinces allowedSub),
            (Child fldPathSub ''streetAddresses'', StreetAddresses allowedSub),
            (Child fldPathSub ''postalCodes'', PostalCodes allowedSub)]))"

definition stringPairs :: "path \<Rightarrow> PolicyAllowed \<Rightarrow> (path \<times> AllowedString option) list" where
  "stringPairs fldPath allowed =
     [(Child fldPath ''commonName'', CommonName allowed)] @
     (case Subject allowed of
        None \<Rightarrow> []
      | Some allowedSub \<Rightarrow>
          [(Child (Child fldPath ''subject'') ''serialNumber'', SerialNumber allowedSub)])"

definition allowed_Validate ::
  "('u, 'e, 'a, 'p) extern \<Rightarrow> CertificateRequestPolicy \<Rightarrow>
   ('p cache, goerr + WebhookValidationResponse) go" where
  "allowed_Validate x policy =
     (case Allowed (p_Spec policy) of
        None \<Rightarrow> go_ret (Inr \<lparr>wv_Allowed = True, wv_Errors = [], wv_Warnings = []\<rparr>)
      | Some allowed \<Rightarrow>
          (let fldPath = NewPath [''spec'', ''allowed''] in
           go_map (\<lambda>el. Inr \<lparr>wv_Allowed = (length el = 0), wv_Errors = el, wv_Warnings = []\<rparr>)
             (go_concat (map (validateSlice x) (slicePairs fldPath allowed) @
                         map (validateString x) (stringPairs fldPath allowed)))))"

section \<open>The approver\<close>

definition allowed_Approver :: "('u, 'e, 'a, 'p) extern \<Rightarrow> 'p cache approver" where
  "allowed_Approver x =
     \<lparr>a_Name = ''allowed'',
      a_Prepare = go_ret None,
      a_Evaluate = allowed_Evaluate x,
      a_Validate = allowed_Validate x,
      a_Ready = (\<lambda>_. go_ret (Inr \<lparr>rr_Ready = True, rr_Errors = [], rr_Requeue = False,
                                  rr_RequeueAfter = 0\<rparr>)),
      a_EnqueueChan = None\<rparr>"

section \<open>What a stanza permits\<close>

definition rule_holds ::
  "('u, 'e, 'a, 'p) extern \<Rightarrow> CertificateRequest \<Rightarrow> string \<Rightarrow> ValidationRule \<Rightarrow> bool" where
  "rule_holds x request s r \<longleftrightarrow>
     (\<exists>v. ce_validator (new_entry x (Rule r)) = Some v \<and>
          Validate x v s request = Returns (Inr True))"

definition string_permits ::
  "('u, 'e, 'a, 'p) extern \<Rightarrow> CertificateRequest \<Rightarrow> string \<Rightarrow> AllowedString option \<Rightarrow> bool" where
  "string_permits x request s crp \<longleftrightarrow>
     (if s = '''' then \<not> (\<exists>c. crp = Some c \<and> s_Required c = Some True)
      else (\<exists>c. crp = Some c \<and> (s_Value c \<noteq> None \<or> s_Validations c \<noteq> []) \<and>
              (\<forall>p. s_Value c = Some p \<longrightarrow> wild_expands (runes p) (runes s)) \<and>
              (\<forall>r \<in> set (s_Validations c). rule_holds x request s r)))"

definition slice_permits ::
  "('u, 'e, 'a, 'p) extern \<Rightarrow> CertificateRequest \<Rightarrow> string list \<Rightarrow> AllowedStringSlice option \<Rightarrow>
   bool" where
  "slice_permits x request vs crp \<longleftrightarrow>
     (if vs = [] then \<not> (\<exists>c. crp = Some c \<and> ss_Required c = Some True)
      else (\<exists>c. crp = Some c \<and> (ss_Values c \<noteq> None \<or> ss_Validations c \<noteq> []) \<and>
              (\<forall>ps. ss_Values c = Some ps \<longrightarrow>
                 (\<forall>s \<in> set vs. \<exists>p \<in> set ps. wild_expands (runes p) (runes s))) \<and>
              (\<forall>r \<in> set (ss_Validations c). \<forall>s \<in> set vs. rule_holds x request s r)))"

definition usages_permit :: "string list \<Rightarrow> string list option \<Rightarrow> bool" where
  "usages_permit us crp \<longleftrightarrow>
     us = [] \<or> (\<exists>ps. crp = Some ps \<and>
                  (\<forall>u \<in> set us. \<exists>p \<in> set ps. wild_expands (runes p) (runes u)))"

definition subject_permits ::
  "('u, 'e, 'a, 'p) extern \<Rightarrow> CertificateRequest \<Rightarrow> PkixName \<Rightarrow> AllowedX509Subject \<Rightarrow> bool" where
  "subject_permits x request n a \<longleftrightarrow>
     slice_permits x request (n_Organization n) (Organizations a) \<and>
     slice_permits x request (n_Country n) (Countries a) \<and>
     slice_permits x request (n_OrganizationalUnit n) (OrganizationalUnits a) \<and>
     slice_permits x request (n_Locality n) (Localities a) \<and>
     slice_permits x request (n_Province n) (Provinces a) \<and>
     slice_permits x request (n_StreetAddress n) (StreetAddresses a) \<and>
     slice_permits x request (n_PostalCode n) (PostalCodes a) \<and>
     string_permits x request (n_SerialNumber n) (SerialNumber a)"

text \<open>\<open>allowed_permits x request csr a\<close>: nothing is requested beyond what \<open>a\<close> allows, and
  everything it requires is there.\<close>

definition allowed_permits ::
  "('u, 'e, 'a, 'p) extern \<Rightarrow> CertificateRequest \<Rightarrow> 'u CSR \<Rightarrow> PolicyAllowed \<Rightarrow> bool" where
  "allowed_permits x request csr a \<longleftrightarrow>
     string_permits x request (n_CommonName (csr_Subject csr)) (CommonName a) \<and>
     slice_permits x request (csr_DNSNames csr) (DNSNames a) \<and>
     slice_permits x request (map IP_String (csr_IPAddresses csr)) (IPAddresses a) \<and>
     slice_permits x request (map (x_URL_String x) (csr_URIs csr)) (URIs a) \<and>
     slice_permits x request (csr_EmailAddresses csr) (EmailAddresses a) \<and>
     (cr_IsCA request \<longrightarrow> IsCA a = Some True) \<and>
     usages_permit (cr_Usages request) (Usages a) \<and>
     subject_permits x request (csr_Subject csr)
       (case Subject a of None \<Rightarrow> empty_subject | Some s \<Rightarrow> s)"

section \<open>The checks decide it\<close>

lemma Get_checks:
  assumes "go_checks S (cache_ok x) (f (ce_validator (new_entry x e), ce_err (new_entry x e))) P"
  shows "go_checks S (cache_ok x) (go_bind (\<lambda>m. Returns (Get x e m)) f) P"
proof -
  let ?a = "(ce_validator (new_entry x e), ce_err (new_entry x e))"
  have get: "go_ends (cache_ok x) (\<lambda>m. Returns (Get x e m)) (Returns ?a)"
    unfolding go_ends_def using vc.get_eq [of x] by fastforce
  from assms obtain r where "go_ends (cache_ok x) (f ?a) r" "S \<longrightarrow> (\<exists>el. r = Returns el)"
    "\<forall>el. r = Returns el \<longrightarrow> (el = []) = P"
    unfolding go_checks_def by blast
  moreover have "go_ends (cache_ok x) (go_bind (\<lambda>m. Returns (Get x e m)) f)
                   (out_bind (Returns ?a) (\<lambda>_. r))"
    using get \<open>go_ends (cache_ok x) (f ?a) r\<close> by (intro go_ends_bind) auto
  ultimately show ?thesis unfolding go_checks_def by auto
qed

lemma runValidations_from_checks:
  "go_checks (cel_type_sound x) (cache_ok x) (runValidations_from x request i vs s fldPath)
     (\<forall>r \<in> set vs. rule_holds x request s r)"
proof (induction vs arbitrary: i)
  case Nil
  show ?case by (simp add: go_checks_ret)
next
  case (Cons v vs)
  have one: "go_checks (cel_type_sound x) (cache_ok x)
     (case ce_err (new_entry x (Rule v)) of
            Some e \<Rightarrow> go_ret [FInternalError (Index fldPath i) e]
          | None \<Rightarrow>
              (case ce_validator (new_entry x (Rule v)) of
                 None \<Rightarrow> (\<lambda>m. Panics ''nil pointer dereference'')
               | Some w \<Rightarrow>
                   (case Validate x w s request of
                      Panics p \<Rightarrow> (\<lambda>m. Panics p)
                    | Returns (Inl e) \<Rightarrow> go_ret [FInternalError (Index fldPath i) e]
                    | Returns (Inr valid) \<Rightarrow>
                        go_ret (if \<not> valid then
                          [FInvalid (Index fldPath i) (VString s)
                             (case Message v of Some msg \<Rightarrow> msg
                              | None \<Rightarrow> ''failed rule: '' @ Rule v)]
                         else [])))) (rule_holds x request s v)"
    using new_entry_one_of [of x "Rule v"] Validate_no_panic [of x "Rule v" _ s request]
    by (auto simp: rule_holds_def intro!: go_checks_ret go_checks_panic
        split: option.splits outcome.splits sum.splits)
  show ?case
    using go_checks_seq [OF one Cons.IH [of "Suc i"]]
    by (auto intro: Get_checks simp: case_prod_beta)
qed

lemma runValidations_checks:
  "go_checks (cel_type_sound x) (cache_ok x) (runValidations x request vs s fldPath)
     (\<forall>r \<in> set vs. rule_holds x request s r)"
  unfolding runValidations_def by (rule runValidations_from_checks)

lemma evaluateString_checks:
  "go_checks (cel_type_sound x) (cache_ok x) (evaluateString x request s crp fldPath)
     (string_permits x request s crp)"
  unfolding evaluateString_def string_permits_def Let_def
  by (auto intro!: go_checks_ret go_checks_prefix [OF runValidations_checks]
      simp: WildcardMatches_iff split: option.splits)

lemma evaluateSlice_checks:
  "go_checks (cel_type_sound x) (cache_ok x) (evaluateSlice x request vs crp fldPath)
     (slice_permits x request vs crp)"
  unfolding evaluateSlice_def slice_permits_def Let_def
  by (auto intro!: go_checks_ret
        go_checks_prefix [OF go_checks_concat_map [OF runValidations_checks]]
      simp: WildcardMatches_iff WildcardSubset_iff split: option.splits)

lemma eval_IsCA_checks:
  "go_checks S (cache_ok x) (eval_IsCA e)
     (cr_IsCA (ev_request e) \<longrightarrow> IsCA (ev_allowed e) = Some True)"
  unfolding eval_IsCA_def evaluateBool_def
  by (auto intro!: go_checks_ret split: option.splits)

lemma eval_Usages_checks:
  "go_checks S (cache_ok x) (eval_Usages e)
     (usages_permit (cr_Usages (ev_request e)) (Usages (ev_allowed e)))"
  unfolding eval_Usages_def usages_permit_def
  by (auto intro!: go_checks_ret simp: WildcardMatches_iff WildcardSubset_iff
      split: option.splits)

lemmas eval_defs =
  eval_CommonName_def eval_DNSNames_def eval_IPAddresses_def eval_URIs_def
  eval_EmailAddresses_def sub_slice_def eval_Organization_def eval_Country_def
  eval_OrganizationalUnit_def eval_Locality_def eval_Province_def eval_StreetAddress_def
  eval_PostalCode_def eval_SerialNumber_def

lemma evaluateFns_checks:
  "go_checks (cel_type_sound x) (cache_ok x) (go_concat (evaluateFns x e))
     (allowed_permits x (ev_request e) (ev_csr e) (ev_allowed e))"
proof -
  let ?s = "eval_Subject e"
  let ?str = "string_permits x (ev_request e)" and ?sl = "slice_permits x (ev_request e)"
  let ?n = "csr_Subject (ev_csr e)" and ?a = "ev_allowed e" and ?sa = "sub_allowed ?s"
  let ?Ps = "[?str (n_CommonName ?n) (CommonName ?a), ?sl (csr_DNSNames (ev_csr e)) (DNSNames ?a),
     ?sl (map IP_String (csr_IPAddresses (ev_csr e))) (IPAddresses ?a),
     ?sl (map (x_URL_String x) (csr_URIs (ev_csr e))) (URIs ?a),
     ?sl (csr_EmailAddresses (ev_csr e)) (EmailAddresses ?a),
     cr_IsCA (ev_request e) \<longrightarrow> IsCA ?a = Some True,
     usages_permit (cr_Usages (ev_request e)) (Usages ?a),
     ?sl (n_Organization ?n) (Organizations ?sa), ?sl (n_Country ?n) (Countries ?sa),
     ?sl (n_OrganizationalUnit ?n) (OrganizationalUnits ?sa), ?sl (n_Locality ?n) (Localities ?sa),
     ?sl (n_Province ?n) (Provinces ?sa), ?sl (n_StreetAddress ?n) (StreetAddresses ?sa),
     ?sl (n_PostalCode ?n) (PostalCodes ?sa), ?str (n_SerialNumber ?n) (SerialNumber ?sa)]"
  have sub: "sub_request ?s = ev_request e" "sub_sub ?s = ?n"
    by (simp_all add: eval_Subject_def)
  have "list_all2 (go_checks (cel_type_sound x) (cache_ok x)) (evaluateFns x e) ?Ps"
    unfolding evaluateFns_def Let_def eval_defs sub
    by (simp add: evaluateString_checks evaluateSlice_checks eval_IsCA_checks eval_Usages_checks)
  from go_checks_concat [OF this] show ?thesis
    by (simp add: allowed_permits_def subject_permits_def eval_Subject_def)
qed

text \<open>What \<^verbatim>\<open>Evaluate\<close> answers, read off the empty cache.\<close>

definition allowed_verdict ::
  "('u, 'e, 'a, 'p) extern \<Rightarrow> CertificateRequestPolicy \<times> CertificateRequest \<Rightarrow>
   (goerr + EvaluationResponse) outcome" where
  "allowed_verdict x i = go_answer NewCache (allowed_Evaluate x (fst i) (snd i))"

lemma allowed_Evaluate_ends_some: "\<exists>r. go_ends (cache_ok x) (allowed_Evaluate x policy request) r"
proof (cases "x_DecodeCSR x (cr_Request request)")
  case (Inl e)
  then show ?thesis
    unfolding allowed_Evaluate_def by (auto intro: go_ends_ret)
next
  case (Inr csr)
  let ?e = "\<lparr>ev_request = request, ev_csr = csr, ev_allowed = policy_allowed policy,
             ev_fldPath = NewPath [''spec'', ''allowed'']\<rparr>"
  obtain r where "go_ends (cache_ok x) (go_concat (evaluateFns x ?e)) r"
    using evaluateFns_checks [of x ?e] unfolding go_checks_def by blast
  then have "go_ends (cache_ok x) (allowed_Evaluate x policy request)
               (out_bind r (denied_or_not x))"
    unfolding allowed_Evaluate_def Inr sum.case by (intro go_ends_bind go_ends_lift)
  then show ?thesis by blast
qed

lemma allowed_Evaluate_ends:
  "go_ends (cache_ok x) (allowed_Evaluate x policy request) (allowed_verdict x (policy, request))"
proof -
  obtain r where r: "go_ends (cache_ok x) (allowed_Evaluate x policy request) r"
    using allowed_Evaluate_ends_some by blast
  then have "allowed_verdict x (policy, request) = r"
    using go_ends_answer [OF r, of NewCache] cache_ok_empty [of x]
    by (simp add: allowed_verdict_def)
  with r show ?thesis by simp
qed

interpretation allowed_ev: evaluator_contract
  "\<lambda>(policy, request). allowed_Evaluate x policy request" "cache_ok x" "allowed_verdict x"
  for x
  by unfold_locales (auto intro: allowed_Evaluate_ends)

lemma denied_or_not_result:
  "ToAggregate_doc x \<Longrightarrow> \<exists>resp. denied_or_not x el = Returns (Inr resp) \<and>
     (er_Result resp = ResultNotDenied \<longleftrightarrow> el = [])"
  by (auto simp: denied_or_not_def aggregate_message_def ToAggregate_doc_def split: option.splits)

lemma allowed_Evaluate_result:
  assumes "cel_type_sound x" and "ToAggregate_doc x" and "cache_ok x c"
    and "x_DecodeCSR x (cr_Request request) = Inr csr"
  shows "\<exists>resp c'. allowed_Evaluate x policy request c = Returns (Inr resp, c') \<and> cache_ok x c' \<and>
     (er_Result resp = ResultNotDenied \<longleftrightarrow>
        allowed_permits x request csr (policy_allowed policy))"
proof -
  let ?e = "\<lparr>ev_request = request, ev_csr = csr, ev_allowed = policy_allowed policy,
             ev_fldPath = NewPath [''spec'', ''allowed'']\<rparr>"
  obtain el where el: "go_ends (cache_ok x) (go_concat (evaluateFns x ?e)) (Returns el)"
    "el = [] \<longleftrightarrow> allowed_permits x request csr (policy_allowed policy)"
    using evaluateFns_checks [of x ?e] assms(1) unfolding go_checks_def by auto
  obtain resp where resp: "denied_or_not x el = Returns (Inr resp)"
    "er_Result resp = ResultNotDenied \<longleftrightarrow> el = []"
    using denied_or_not_result [OF assms(2)] by blast
  have "go_ends (cache_ok x) (allowed_Evaluate x policy request)
          (out_bind (Returns el) (denied_or_not x))"
    unfolding allowed_Evaluate_def assms(4) sum.case
    using el(1) by (intro go_ends_bind go_ends_lift)
  with resp(1) have "go_ends (cache_ok x) (allowed_Evaluate x policy request) (Returns (Inr resp))"
    by simp
  with assms(3) obtain c' where "allowed_Evaluate x policy request c = Returns (Inr resp, c')"
    and "cache_ok x c'" by (auto simp: go_ends_def)
  with el(2) resp(2) show ?thesis by blast
qed

section \<open>Properties\<close>

text \<open>C4: the \<^verbatim>\<open>allowed\<close> evaluator decides the policy's stanza. On a request whose bytes decode it
  returns a response (no panic, no error), and the response is "not denied" exactly if the
  request asks for nothing the stanza does not permit. The content of the validator cache does
  not matter.\<close>

theorem allowed_Evaluate_decides:
  assumes "cel_type_sound x" and "ToAggregate_doc x" and "cache_ok x c"
    and "x_DecodeCSR x (cr_Request request) = Inr csr"
  shows "\<exists>resp c'. allowed_Evaluate x policy request c = Returns (Inr resp, c') \<and> cache_ok x c' \<and>
     (er_Result resp = ResultNotDenied \<longleftrightarrow>
        allowed_permits x request csr (policy_allowed policy))"
  using allowed_Evaluate_result [OF assms] .

definition sample_allowed :: PolicyAllowed where
  "sample_allowed = empty_allowed
     \<lparr>CommonName := Some \<lparr>s_Value = Some ''www.example.com'', s_Required = Some True,
                        s_Validations = []\<rparr>,
      DNSNames := Some \<lparr>ss_Values = None, ss_Required = None,
                      ss_Validations = [\<lparr>Rule = ''true'', Message = None\<rparr>]\<rparr>,
      Usages := Some [''server auth''],
      Subject := Some (empty_subject
        \<lparr>Organizations := Some \<lparr>ss_Values = Some [''acme''], ss_Required = None,
                              ss_Validations = []\<rparr>\<rparr>)\<rparr>"

definition sample_policy :: CertificateRequestPolicy where
  "sample_policy = \<lparr>p_Name = ''web'', p_UID = ''1'', p_Generation = 1,
     p_Spec = \<lparr>Allowed = Some sample_allowed, Constraints = None, Plugins = [],
               Selector = \<lparr>sel_IssuerRef = Some \<lparr>sel_Name = Some ''ca'', sel_Kind = None,
                                                 sel_Group = None\<rparr>,
                          sel_Namespace = None\<rparr>\<rparr>,
     p_Status = \<lparr>p_Conditions = [\<lparr>pc_Type = ConditionReady, pc_Status = ConditionTrue,
        pc_LastTransitionTime = Some 0, pc_Reason = ''Ready'', pc_Message = '''',
        pc_ObservedGeneration = 1\<rparr>]\<rparr>\<rparr>"

lemma wild_expands_refl: "wild_expands p p"
proof (induction p)
  case (Cons a p)
  then show ?case
    unfolding wild_expands_Cons by (intro exI [of _ "[a]"] exI [of _ p]) simp
qed simp

lemma sample_rule_holds:
  "rule_holds sample_extern request s \<lparr>Rule = ''true'', Message = None\<rparr>"
  by (simp add: rule_holds_def new_entry_def compile_def Validate_def sample_extern_def)

lemma sample_permits: "allowed_permits sample_extern sample_request sample_csr sample_allowed"
  by (simp add: allowed_permits_def string_permits_def slice_permits_def usages_permit_def
      subject_permits_def sample_request_def sample_csr_def sample_name_def sample_allowed_def
      empty_allowed_def empty_subject_def wild_expands_refl sample_rule_holds)

lemma sample_decodes: "x_DecodeCSR sample_extern (cr_Request sample_request) = Inr sample_csr"
  by (simp add: sample_extern_def sample_request_def)

lemma sample_policy_allowed: "policy_allowed sample_policy = sample_allowed"
  by (simp add: policy_allowed_def sample_policy_def)

lemma sample_evaluates:
  "\<exists>answer c. allowed_Evaluate sample_extern sample_policy sample_request NewCache =
                Returns (answer, c)"
proof -
  obtain el where "go_ends (cache_ok sample_extern) (go_concat (evaluateFns sample_extern
      \<lparr>ev_request = sample_request, ev_csr = sample_csr, ev_allowed = sample_allowed,
       ev_fldPath = NewPath [''spec'', ''allowed'']\<rparr>)) (Returns el)" (is "go_ends _ ?m _")
    using evaluateFns_checks [of sample_extern "\<lparr>ev_request = sample_request, ev_csr = sample_csr,
        ev_allowed = sample_allowed, ev_fldPath = NewPath [''spec'', ''allowed'']\<rparr>"]
      sample_extern_doc(3) unfolding go_checks_def by auto
  then obtain c where "?m NewCache = Returns (el, c)"
    using cache_ok_empty by (auto simp: go_ends_def)
  moreover obtain resp where "denied_or_not sample_extern el = Returns (Inr resp)"
    using denied_or_not_result [OF sample_extern_doc(1)] by blast
  ultimately show ?thesis
    by (simp add: allowed_Evaluate_def sample_decodes sample_policy_allowed go_bind_def go_lift_def)
qed

theorem allowed_Evaluate_decides_witness:
  "\<exists>resp c. allowed_Evaluate sample_extern sample_policy sample_request NewCache =
             Returns (Inr resp, c) \<and> er_Result resp = ResultNotDenied"
  using allowed_Evaluate_decides
      [OF sample_extern_doc(3,1) cache_ok_empty sample_decodes, of sample_policy]
    sample_permits by (auto simp: sample_policy_allowed)

text \<open>Evaluation does not depend on what other requests left in the cache: from any two
  reachable caches the same request gets the same answer.\<close>

theorem allowed_Evaluate_cache_independent:
  assumes "allowed_Evaluate x policy request (cache_after x asked) = Returns (answer, c)"
  shows "\<exists>c'. allowed_Evaluate x policy request (cache_after x asked') = Returns (answer, c') \<and>
              cache_ok x c'"
proof -
  have ok: "cache_ok x (cache_after x es)" for es
    unfolding cache_after_def by (rule vc.ok_after_gets [OF vc.ok_empty])
  show ?thesis
    using allowed_ev.repeatable [where i = "(policy, request)", OF ok _ ok] assms by simp
qed

theorem allowed_Evaluate_cache_independent_witness:
  "\<exists>answer c c'. allowed_Evaluate sample_extern sample_policy sample_request
                    (cache_after sample_extern []) = Returns (answer, c) \<and>
     allowed_Evaluate sample_extern sample_policy sample_request
                    (cache_after sample_extern [''true'', ''false'']) = Returns (answer, c')"
proof -
  obtain answer c where a: "allowed_Evaluate sample_extern sample_policy sample_request
      (cache_after sample_extern []) = Returns (answer, c)"
    using sample_evaluates by (auto simp: cache_after_def)
  from a allowed_Evaluate_cache_independent [OF a, of "[''true'', ''false'']"] show ?thesis
    by blast
qed

section \<open>Admission of the stanza\<close>

definition rule_compiles :: "('u, 'e, 'a, 'p) extern \<Rightarrow> ValidationRule \<Rightarrow> bool" where
  "rule_compiles x r \<longleftrightarrow> ce_err (new_entry x (Rule r)) = None"

text \<open>A stanza is well formed if every rule compiles and no attribute is required without saying
  which values are allowed.\<close>

definition slice_valid :: "('u, 'e, 'a, 'p) extern \<Rightarrow> AllowedStringSlice option \<Rightarrow> bool" where
  "slice_valid x crp \<longleftrightarrow> (\<forall>c. crp = Some c \<longrightarrow>
     (\<forall>r \<in> set (ss_Validations c). rule_compiles x r) \<and>
     (ss_Required c = Some True \<longrightarrow> ss_Values c \<noteq> None \<or> ss_Validations c \<noteq> []))"

definition string_valid :: "('u, 'e, 'a, 'p) extern \<Rightarrow> AllowedString option \<Rightarrow> bool" where
  "string_valid x crp \<longleftrightarrow> (\<forall>c. crp = Some c \<longrightarrow>
     (\<forall>r \<in> set (s_Validations c). rule_compiles x r) \<and>
     (s_Required c = Some True \<longrightarrow> s_Value c \<noteq> None \<or> s_Validations c \<noteq> []))"

definition allowed_valid :: "('u, 'e, 'a, 'p) extern \<Rightarrow> PolicyAllowed \<Rightarrow> bool" where
  "allowed_valid x a \<longleftrightarrow>
     string_valid x (CommonName a) \<and> slice_valid x (DNSNames a) \<and> slice_valid x (IPAddresses a) \<and>
     slice_valid x (URIs a) \<and> slice_valid x (EmailAddresses a) \<and>
     (\<forall>sub. Subject a = Some sub \<longrightarrow>
        slice_valid x (Organizations sub) \<and> slice_valid x (Countries sub) \<and>
        slice_valid x (OrganizationalUnits sub) \<and> slice_valid x (Localities sub) \<and>
        slice_valid x (Provinces sub) \<and> slice_valid x (StreetAddresses sub) \<and>
        slice_valid x (PostalCodes sub) \<and> string_valid x (SerialNumber sub))"

lemma validateRules_checks:
  "go_checks True (cache_ok x) (validateRules_from x fldPath i rs) (\<forall>r \<in> set rs. rule_compiles x r)"
proof (induction rs arbitrary: i)
  case Nil
  show ?case by (simp add: go_checks_ret)
next
  case (Cons r rs)
  show ?case
    unfolding validateRules_from.simps
    by (rule Get_checks)
      (auto intro!: go_checks_prefix [OF Cons.IH] simp: rule_compiles_def split: option.splits)
qed

lemma validateSlice_checks: "go_checks True (cache_ok x) (validateSlice x (p, s)) (slice_valid x s)"
proof (cases s)
  case None
  then show ?thesis by (simp add: validateSlice_def slice_valid_def go_checks_ret)
next
  case (Some c)
  show ?thesis
    unfolding validateSlice_def Some prod.case option.case
    by (rule go_checks_prefix [OF validateRules_checks]) (auto simp: slice_valid_def)
qed

lemma validateString_checks: "go_checks True (cache_ok x) (validateString x (p, s)) (string_valid x s)"
proof (cases s)
  case None
  then show ?thesis by (simp add: validateString_def string_valid_def go_checks_ret)
next
  case (Some c)
  show ?thesis
    unfolding validateString_def Some prod.case option.case
    by (rule go_checks_prefix [OF validateRules_checks]) (auto simp: string_valid_def)
qed

lemma validate_all_checks:
  "go_checks True (cache_ok x)
     (go_concat (map (validateSlice x) (slicePairs p a) @ map (validateString x) (stringPairs p a)))
     (allowed_valid x a)"
proof -
  let ?Ps = "map (\<lambda>q. slice_valid x (snd q)) (slicePairs p a) @
             map (\<lambda>q. string_valid x (snd q)) (stringPairs p a)"
  have all: "list_all2 (go_checks True (cache_ok x))
          (map (validateSlice x) (slicePairs p a) @ map (validateString x) (stringPairs p a)) ?Ps"
    using validateSlice_checks [of x] validateString_checks [of x]
    by (intro list_all2_appendI) (auto simp: list_all2_map1 list_all2_map2 intro!: list_all2_refl)
  have valid: "allowed_valid x a = (\<forall>P \<in> set ?Ps. P)"
    by (auto simp: allowed_valid_def slicePairs_def stringPairs_def Let_def split: option.splits)
  show ?thesis unfolding valid by (rule go_checks_concat [OF all])
qed

lemma allowed_Validate_result:
  assumes "cache_ok x c"
  shows "\<exists>resp c'. allowed_Validate x policy c = Returns (Inr resp, c') \<and> cache_ok x c' \<and>
     (wv_Allowed resp \<longleftrightarrow> (\<forall>a. Allowed (p_Spec policy) = Some a \<longrightarrow> allowed_valid x a)) \<and>
     (wv_Allowed resp \<longleftrightarrow> wv_Errors resp = []) \<and> wv_Warnings resp = []"
proof (cases "Allowed (p_Spec policy)")
  case None
  with assms show ?thesis by (simp add: allowed_Validate_def go_ret_def)
next
  case (Some a)
  let ?p = "NewPath [''spec'', ''allowed'']"
  from go_checks_run [of "cache_ok x" _ _ c, OF validate_all_checks [of x ?p a] assms] obtain el c'
    where "go_concat (map (validateSlice x) (slicePairs ?p a) @
        map (validateString x) (stringPairs ?p a)) c = Returns (el, c')"
      "cache_ok x c'" "el = [] \<longleftrightarrow> allowed_valid x a" by blast
  with Some show ?thesis
    by (simp add: allowed_Validate_def Let_def go_map_def go_bind_def go_ret_def)
qed

text \<open>C22: admission of the \<^verbatim>\<open>allowed\<close> stanza. \<^verbatim>\<open>Validate\<close> always returns a response; it allows the
  policy exactly if there is no stanza or the stanza is well formed; and errors are listed
  exactly if it does not allow it.\<close>

theorem allowed_Validate_decides:
  assumes "cache_ok x c"
  shows "\<exists>resp c'. allowed_Validate x policy c = Returns (Inr resp, c') \<and> cache_ok x c' \<and>
     (wv_Allowed resp \<longleftrightarrow> (\<forall>a. Allowed (p_Spec policy) = Some a \<longrightarrow> allowed_valid x a)) \<and>
     (wv_Allowed resp \<longleftrightarrow> wv_Errors resp = [])"
  using allowed_Validate_result [OF assms] by blast

theorem allowed_Validate_decides_witness:
  "\<exists>resp c. allowed_Validate sample_extern sample_policy NewCache = Returns (Inr resp, c) \<and>
            wv_Allowed resp"
proof -
  have "allowed_valid sample_extern sample_allowed"
    by (simp add: allowed_valid_def string_valid_def slice_valid_def rule_compiles_def
        new_entry_def compile_def sample_extern_def sample_allowed_def empty_allowed_def
        empty_subject_def)
  then show ?thesis
    using allowed_Validate_decides [OF cache_ok_empty, of sample_extern sample_policy]
    by (auto simp: sample_policy_def)
qed

end
