(* ===== verification/AP_Constraints.thy ===== *)
theory AP_Constraints
  imports AP_Allowed
begin

text \<open>
  The \<^verbatim>\<open>constraints\<close> approver (\<^verbatim>\<open>pkg/internal/approver/constraints\<close>): bounds on the requested
  duration and on the algorithm and size of the key. \<open>constraints_permit\<close> is the declarative
  reading of a stanza, \<open>constraints_valid\<close> what admission requires of it.
\<close>

section \<open>Evaluate\<close>

abbreviation RSAKeyAlgorithm :: string where
  "RSAKeyAlgorithm \<equiv> ''RSA''"

abbreviation ECDSAKeyAlgorithm :: string where
  "ECDSAKeyAlgorithm \<equiv> ''ECDSA''"

abbreviation Ed25519KeyAlgorithm :: string where
  "Ed25519KeyAlgorithm \<equiv> ''Ed25519''"

text \<open>The \<^verbatim>\<open>%T\<close> verb on a public key.\<close>

fun type_text :: "PublicKey \<Rightarrow> string" where
  "type_text (RSAPublicKeyPtr _) = ''*rsa.PublicKey''"
| "type_text (ECDSAPublicKeyPtr _) = ''*ecdsa.PublicKey''"
| "type_text (Ed25519PublicKeyPtr _) = ''*ed25519.PublicKey''"
| "type_text (Ed25519PublicKeyVal _) = ''ed25519.PublicKey''"
| "type_text (OtherPublicKey t) = t"

definition decodePublicKey :: "PublicKey \<Rightarrow> goerr + string \<times> int" where
  "decodePublicKey pub =
     (case pub of
        RSAPublicKeyPtr n \<Rightarrow> Inr (RSAKeyAlgorithm, BitLen n)
      | ECDSAPublicKeyPtr curve \<Rightarrow> Inr (ECDSAKeyAlgorithm, BitSize curve)
      | Ed25519PublicKeyPtr _ \<Rightarrow> Inr (Ed25519KeyAlgorithm, -1)
      | _ \<Rightarrow> Inl (ErrNew (''unrecognised public key type '' @ type_text pub)))"

text \<open>The errors of the two duration bounds.\<close>

definition duration_errors ::
  "('u, 'e, 'a, 'p) extern \<Rightarrow> PolicyConstraints \<Rightarrow> CertificateRequest \<Rightarrow> path \<Rightarrow>
   field_error list" where
  "duration_errors x consts request fldPath =
     (case MaxDuration consts of
        None \<Rightarrow> []
      | Some maxd \<Rightarrow>
          (case cr_Duration request of
             None \<Rightarrow> [FInvalid (Child fldPath ''maxDuration'') (VString (x_nil_Duration x))
                        (Duration_String maxd)]
           | Some d \<Rightarrow>
               if maxd < d then
                 [FInvalid (Child fldPath ''maxDuration'') (VString (Duration_String d))
                    (Duration_String maxd)]
               else [])) @
     (case MinDuration consts of
        None \<Rightarrow> []
      | Some mind \<Rightarrow>
          (case cr_Duration request of
             None \<Rightarrow> [FInvalid (Child fldPath ''minDuration'') (VString (x_nil_Duration x))
                        (Duration_String mind)]
           | Some d \<Rightarrow>
               if mind > d then
                 [FInvalid (Child fldPath ''minDuration'') (VString (Duration_String d))
                    (Duration_String mind)]
               else []))"

text \<open>The errors of the private key stanza, for a key of the given algorithm and size.\<close>

definition key_errors ::
  "ConstraintsPrivateKey \<Rightarrow> string \<Rightarrow> int \<Rightarrow> path \<Rightarrow> field_error list" where
  "key_errors pk alg sz fldPath =
     (case Algorithm pk of
        Some a \<Rightarrow> if a \<noteq> alg then [FInvalid (Child fldPath ''algorithm'') (VString alg) a] else []
      | None \<Rightarrow> []) @
     (case MaxSize pk of
        Some n \<Rightarrow> if n < sz
          then [FInvalid (Child fldPath ''maxSize'') (VString (Itoa sz)) (Itoa n)] else []
      | None \<Rightarrow> []) @
     (case MinSize pk of
        Some n \<Rightarrow> if n > sz
          then [FInvalid (Child fldPath ''minSize'') (VString (Itoa sz)) (Itoa n)] else []
      | None \<Rightarrow> [])"

definition constraints_Evaluate ::
  "('u, 'e, 'a, 'p) extern \<Rightarrow> CertificateRequestPolicy \<Rightarrow> CertificateRequest \<Rightarrow>
   ('s, goerr + EvaluationResponse) go" where
  "constraints_Evaluate x policy request =
     (case Constraints (p_Spec policy) of
        None \<Rightarrow> go_ret (Inr \<lparr>er_Result = ResultNotDenied, er_Message = ''''\<rparr>)
      | Some consts \<Rightarrow>
          (let fldPath = NewPath [''spec'', ''constraints''];
               el = duration_errors x consts request fldPath
           in case PrivateKey consts of
                None \<Rightarrow> go_lift (denied_or_not x el)
              | Some pk \<Rightarrow>
                  (case x_DecodeCSR x (cr_Request request) of
                     Inl err \<Rightarrow> go_ret (Inl err)
                   | Inr csr \<Rightarrow>
                       (case decodePublicKey (csr_PublicKey csr) of
                          Inl err \<Rightarrow> go_ret (Inl err)
                        | Inr (alg, sz) \<Rightarrow>
                            go_lift (denied_or_not x
                              (el @ key_errors pk alg sz (Child fldPath ''privateKey'')))))))"

section \<open>Validate\<close>

definition size_errors :: "string \<Rightarrow> int option \<Rightarrow> path \<Rightarrow> field_error list" where
  "size_errors name sz fldPath =
     (case sz of
        Some n \<Rightarrow> if n < 0 \<or> n > 8192
          then [FInvalid (Child fldPath name) (VInt n) ''must be between 0 and 8192 inclusive'']
          else []
      | None \<Rightarrow> [])"

definition no_size_errors :: "string \<Rightarrow> int option \<Rightarrow> path \<Rightarrow> field_error list" where
  "no_size_errors name sz fldPath =
     (case sz of
        Some n \<Rightarrow> [FInvalid (Child fldPath name) (VInt n)
                    (name @ '' cannot be defined with algorithm constraint '' @ Ed25519KeyAlgorithm)]
      | None \<Rightarrow> [])"

definition privateKey_errors :: "ConstraintsPrivateKey \<Rightarrow> path \<Rightarrow> field_error list" where
  "privateKey_errors pk fldPath =
     (case Algorithm pk of
        None \<Rightarrow> []
      | Some alg \<Rightarrow>
          (if alg \<in> set [RSAKeyAlgorithm, ECDSAKeyAlgorithm, Ed25519KeyAlgorithm] then []
           else [FNotSupported (Child fldPath ''algorithm'') alg
                   [RSAKeyAlgorithm, ECDSAKeyAlgorithm, Ed25519KeyAlgorithm]]) @
          (if alg = Ed25519KeyAlgorithm
           then no_size_errors ''maxSize'' (MaxSize pk) fldPath @
                no_size_errors ''minSize'' (MinSize pk) fldPath
           else [])) @
     size_errors ''maxSize'' (MaxSize pk) fldPath @
     size_errors ''minSize'' (MinSize pk) fldPath @
     (case (MaxSize pk, MinSize pk) of
        (Some maxSize, Some minSize) \<Rightarrow>
          if maxSize < minSize then
            [FInvalid (Child fldPath ''maxSize'') (VInt maxSize)
               ''maxSize must be the same value as minSize or larger'']
          else []
      | _ \<Rightarrow> [])"

definition durations_errors :: "PolicyConstraints \<Rightarrow> path \<Rightarrow> field_error list" where
  "durations_errors consts fldPath =
     (case (MaxDuration consts, MinDuration consts) of
        (Some maxd, Some mind) \<Rightarrow>
          if maxd < mind then
            [FInvalid (Child fldPath ''maxDuration'') (VString (Duration_String maxd))
               ''maxDuration must be the same value as minDuration or larger'']
          else []
      | _ \<Rightarrow> []) @
     (case MaxDuration consts of
        Some maxd \<Rightarrow> if maxd < 0 then
            [FInvalid (Child fldPath ''maxDuration'') (VString (Duration_String maxd))
               ''maxDuration must be a value greater or equal to 0'']
          else []
      | None \<Rightarrow> []) @
     (case MinDuration consts of
        Some mind \<Rightarrow> if mind < 0 then
            [FInvalid (Child fldPath ''minDuration'') (VString (Duration_String mind))
               ''minDuration must be a value greater or equal to 0'']
          else []
      | None \<Rightarrow> [])"

definition constraints_Validate ::
  "CertificateRequestPolicy \<Rightarrow> ('s, goerr + WebhookValidationResponse) go" where
  "constraints_Validate policy =
     (case Constraints (p_Spec policy) of
        None \<Rightarrow> go_ret (Inr \<lparr>wv_Allowed = True, wv_Errors = [], wv_Warnings = []\<rparr>)
      | Some consts \<Rightarrow>
          (let fldPath = NewPath [''spec'', ''constraints''];
               el = (case PrivateKey consts of
                       Some pk \<Rightarrow> privateKey_errors pk (Child fldPath ''privateKey'')
                     | None \<Rightarrow> []) @ durations_errors consts fldPath
           in go_ret (Inr \<lparr>wv_Allowed = (length el = 0), wv_Errors = el, wv_Warnings = []\<rparr>)))"

section \<open>The approver\<close>

definition constraints_Approver :: "('u, 'e, 'a, 'p) extern \<Rightarrow> 's approver" where
  "constraints_Approver x =
     \<lparr>a_Name = ''constraints'',
      a_Prepare = go_ret None,
      a_Evaluate = constraints_Evaluate x,
      a_Validate = constraints_Validate,
      a_Ready = (\<lambda>_. go_ret (Inr \<lparr>rr_Ready = True, rr_Errors = [], rr_Requeue = False,
                                  rr_RequeueAfter = 0\<rparr>)),
      a_EnqueueChan = None\<rparr>"

section \<open>What a stanza permits\<close>

definition durations_permit :: "PolicyConstraints \<Rightarrow> CertificateRequest \<Rightarrow> bool" where
  "durations_permit c request \<longleftrightarrow>
     (\<forall>m. MaxDuration c = Some m \<longrightarrow> (\<exists>d. cr_Duration request = Some d \<and> d \<le> m)) \<and>
     (\<forall>m. MinDuration c = Some m \<longrightarrow> (\<exists>d. cr_Duration request = Some d \<and> m \<le> d))"

definition key_permits :: "ConstraintsPrivateKey \<Rightarrow> PublicKey \<Rightarrow> bool" where
  "key_permits pk key \<longleftrightarrow>
     (\<exists>alg n. decodePublicKey key = Inr (alg, n) \<and>
        (\<forall>a. Algorithm pk = Some a \<longrightarrow> a = alg) \<and>
        (\<forall>m. MaxSize pk = Some m \<longrightarrow> n \<le> m) \<and> (\<forall>m. MinSize pk = Some m \<longrightarrow> m \<le> n))"

definition constraints_permit ::
  "PolicyConstraints option \<Rightarrow> CertificateRequest \<Rightarrow> PublicKey \<Rightarrow> bool" where
  "constraints_permit consts request key \<longleftrightarrow>
     (\<forall>c. consts = Some c \<longrightarrow>
        durations_permit c request \<and> (\<forall>pk. PrivateKey c = Some pk \<longrightarrow> key_permits pk key))"

definition key_constrained :: "CertificateRequestPolicy \<Rightarrow> bool" where
  "key_constrained policy \<longleftrightarrow>
     (\<exists>c. Constraints (p_Spec policy) = Some c \<and> PrivateKey c \<noteq> None)"

definition key_valid :: "ConstraintsPrivateKey \<Rightarrow> bool" where
  "key_valid pk \<longleftrightarrow>
     (\<forall>a. Algorithm pk = Some a \<longrightarrow>
        a \<in> {RSAKeyAlgorithm, ECDSAKeyAlgorithm, Ed25519KeyAlgorithm} \<and>
        (a = Ed25519KeyAlgorithm \<longrightarrow> MaxSize pk = None \<and> MinSize pk = None)) \<and>
     (\<forall>n. MaxSize pk = Some n \<longrightarrow> 0 \<le> n \<and> n \<le> 8192) \<and>
     (\<forall>n. MinSize pk = Some n \<longrightarrow> 0 \<le> n \<and> n \<le> 8192) \<and>
     (\<forall>m n. MaxSize pk = Some m \<and> MinSize pk = Some n \<longrightarrow> n \<le> m)"

definition constraints_valid :: "PolicyConstraints option \<Rightarrow> bool" where
  "constraints_valid consts \<longleftrightarrow>
     (\<forall>c. consts = Some c \<longrightarrow>
        (\<forall>pk. PrivateKey c = Some pk \<longrightarrow> key_valid pk) \<and>
        (\<forall>m n. MaxDuration c = Some m \<and> MinDuration c = Some n \<longrightarrow> n \<le> m) \<and>
        (\<forall>m. MaxDuration c = Some m \<longrightarrow> 0 \<le> m) \<and> (\<forall>m. MinDuration c = Some m \<longrightarrow> 0 \<le> m))"

section \<open>The checks decide it\<close>

lemma duration_errors_Nil:
  "duration_errors x c request fldPath = [] \<longleftrightarrow> durations_permit c request"
  by (auto simp: duration_errors_def durations_permit_def split: option.splits)

lemma key_errors_Nil:
  "decodePublicKey key = Inr (alg, n) \<Longrightarrow> key_errors pk alg n fldPath = [] \<longleftrightarrow> key_permits pk key"
  by (auto simp: key_errors_def key_permits_def split: option.splits)

lemma privateKey_errors_Nil: "privateKey_errors pk fldPath = [] \<longleftrightarrow> key_valid pk"
  by (cases "Algorithm pk"; cases "MaxSize pk"; cases "MinSize pk")
    (auto simp: privateKey_errors_def key_valid_def size_errors_def no_size_errors_def)

lemma durations_errors_Nil:
  "durations_errors c fldPath = [] \<longleftrightarrow>
     (\<forall>m n. MaxDuration c = Some m \<and> MinDuration c = Some n \<longrightarrow> n \<le> m) \<and>
     (\<forall>m. MaxDuration c = Some m \<longrightarrow> 0 \<le> m) \<and> (\<forall>m. MinDuration c = Some m \<longrightarrow> 0 \<le> m)"
  by (cases "MaxDuration c"; cases "MinDuration c") (auto simp: durations_errors_def)

lemma go_lift_denied_or_not:
  "ToAggregate_doc x \<Longrightarrow> (el = [] \<longleftrightarrow> P) \<Longrightarrow>
   \<exists>resp. go_lift (denied_or_not x el) s = Returns (Inr resp, s) \<and>
          (er_Result resp = ResultNotDenied \<longleftrightarrow> P)"
  using denied_or_not_result [of x el] by (auto simp: go_lift_def)

lemma constraints_Evaluate_result:
  assumes "ToAggregate_doc x" and "x_DecodeCSR x (cr_Request request) = Inr csr"
    and "key_constrained policy \<Longrightarrow> decodePublicKey (csr_PublicKey csr) = Inr key"
  shows "\<exists>resp. constraints_Evaluate x policy request s = Returns (Inr resp, s) \<and>
     (er_Result resp = ResultNotDenied \<longleftrightarrow>
        constraints_permit (Constraints (p_Spec policy)) request (csr_PublicKey csr))"
proof (cases "Constraints (p_Spec policy)")
  case None
  then show ?thesis
    by (simp add: constraints_Evaluate_def constraints_permit_def go_ret_def)
next
  case (Some c)
  show ?thesis
  proof (cases "PrivateKey c")
    case None
    then show ?thesis
      unfolding constraints_Evaluate_def Some option.case Let_def None
      by (intro go_lift_denied_or_not [OF assms(1)])
        (simp add: duration_errors_Nil constraints_permit_def None)
  next
    case pk: (Some pk)
    obtain alg n where key: "decodePublicKey (csr_PublicKey csr) = Inr (alg, n)"
      using assms(3) Some pk by (cases key) (auto simp: key_constrained_def)
    show ?thesis
      unfolding constraints_Evaluate_def Some option.case Let_def pk assms(2) sum.case key prod.case
      by (intro go_lift_denied_or_not [OF assms(1)])
        (simp add: duration_errors_Nil key_errors_Nil [OF key] constraints_permit_def pk)
  qed
qed

text \<open>What \<^verbatim>\<open>Evaluate\<close> answers does not depend on the shared state at all.\<close>

definition constraints_verdict ::
  "('u, 'e, 'a, 'p) extern \<Rightarrow> CertificateRequestPolicy \<times> CertificateRequest \<Rightarrow>
   (goerr + EvaluationResponse) outcome" where
  "constraints_verdict x i = go_answer () (constraints_Evaluate x (fst i) (snd i))"

lemma constraints_Evaluate_ends:
  "go_ends I (constraints_Evaluate x policy request) (constraints_verdict x (policy, request))"
  by (auto simp: constraints_verdict_def constraints_Evaluate_def Let_def go_ends_def go_answer_def
      go_ret_def go_lift_def split: option.splits sum.splits outcome.splits)

interpretation constraints_ev: evaluator_contract
  "\<lambda>(policy, request). constraints_Evaluate x policy request" I "constraints_verdict x"
  for x I
  by unfold_locales (auto intro: constraints_Evaluate_ends)

section \<open>Properties\<close>

text \<open>C5: the \<^verbatim>\<open>constraints\<close> evaluator decides the policy's stanza. On a request whose bytes
  decode, with a key of a known type wherever the policy constrains the key, it returns a response
  (no panic, no error) which is "not denied" exactly if duration and key lie within the bounds,
  inclusive at both ends; a missing duration violates any duration bound.\<close>

theorem constraints_Evaluate_decides:
  assumes "ToAggregate_doc x" and "x_DecodeCSR x (cr_Request request) = Inr csr"
    and "key_constrained policy \<Longrightarrow> decodePublicKey (csr_PublicKey csr) = Inr key"
  shows "\<exists>resp. constraints_Evaluate x policy request s = Returns (Inr resp, s) \<and>
     (er_Result resp = ResultNotDenied \<longleftrightarrow>
        constraints_permit (Constraints (p_Spec policy)) request (csr_PublicKey csr))"
  by (rule constraints_Evaluate_result [OF assms])

definition sample_constraints :: PolicyConstraints where
  "sample_constraints = \<lparr>MinDuration = None, MaxDuration = Some 3600000000000,
     PrivateKey = Some \<lparr>Algorithm = Some ''ECDSA'', MinSize = Some 256, MaxSize = None\<rparr>\<rparr>"

definition constrained_policy :: CertificateRequestPolicy where
  "constrained_policy =
     sample_policy\<lparr>p_Spec := (p_Spec sample_policy)\<lparr>Constraints := Some sample_constraints\<rparr>\<rparr>"

lemma constrained_policy_Constraints:
  "Constraints (p_Spec constrained_policy) = Some sample_constraints"
  by (simp add: constrained_policy_def)

lemma constrained_policy_permits:
  "constraints_permit (Some sample_constraints) sample_request (csr_PublicKey sample_csr)"
  by (simp add: constraints_permit_def durations_permit_def key_permits_def sample_constraints_def
      sample_request_def sample_csr_def decodePublicKey_def)

theorem constraints_Evaluate_decides_witness:
  "\<exists>resp. constraints_Evaluate sample_extern constrained_policy sample_request () =
            Returns (Inr resp, ()) \<and> er_Result resp = ResultNotDenied"
proof -
  have "decodePublicKey (csr_PublicKey sample_csr) = Inr (''ECDSA'', 256)"
    by (simp add: sample_csr_def decodePublicKey_def)
  from constraints_Evaluate_decides [OF sample_extern_doc(1) sample_decodes this,
      of constrained_policy "()"]
  show ?thesis
    using constrained_policy_permits unfolding constrained_policy_Constraints by blast
qed

text \<open>C23: admission of the \<^verbatim>\<open>constraints\<close> stanza. \<^verbatim>\<open>Validate\<close> returns a response that allows the
  policy exactly if the algorithm is known, sizes lie in 0..8192 and are absent for Ed25519,
  durations are not negative, and no lower bound exceeds the upper one; errors are listed exactly
  if it does not allow it.\<close>

theorem constraints_Validate_decides:
  "\<exists>resp. constraints_Validate policy s = Returns (Inr resp, s) \<and>
     (wv_Allowed resp \<longleftrightarrow> constraints_valid (Constraints (p_Spec policy))) \<and>
     (wv_Allowed resp \<longleftrightarrow> wv_Errors resp = [])"
  by (auto simp: constraints_Validate_def go_ret_def Let_def constraints_valid_def
      privateKey_errors_Nil durations_errors_Nil split: option.splits)

subsection \<open>Which admitted stanzas can be met\<close>

text \<open>The key stanzas that some key meets: those for ECDSA need a curve of a size within the bounds,
  the others leave room for an RSA key unless the upper bound is zero; keys for Ed25519 are never
  recognised.\<close>

definition key_attainable :: "ConstraintsPrivateKey \<Rightarrow> bool" where
  "key_attainable pk \<longleftrightarrow>
     (case Algorithm pk of
        Some a \<Rightarrow>
          if a = ECDSAKeyAlgorithm
          then list_ex (\<lambda>n. (case MaxSize pk of Some m \<Rightarrow> n \<le> m | None \<Rightarrow> True) \<and>
                            (case MinSize pk of Some m \<Rightarrow> m \<le> n | None \<Rightarrow> True)) [224, 256, 384, 521]
          else a = RSAKeyAlgorithm \<and> MaxSize pk \<noteq> Some 0
      | None \<Rightarrow> MaxSize pk \<noteq> Some 0)"

lemma nat_bitlen_power: "nat_bitlen (2 ^ n) = Suc n"
proof (induction n)
  case 0
  show ?case by (simp add: nat_bitlen.simps)
next
  case (Suc n)
  have "nat_bitlen (2 * 2 ^ n) = Suc (nat_bitlen (2 ^ n))"
    by (subst nat_bitlen.simps) simp
  with Suc show ?case by simp
qed

lemma BitLen_onto:
  assumes "1 \<le> n"
  shows "\<exists>m > 0. BitLen m = n"
proof (intro exI conjI)
  show "(0 :: int) < 2 ^ (nat n - 1)" by simp
  show "BitLen (2 ^ (nat n - 1)) = n"
    using assms by (simp add: BitLen_def nat_power_eq nat_bitlen_power)
qed

lemma BitLen_positive: "0 < n \<Longrightarrow> 1 \<le> BitLen n"
  unfolding BitLen_def by (subst nat_bitlen.simps) simp

lemma BitSize_cases: "BitSize c \<in> set [224, 256, 384, 521]"
  by (cases c) simp_all

lemma BitSize_positive: "1 \<le> BitSize c"
  by (cases c) simp_all

lemma BitSize_onto: "n \<in> set [224, 256, 384, 521] \<Longrightarrow> \<exists>c. BitSize c = n"
  using BitSize.simps by (metis empty_iff empty_set set_ConsD)

lemma between_bounds:
  fixes lo hi :: "int option"
  assumes "\<And>m. hi = Some m \<Longrightarrow> b \<le> m" and "\<And>m n. hi = Some m \<Longrightarrow> lo = Some n \<Longrightarrow> n \<le> m"
  shows "\<exists>d \<ge> b. (\<forall>m. hi = Some m \<longrightarrow> d \<le> m) \<and> (\<forall>m. lo = Some m \<longrightarrow> m \<le> d)"
proof (intro exI conjI allI impI)
  let ?d = "case lo of Some n \<Rightarrow> max b n | None \<Rightarrow> b"
  show "b \<le> ?d" by (simp split: option.splits)
  show "?d \<le> m" if "hi = Some m" for m using that assms by (simp split: option.splits)
  show "m \<le> ?d" if "lo = Some m" for m using that by simp
qed

text \<open>The two key types that are recognised, one after the other.\<close>

lemma rsa_key_met:
  assumes "key_valid pk" and "Algorithm pk \<noteq> Some ECDSAKeyAlgorithm" and "Algorithm pk \<noteq> Some Ed25519KeyAlgorithm"
    and "MaxSize pk \<noteq> Some 0"
  shows "\<exists>n > 0. key_permits pk (RSAPublicKeyPtr n)"
proof -
  have "1 \<le> m" if "MaxSize pk = Some m" for m
    using that assms(1,4) by (cases "m = 0") (auto simp: key_valid_def)
  then obtain n where n: "1 \<le> n" "\<And>m. MaxSize pk = Some m \<Longrightarrow> n \<le> m" "\<And>m. MinSize pk = Some m \<Longrightarrow> m \<le> n"
    using between_bounds [of "MaxSize pk" 1 "MinSize pk"] assms(1) by (auto simp: key_valid_def)
  moreover obtain k where "0 < k" "BitLen k = n" using BitLen_onto [OF n(1)] by blast
  ultimately show ?thesis
    using assms(1-3) by (intro exI [of _ k]) (auto simp: key_permits_def decodePublicKey_def key_valid_def)
qed

lemma ecdsa_key_met:
  "(\<exists>c. key_permits pk (ECDSAPublicKeyPtr c)) \<longleftrightarrow>
     (Algorithm pk = None \<or> Algorithm pk = Some ECDSAKeyAlgorithm) \<and>
     (\<exists>n \<in> set [224, 256, 384, 521]. (\<forall>m. MaxSize pk = Some m \<longrightarrow> n \<le> m) \<and> (\<forall>m. MinSize pk = Some m \<longrightarrow> m \<le> n))"
  (is "?l \<longleftrightarrow> ?alg \<and> (\<exists>n \<in> ?sizes. ?fits n)")
proof
  assume ?l
  then obtain c where "?fits (BitSize c)" "?alg"
    by (cases "Algorithm pk") (auto simp: key_permits_def decodePublicKey_def)
  with BitSize_cases show "?alg \<and> (\<exists>n \<in> ?sizes. ?fits n)" by blast
next
  assume "?alg \<and> (\<exists>n \<in> ?sizes. ?fits n)"
  then obtain n c where "?alg" "?fits n" "BitSize c = n" using BitSize_onto by blast
  then show ?l by (intro exI [of _ c]) (auto simp: key_permits_def decodePublicKey_def)
qed

lemma key_attainable_ECDSA:
  "Algorithm pk = Some ECDSAKeyAlgorithm \<Longrightarrow>
   key_attainable pk \<longleftrightarrow> (\<exists>c. key_permits pk (ECDSAPublicKeyPtr c))"
  unfolding ecdsa_key_met by (simp add: key_attainable_def split: option.splits)

lemma permitted_key_type:
  assumes "key_permits pk key" and "x509_key key"
  shows "(\<exists>n > 0. key = RSAPublicKeyPtr n) \<or> (\<exists>c. key = ECDSAPublicKeyPtr c)"
  using assms by (cases key) (auto simp: key_permits_def decodePublicKey_def)

lemma key_attainable_iff:
  assumes "key_valid pk"
  shows "key_attainable pk \<longleftrightarrow> (\<exists>key. x509_key key \<and> key_permits pk key)"
proof (cases "Algorithm pk = Some ECDSAKeyAlgorithm")
  case True
  then have "\<not> key_permits pk (RSAPublicKeyPtr n)" for n by (simp add: key_permits_def decodePublicKey_def)
  with key_attainable_ECDSA [OF True] permitted_key_type [of pk] show ?thesis
    by (metis x509_key.simps(3))
next
  case ecdsa: False
  have "key_attainable pk \<longleftrightarrow> Algorithm pk \<noteq> Some Ed25519KeyAlgorithm \<and> MaxSize pk \<noteq> Some 0"
    using ecdsa assms by (auto simp: key_attainable_def key_valid_def split: option.splits)
  moreover have "\<exists>key. x509_key key \<and> key_permits pk key"
    if "Algorithm pk \<noteq> Some Ed25519KeyAlgorithm" "MaxSize pk \<noteq> Some 0"
    using rsa_key_met [OF assms ecdsa that] by (auto intro: exI [of _ "RSAPublicKeyPtr _"])
  moreover have "Algorithm pk \<noteq> Some Ed25519KeyAlgorithm \<and> MaxSize pk \<noteq> Some 0"
    if key: "x509_key key" "key_permits pk key" for key
  proof -
    obtain alg n where "decodePublicKey key = Inr (alg, n)" "1 \<le> n" "alg \<noteq> Ed25519KeyAlgorithm"
      using permitted_key_type [OF key(2,1)] BitLen_positive BitSize_positive
      by (auto simp: decodePublicKey_def)
    with key(2) show ?thesis by (auto simp: key_permits_def)
  qed
  ultimately show ?thesis by blast
qed

text \<open>C24: which admitted stanzas can be met. For a stanza that \<^verbatim>\<open>Validate\<close> allows there are a duration and
  a key that \<^verbatim>\<open>crypto/x509\<close> can decode which together meet it, exactly if the key stanza, where there
  is one, is attainable: it does not ask for Ed25519, its upper bound is not zero, and for ECDSA one
  of the curve sizes 224, 256, 384 and 521 lies within the bounds. Durations are never the obstacle.
  \<^verbatim>\<open>Validate\<close> does not check attainability: it allows stanzas that no request can meet.\<close>

theorem constraints_satisfiable:
  assumes "constraints_Validate policy s = Returns (Inr resp, s')" and "wv_Allowed resp"
    and "Constraints (p_Spec policy) = Some c"
  shows "(\<exists>d key. x509_key key \<and> constraints_permit (Some c) (request\<lparr>cr_Duration := Some d\<rparr>) key) \<longleftrightarrow>
         (case PrivateKey c of Some pk \<Rightarrow> key_attainable pk | None \<Rightarrow> True)"
proof -
  from assms have c: "\<And>pk. PrivateKey c = Some pk \<Longrightarrow> key_valid pk"
    "\<And>m n. MaxDuration c = Some m \<Longrightarrow> MinDuration c = Some n \<Longrightarrow> n \<le> m"
    "\<And>m. MaxDuration c = Some m \<Longrightarrow> 0 \<le> m"
    by (auto simp: constraints_Validate_def go_ret_def Let_def privateKey_errors_Nil
        durations_errors_Nil split: option.splits)
  obtain d where d: "durations_permit c (request\<lparr>cr_Duration := Some d\<rparr>)"
    using between_bounds [of "MaxDuration c" 0 "MinDuration c"] c(2,3)
    by (auto simp: durations_permit_def)
  show ?thesis
  proof (cases "PrivateKey c")
    case None
    with d show ?thesis
      by (auto simp: constraints_permit_def intro!: exI [of _ d] exI [of _ "ECDSAPublicKeyPtr P256"])
  next
    case (Some pk)
    with d key_attainable_iff [OF c(1) [OF Some]] show ?thesis
      by (auto simp: constraints_permit_def)
  qed
qed

definition unattainable_policy :: CertificateRequestPolicy where
  "unattainable_policy = sample_policy\<lparr>p_Spec := (p_Spec sample_policy)\<lparr>Constraints :=
     Some (sample_constraints\<lparr>PrivateKey :=
       Some \<lparr>Algorithm = Some ''ECDSA'', MinSize = Some 1000, MaxSize = None\<rparr>\<rparr>)\<rparr>\<rparr>"

theorem constraints_satisfiable_witness:
  "(\<exists>d key. x509_key key \<and> constraints_permit (Some sample_constraints) (sample_request\<lparr>cr_Duration := Some d\<rparr>) key) \<and>
   (\<exists>resp. constraints_Validate unattainable_policy () = Returns (Inr resp, ()) \<and> wv_Allowed resp \<and>
      (\<nexists>d key. x509_key key \<and>
         constraints_permit (Constraints (p_Spec unattainable_policy)) (sample_request\<lparr>cr_Duration := Some d\<rparr>) key))"
proof (intro conjI)
  obtain resp where v: "constraints_Validate constrained_policy () = Returns (Inr resp, ())"
    and a: "wv_Allowed resp"
    by (simp add: constraints_Validate_def constrained_policy_Constraints sample_constraints_def
        privateKey_errors_def durations_errors_def size_errors_def go_ret_def)
  show "\<exists>d key. x509_key key \<and> constraints_permit (Some sample_constraints) (sample_request\<lparr>cr_Duration := Some d\<rparr>) key"
    using constraints_satisfiable [OF v a constrained_policy_Constraints, of sample_request]
    by (simp add: sample_constraints_def key_attainable_def)
next
  obtain resp where v: "constraints_Validate unattainable_policy () = Returns (Inr resp, ())"
    and a: "wv_Allowed resp"
    by (simp add: constraints_Validate_def unattainable_policy_def sample_constraints_def
        privateKey_errors_def durations_errors_def size_errors_def go_ret_def)
  obtain c where c: "Constraints (p_Spec unattainable_policy) = Some c"
    "PrivateKey c = Some \<lparr>Algorithm = Some ''ECDSA'', MinSize = Some 1000, MaxSize = None\<rparr>"
    by (simp add: unattainable_policy_def)
  from constraints_satisfiable [OF v a c(1), of sample_request]
  have "\<nexists>d key. x509_key key \<and>
      constraints_permit (Constraints (p_Spec unattainable_policy)) (sample_request\<lparr>cr_Duration := Some d\<rparr>) key"
    unfolding c(1) by (simp add: c(2) key_attainable_def)
  with v a show "\<exists>resp. constraints_Validate unattainable_policy () = Returns (Inr resp, ()) \<and> wv_Allowed resp \<and>
      (\<nexists>d key. x509_key key \<and>
         constraints_permit (Constraints (p_Spec unattainable_policy)) (sample_request\<lparr>cr_Duration := Some d\<rparr>) key)"
    by blast
qed

subsection \<open>Ed25519 keys\<close>

text \<open>C25: \<^verbatim>\<open>crypto/x509\<close> hands out Ed25519 keys by value, which \<^verbatim>\<open>decodePublicKey\<close> does not
  recognise: every evaluation of such a request under a policy that constrains the key, also one
  that asks for Ed25519, ends in an error.\<close>

theorem ed25519_never_evaluated:
  assumes "x_DecodeCSR x (cr_Request request) = Inr csr"
    and "csr_PublicKey csr = Ed25519PublicKeyVal k" and "key_constrained policy"
  shows "constraints_Evaluate x policy request s =
           Returns (Inl (ErrNew ''unrecognised public key type ed25519.PublicKey''), s)"
  using assms
  by (auto simp: key_constrained_def constraints_Evaluate_def Let_def decodePublicKey_def go_ret_def)

theorem ed25519_never_evaluated_witness:
  "constraints_Evaluate sample_extern
     (sample_policy\<lparr>p_Spec := (p_Spec sample_policy)\<lparr>Constraints := Some \<lparr>MinDuration = None,
        MaxDuration = None, PrivateKey = Some \<lparr>Algorithm = Some ''Ed25519'', MinSize = None,
        MaxSize = None\<rparr>\<rparr>\<rparr>\<rparr>)
     (sample_request\<lparr>cr_Request := ''csr-ed25519''\<rparr>) () =
   Returns (Inl (ErrNew ''unrecognised public key type ed25519.PublicKey''), ())"
  by (rule ed25519_never_evaluated [where k = "''key''" and
        csr = "sample_csr\<lparr>csr_PublicKey := Ed25519PublicKeyVal ''key''\<rparr>"])
    (simp_all add: sample_extern_def key_constrained_def)

end
