(* ===== verification/AP_Predicates.thy ===== *)
theory AP_Predicates
  imports AP_Constraints
begin

text \<open>
  The predicates of the approver manager (\<^verbatim>\<open>pkg/internal/approver/manager/predicate\<close>), which
  filter the policies of the cluster down to those that apply to a request: ready, selecting the
  request's issuer, selecting its namespace, and bound to the requesting user by RBAC.

  The API server is a parameter. Its answer to a call may depend on every call made before, so a
  call gets the log of the earlier ones and the predicates thread that log. \<open>policy_predicate\<close> is
  the interface the manager relies on: a predicate never panics, only extends the log, only
  returns policies it was given, and each of them for a reason that the log still shows later.
\<close>

section \<open>Calls to the API server\<close>

record SubjectAccessReviewSpec =
  sar_User :: string
  sar_Groups :: "string list"
  sar_Extra :: "(string \<times> string list) list"
  sar_UID :: string
  sar_Group :: string
  sar_Resource :: string
  sar_Name :: string
  sar_Namespace :: string
  sar_Verb :: string

datatype api_call =
    ListPolicies
  | GetNamespace string
  | CreateSAR SubjectAccessReviewSpec

record api =
  api_List :: "api_call list \<Rightarrow> goerr + CertificateRequestPolicy list"
  api_GetNamespace :: "api_call list \<Rightarrow> string \<Rightarrow> goerr + labels"
  api_CreateSAR :: "api_call list \<Rightarrow> SubjectAccessReviewSpec \<Rightarrow> goerr + bool"

definition List_policies :: "api \<Rightarrow> (api_call list, goerr + CertificateRequestPolicy list) go" where
  "List_policies a l = Returns (api_List a l, l @ [ListPolicies])"

definition Get_namespace :: "api \<Rightarrow> string \<Rightarrow> (api_call list, goerr + labels) go" where
  "Get_namespace a ns l = Returns (api_GetNamespace a l ns, l @ [GetNamespace ns])"

definition Create_sar :: "api \<Rightarrow> SubjectAccessReviewSpec \<Rightarrow> (api_call list, goerr + bool) go" where
  "Create_sar a sar l = Returns (api_CreateSAR a l sar, l @ [CreateSAR sar])"

type_synonym predicate =
  "CertificateRequest \<Rightarrow> CertificateRequestPolicy list \<Rightarrow>
   (api_call list, goerr + CertificateRequestPolicy list) go"

section \<open>The predicates\<close>

definition ready_condition :: "PolicyCondition \<Rightarrow> bool" where
  "ready_condition condition \<longleftrightarrow>
     pc_Type condition = ConditionReady \<and> pc_Status condition = ConditionTrue"

text \<open>The inner loop appends the policy once per condition that says so.\<close>

definition Ready :: predicate where
  "Ready _ policies =
     go_ret (Inr (concat (map (\<lambda>policy.
       concat (map (\<lambda>condition. if ready_condition condition then [policy] else [])
                 (p_Conditions (p_Status policy)))) policies)))"

definition nonEmptyOrDefault :: "string \<Rightarrow> string \<Rightarrow> string" where
  "nonEmptyOrDefault s d = (if length s = 0 then d else s)"

definition selector_matches :: "string option \<Rightarrow> string \<Rightarrow> bool" where
  "selector_matches sel s = (case sel of None \<Rightarrow> True | Some p \<Rightarrow> WildcardMatches p s)"

definition SelectorIssuerRef :: predicate where
  "SelectorIssuerRef cr policies =
     (let issKind = nonEmptyOrDefault (ir_Kind (cr_IssuerRef cr)) ''Issuer'';
          issGroup = nonEmptyOrDefault (ir_Group (cr_IssuerRef cr)) ''cert-manager.io'';
          issName = ir_Name (cr_IssuerRef cr)
      in go_ret (Inr (concat (map (\<lambda>policy.
           (case sel_IssuerRef (Selector (p_Spec policy)) of
              None \<Rightarrow> [policy]
            | Some issRefSel \<Rightarrow>
                if \<not> selector_matches (sel_Name issRefSel) issName then []
                else if \<not> selector_matches (sel_Kind issRefSel) issKind then []
                else if \<not> selector_matches (sel_Group issRefSel) issGroup then []
                else [policy])) policies))))"

text \<open>Putting a matching policy in front of what the rest of the loop collects; an error of the
  rest discards everything.\<close>

definition keep ::
  "'p \<Rightarrow> ('s, goerr + 'p list) go \<Rightarrow> ('s, goerr + 'p list) go" where
  "keep p m = go_map (\<lambda>r. case r of Inl e \<Rightarrow> Inl e | Inr ps \<Rightarrow> Inr (p # ps)) m"

text \<open>The answers of a list of calls made in order, up to the first error: what the loops over
  webhooks and reconcilers see.\<close>

primrec go_collect :: "('s, goerr + 'a) go list \<Rightarrow> ('s, goerr + 'a list) go" where
  "go_collect [] = go_ret (Inr [])"
| "go_collect (m # ms) =
     go_bind m (\<lambda>r. case r of Inl e \<Rightarrow> go_ret (Inl e) | Inr a \<Rightarrow> keep a (go_collect ms))"

text \<open>\<^verbatim>\<open>SelectorNamespace\<close>: \<open>namespaceLabels\<close> is fetched when the first label selector needs it.\<close>

definition matched_name :: "SelectorNamespace \<Rightarrow> string \<Rightarrow> bool" where
  "matched_name nsSel ns =
     (length (MatchNames nsSel) = 0 \<or> WildcardContains (MatchNames nsSel) ns)"

abbreviation namespace_err :: "goerr \<Rightarrow> goerr" where
  "namespace_err err \<equiv> ErrWrap (''failed to get request'' @ [CHR 0x27] @
     ''s namespace to determine namespace selector'') err"

definition lazy_labels ::
  "api \<Rightarrow> string \<Rightarrow> labels option \<Rightarrow> (api_call list, goerr + labels) go" where
  "lazy_labels a ns namespaceLabels =
     (case namespaceLabels of
        Some ls \<Rightarrow> go_ret (Inr ls)
      | None \<Rightarrow> go_map (\<lambda>r. case r of
            Inl err \<Rightarrow> Inl (namespace_err err)
          | Inr ls \<Rightarrow> Inr ls) (Get_namespace a ns))"

primrec SelectorNamespace_loop ::
  "('u, 'e, 'a, 'p) extern \<Rightarrow> api \<Rightarrow> CertificateRequest \<Rightarrow> labels option \<Rightarrow>
   CertificateRequestPolicy list \<Rightarrow> (api_call list, goerr + CertificateRequestPolicy list) go" where
  "SelectorNamespace_loop x a request namespaceLabels [] = go_ret (Inr [])"
| "SelectorNamespace_loop x a request namespaceLabels (policy # policies) =
     (case sel_Namespace (Selector (p_Spec policy)) of
        None \<Rightarrow> keep policy (SelectorNamespace_loop x a request namespaceLabels policies)
      | Some nsSel \<Rightarrow>
          if \<not> matched_name nsSel (cr_Namespace request) then
            SelectorNamespace_loop x a request namespaceLabels policies
          else
            (case MatchLabels nsSel of
               None \<Rightarrow> keep policy (SelectorNamespace_loop x a request namespaceLabels policies)
             | Some matchLabels \<Rightarrow>
                 go_bind (lazy_labels a (cr_Namespace request) namespaceLabels) (\<lambda>r.
                   case r of
                     Inl err \<Rightarrow> go_ret (Inl err)
                   | Inr ls \<Rightarrow>
                       (case x_LabelSelector x matchLabels of
                          Inl err \<Rightarrow>
                            go_ret (Inl (ErrWrap ''failed to parse namespace label selector'' err))
                        | Inr selector \<Rightarrow>
                            if \<not> selector ls
                            then SelectorNamespace_loop x a request (Some ls) policies
                            else keep policy
                                   (SelectorNamespace_loop x a request (Some ls) policies)))))"

definition SelectorNamespace_pred :: "('u, 'e, 'a, 'p) extern \<Rightarrow> api \<Rightarrow> predicate" where
  "SelectorNamespace_pred x a request policies = SelectorNamespace_loop x a request None policies"

definition sar_for :: "CertificateRequest \<Rightarrow> CertificateRequestPolicy \<Rightarrow> SubjectAccessReviewSpec" where
  "sar_for cr policy =
     \<lparr>sar_User = cr_Username cr, sar_Groups = cr_Groups cr, sar_Extra = cr_Extra cr,
      sar_UID = cr_UID cr, sar_Group = ''policy.cert-manager.io'',
      sar_Resource = ''certificaterequestpolicies'', sar_Name = p_Name policy,
      sar_Namespace = cr_Namespace cr, sar_Verb = ''use''\<rparr>"

primrec RBACBound_loop ::
  "api \<Rightarrow> CertificateRequest \<Rightarrow> CertificateRequestPolicy list \<Rightarrow>
   (api_call list, goerr + CertificateRequestPolicy list) go" where
  "RBACBound_loop a cr [] = go_ret (Inr [])"
| "RBACBound_loop a cr (policy # policies) =
     go_bind (Create_sar a (sar_for cr policy)) (\<lambda>r.
       case r of
         Inl err \<Rightarrow> go_ret (Inl (ErrWrap ''failed to create subjectaccessreview'' err))
       | Inr allowed \<Rightarrow>
           if allowed then keep policy (RBACBound_loop a cr policies)
           else RBACBound_loop a cr policies)"

definition RBACBound :: "api \<Rightarrow> predicate" where
  "RBACBound a cr policies = RBACBound_loop a cr policies"

section \<open>What the predicates select\<close>

definition is_ready :: "CertificateRequestPolicy \<Rightarrow> bool" where
  "is_ready policy \<longleftrightarrow>
     (\<exists>c \<in> set (p_Conditions (p_Status policy)).
        pc_Type c = ConditionReady \<and> pc_Status c = ConditionTrue)"

text \<open>A selector field that is left out selects everything; the kind and group of the issuer have
  cert-manager's defaults.\<close>

definition issuer_selects :: "CertificateRequest \<Rightarrow> CertificateRequestPolicy \<Rightarrow> bool" where
  "issuer_selects cr policy \<longleftrightarrow>
     (\<forall>sel. sel_IssuerRef (Selector (p_Spec policy)) = Some sel \<longrightarrow>
        (\<forall>p. sel_Name sel = Some p \<longrightarrow> wild_expands (runes p) (runes (ir_Name (cr_IssuerRef cr)))) \<and>
        (\<forall>p. sel_Kind sel = Some p \<longrightarrow>
           wild_expands (runes p) (runes (if ir_Kind (cr_IssuerRef cr) = '''' then ''Issuer''
                                           else ir_Kind (cr_IssuerRef cr)))) \<and>
        (\<forall>p. sel_Group sel = Some p \<longrightarrow>
           wild_expands (runes p) (runes (if ir_Group (cr_IssuerRef cr) = ''''
             then ''cert-manager.io'' else ir_Group (cr_IssuerRef cr)))))"

definition names_select :: "string \<Rightarrow> SelectorNamespace \<Rightarrow> bool" where
  "names_select ns sel \<longleftrightarrow>
     MatchNames sel = [] \<or> (\<exists>p \<in> set (MatchNames sel). wild_expands (runes p) (runes ns))"

definition namespace_selects ::
  "('u, 'e, 'a, 'p) extern \<Rightarrow> string \<Rightarrow> labels \<Rightarrow> CertificateRequestPolicy \<Rightarrow> bool" where
  "namespace_selects x ns ls policy \<longleftrightarrow>
     (\<forall>sel. sel_Namespace (Selector (p_Spec policy)) = Some sel \<longrightarrow>
        names_select ns sel \<and>
        (\<forall>ml. MatchLabels sel = Some ml \<longrightarrow> (\<exists>f. x_LabelSelector x ml = Inr f \<and> f ls)))"

text \<open>The labels of the namespace matter for a policy that selects on them and whose names match.\<close>

definition needs_labels :: "string \<Rightarrow> CertificateRequestPolicy \<Rightarrow> bool" where
  "needs_labels ns policy \<longleftrightarrow>
     (\<exists>sel. sel_Namespace (Selector (p_Spec policy)) = Some sel \<and> names_select ns sel \<and>
            MatchLabels sel \<noteq> None)"

definition bad_selector ::
  "('u, 'e, 'a, 'p) extern \<Rightarrow> CertificateRequestPolicy \<Rightarrow> goerr \<Rightarrow> bool" where
  "bad_selector x policy err \<longleftrightarrow>
     (\<exists>sel ml. sel_Namespace (Selector (p_Spec policy)) = Some sel \<and> MatchLabels sel = Some ml \<and>
               x_LabelSelector x ml = Inl err)"

text \<open>What the log says the API server answered.\<close>

definition told_labels :: "api \<Rightarrow> api_call list \<Rightarrow> string \<Rightarrow> labels \<Rightarrow> bool" where
  "told_labels a l ns ls \<longleftrightarrow>
     (\<exists>before after. l = before @ GetNamespace ns # after \<and> api_GetNamespace a before ns = Inr ls)"

definition told_bound :: "api \<Rightarrow> api_call list \<Rightarrow> CertificateRequest \<Rightarrow> CertificateRequestPolicy \<Rightarrow> bool" where
  "told_bound a l cr policy \<longleftrightarrow>
     (\<exists>before after. l = before @ CreateSAR (sar_for cr policy) # after \<and>
                     api_CreateSAR a before (sar_for cr policy) = Inr True)"

section \<open>Facts about the single predicates\<close>

lemma keep_Returns:
  "m l = Returns (r, l') \<Longrightarrow>
   keep p m l = Returns ((case r of Inl e \<Rightarrow> Inl e | Inr ps \<Rightarrow> Inr (p # ps)), l')"
  by (simp add: keep_def go_map_def go_bind_def go_ret_def)

lemma go_collect_Cons:
  assumes "go_collect (m # ms) s = Returns (r, s')"
  obtains (error) e where "m s = Returns (Inl e, s')" "r = Inl e"
  | (answer) a s1 r' where "m s = Returns (Inr a, s1)" "go_collect ms s1 = Returns (r', s')"
      "r = (case r' of Inl e \<Rightarrow> Inl e | Inr as \<Rightarrow> Inr (a # as))"
  using assms
  by (auto simp: go_bind_def go_ret_def keep_def go_map_def
      split: outcome.split_asm prod.split_asm sum.split_asm)

lemma keep_cong: "m l = n l' \<Longrightarrow> keep p m l = keep p n l'"
  by (simp add: keep_def go_map_def go_bind_def)

lemma matched_name_iff: "matched_name sel ns \<longleftrightarrow> names_select ns sel"
  by (auto simp: matched_name_def names_select_def WildcardContains_iff WildcardMatches_iff)

lemma selector_matches_iff:
  "selector_matches sel s \<longleftrightarrow> (\<forall>p. sel = Some p \<longrightarrow> wild_expands (runes p) (runes s))"
  by (auto simp: selector_matches_def WildcardMatches_iff split: option.splits)

lemma Ready_set:
  "Ready cr ps l = Returns (Inr qs, l') \<Longrightarrow> set qs = {p \<in> set ps. is_ready p} \<and> l' = l"
  by (auto simp: Ready_def go_ret_def is_ready_def ready_condition_def)

lemma concat_map_filter: "concat (map (\<lambda>p. if P p then [p] else []) ps) = filter P ps"
  by (induction ps) auto

lemma SelectorIssuerRef_filter:
  "SelectorIssuerRef cr ps l = Returns (Inr (filter (issuer_selects cr) ps), l)"
proof -
  let ?c = "cr_IssuerRef cr"
  have "(case sel_IssuerRef (Selector (p_Spec p)) of
           None \<Rightarrow> [p]
         | Some s \<Rightarrow>
             if \<not> selector_matches (sel_Name s) (ir_Name ?c) then []
             else if \<not> selector_matches (sel_Kind s) (nonEmptyOrDefault (ir_Kind ?c) ''Issuer'') then []
             else if \<not> selector_matches (sel_Group s)
                         (nonEmptyOrDefault (ir_Group ?c) ''cert-manager.io'') then []
             else [p]) = (if issuer_selects cr p then [p] else [])" for p
    by (auto simp: issuer_selects_def selector_matches_iff nonEmptyOrDefault_def
        split: option.splits)
  then show ?thesis
    by (simp add: SelectorIssuerRef_def Let_def go_ret_def concat_map_filter)
qed

text \<open>With the labels at hand, or without a need for them, no call is made.\<close>

definition ns_result ::
  "('u, 'e, 'a, 'p) extern \<Rightarrow> string \<Rightarrow> labels \<Rightarrow> CertificateRequestPolicy list \<Rightarrow>
   goerr + CertificateRequestPolicy list \<Rightarrow> bool" where
  "ns_result x ns ls ps r \<longleftrightarrow>
     (case r of
        Inl e \<Rightarrow> \<exists>p \<in> set ps. needs_labels ns p \<and>
          (\<exists>err. bad_selector x p err \<and>
                 e = ErrWrap ''failed to parse namespace label selector'' err)
      | Inr qs \<Rightarrow> (\<forall>p \<in> set ps. needs_labels ns p \<longrightarrow> (\<forall>err. \<not> bad_selector x p err)) \<and>
                  qs = filter (namespace_selects x ns ls) ps)"

lemma SelectorNamespace_known:
  "\<exists>r. SelectorNamespace_loop x a request (Some ls) ps l = Returns (r, l) \<and>
       ns_result x (cr_Namespace request) ls ps r"
proof (induction ps)
  case Nil
  show ?case by (simp add: go_ret_def ns_result_def)
next
  case (Cons p ps)
  let ?ns = "cr_Namespace request"
  from Cons obtain r where r: "SelectorNamespace_loop x a request (Some ls) ps l = Returns (r, l)"
    "ns_result x ?ns ls ps r" by blast
  note k = keep_Returns [of "SelectorNamespace_loop x a request (Some ls) ps", OF r(1), of p]
  consider (all) "sel_Namespace (Selector (p_Spec p)) = None"
    | (other) sel where "sel_Namespace (Selector (p_Spec p)) = Some sel" "\<not> names_select ?ns sel"
    | (names) sel where "sel_Namespace (Selector (p_Spec p)) = Some sel" "names_select ?ns sel"
        "MatchLabels sel = None"
    | (bad) sel ml e where "sel_Namespace (Selector (p_Spec p)) = Some sel" "names_select ?ns sel"
        "MatchLabels sel = Some ml" "x_LabelSelector x ml = Inl e"
    | (good) sel ml f where "sel_Namespace (Selector (p_Spec p)) = Some sel" "names_select ?ns sel"
        "MatchLabels sel = Some ml" "x_LabelSelector x ml = Inr f"
    by (metis option.exhaust sum.exhaust)
  then show ?case
    using r k
    by cases (auto simp: matched_name_iff ns_result_def namespace_selects_def [of x _ _ p]
        needs_labels_def [of _ p] bad_selector_def [of x p] lazy_labels_def go_bind_def go_ret_def split: sum.splits)
qed

lemma SelectorNamespace_no_need:
  "\<forall>p \<in> set ps. \<not> needs_labels (cr_Namespace request) p \<Longrightarrow>
   SelectorNamespace_loop x a request nl ps l =
     Returns (Inr (filter (namespace_selects x (cr_Namespace request) ls) ps), l)"
proof (induction ps)
  case Nil
  show ?case by (simp add: go_ret_def)
next
  case (Cons p ps)
  then have IH: "SelectorNamespace_loop x a request nl ps l =
      Returns (Inr (filter (namespace_selects x (cr_Namespace request) ls) ps), l)" by simp
  show ?case
    using Cons.prems IH keep_Returns [of "SelectorNamespace_loop x a request nl ps", OF IH, of p]
    by (auto simp: matched_name_iff namespace_selects_def [of x _ _ p]
        needs_labels_def [of _ p] split: option.splits)
qed

lemma SelectorNamespace_fetch:
  assumes "\<exists>p \<in> set ps. needs_labels (cr_Namespace request) p"
  shows "SelectorNamespace_loop x a request None ps l =
    (case api_GetNamespace a l (cr_Namespace request) of
       Inl e \<Rightarrow> Returns (Inl (namespace_err e), l @ [GetNamespace (cr_Namespace request)])
     | Inr ls \<Rightarrow> SelectorNamespace_loop x a request (Some ls) ps
                 (l @ [GetNamespace (cr_Namespace request)]))"
  using assms
proof (induction ps)
  case Nil
  then show ?case by simp
next
  case (Cons p ps)
  let ?get = "api_GetNamespace a l (cr_Namespace request)"
  show ?case
  proof (cases "needs_labels (cr_Namespace request) p")
    case True
    then show ?thesis
      by (auto simp: needs_labels_def [of _ p] matched_name_iff lazy_labels_def Get_namespace_def
          go_map_def go_bind_def go_ret_def split: sum.splits)
  next
    case False
    with Cons.prems Cons.IH have IH: "SelectorNamespace_loop x a request None ps l =
      (case ?get of
         Inl e \<Rightarrow> Returns (Inl (namespace_err e), l @ [GetNamespace (cr_Namespace request)])
       | Inr ls \<Rightarrow> SelectorNamespace_loop x a request (Some ls) ps
                   (l @ [GetNamespace (cr_Namespace request)]))" by auto
    show ?thesis
    proof (cases ?get)
      case (Inl e)
      with False IH keep_Returns [of "SelectorNamespace_loop x a request None ps" l _ _ p] show ?thesis
        by (auto simp: needs_labels_def [of _ p] matched_name_iff split: option.splits)
    next
      case (Inr ls)
      with IH have eq: "SelectorNamespace_loop x a request None ps l =
          SelectorNamespace_loop x a request (Some ls) ps (l @ [GetNamespace (cr_Namespace request)])"
        by simp
      note keep_cong [of "SelectorNamespace_loop x a request None ps" l
          "SelectorNamespace_loop x a request (Some ls) ps" _ p, OF eq]
      with False eq Inr
      show ?thesis
        by (auto simp: needs_labels_def [of _ p] matched_name_iff split: option.splits)
    qed
  qed
qed

text \<open>\<^verbatim>\<open>RBACBound\<close> asks for one review per policy, in order; \<open>sar_answer\<close> is what the API server
  says to the \<open>i\<close>th.\<close>

definition sar_log :: "CertificateRequest \<Rightarrow> CertificateRequestPolicy list \<Rightarrow> api_call list" where
  "sar_log cr ps = map (\<lambda>p. CreateSAR (sar_for cr p)) ps"

definition sar_answer ::
  "api \<Rightarrow> CertificateRequest \<Rightarrow> CertificateRequestPolicy list \<Rightarrow> api_call list \<Rightarrow> nat \<Rightarrow>
   goerr + bool" where
  "sar_answer a cr ps l i = api_CreateSAR a (l @ sar_log cr (take i ps)) (sar_for cr (ps ! i))"

definition rbac_result ::
  "api \<Rightarrow> CertificateRequest \<Rightarrow> CertificateRequestPolicy list \<Rightarrow> api_call list \<Rightarrow>
   goerr + CertificateRequestPolicy list \<Rightarrow> api_call list \<Rightarrow> bool" where
  "rbac_result a cr ps l r l' \<longleftrightarrow>
     (case r of
        Inr qs \<Rightarrow> l' = l @ sar_log cr ps \<and> (\<forall>i < length ps. \<exists>b. sar_answer a cr ps l i = Inr b) \<and>
          qs = map ((!) ps) (filter (\<lambda>i. sar_answer a cr ps l i = Inr True) [0..<length ps])
      | Inl e \<Rightarrow> \<exists>i < length ps. \<exists>err. l' = l @ sar_log cr (take (Suc i) ps) \<and>
          (\<forall>j < i. \<exists>b. sar_answer a cr ps l j = Inr b) \<and> sar_answer a cr ps l i = Inl err \<and>
          e = ErrWrap ''failed to create subjectaccessreview'' err)"

lemma sar_answer_Cons:
  "sar_answer a cr (p # ps) l 0 = api_CreateSAR a l (sar_for cr p)"
  "sar_answer a cr (p # ps) l (Suc i) = sar_answer a cr ps (l @ [CreateSAR (sar_for cr p)]) i"
  by (simp_all add: sar_answer_def sar_log_def)

lemma upt_Suc_map: "[0..<Suc n] = 0 # map Suc [0..<n]"
  by (simp add: map_Suc_upt upt_conv_Cons)

lemma rbac_result_Cons:
  assumes "api_CreateSAR a l (sar_for cr p) = Inr b"
    and "rbac_result a cr ps (l @ [CreateSAR (sar_for cr p)]) r l'"
  shows "rbac_result a cr (p # ps) l
           (case r of Inl e \<Rightarrow> Inl e | Inr qs \<Rightarrow> Inr (if b then p # qs else qs)) l'"
proof (cases r)
  case (Inl e)
  with assms(2) obtain i err where i: "i < length ps"
    "l' = l @ sar_log cr (take (Suc (Suc i)) (p # ps))"
    "\<forall>j < i. \<exists>b. sar_answer a cr ps (l @ [CreateSAR (sar_for cr p)]) j = Inr b"
    "sar_answer a cr ps (l @ [CreateSAR (sar_for cr p)]) i = Inl err"
    "e = ErrWrap ''failed to create subjectaccessreview'' err"
    by (auto simp: rbac_result_def sar_log_def)
  have "\<exists>b. sar_answer a cr (p # ps) l j = Inr b" if "j < Suc i" for j
    using that i(3) assms(1) by (cases j) (auto simp: sar_answer_Cons)
  with i Inl show ?thesis
    by (auto simp: rbac_result_def sar_answer_Cons intro!: exI [of _ "Suc i"])
next
  case (Inr qs)
  have "\<exists>b. sar_answer a cr (p # ps) l j = Inr b" if "j < Suc (length ps)" for j
    using that assms Inr by (cases j) (auto simp: sar_answer_Cons rbac_result_def)
  moreover have "map ((!) (p # ps)) (filter (\<lambda>i. sar_answer a cr (p # ps) l i = Inr True)
      [0..<Suc (length ps)]) = (if b then p # qs else qs)"
    using assms Inr unfolding upt_Suc_map
    by (simp add: rbac_result_def sar_answer_Cons filter_map comp_def)
  ultimately show ?thesis
    using assms Inr by (auto simp: rbac_result_def sar_log_def)
qed

lemma RBACBound_loop_result:
  "\<exists>r l'. RBACBound_loop a cr ps l = Returns (r, l') \<and> rbac_result a cr ps l r l'"
proof (induction ps arbitrary: l)
  case Nil
  show ?case by (simp add: go_ret_def rbac_result_def sar_log_def)
next
  case (Cons p ps)
  let ?l = "l @ [CreateSAR (sar_for cr p)]"
  obtain r l' where r: "RBACBound_loop a cr ps ?l = Returns (r, l')" "rbac_result a cr ps ?l r l'"
    using Cons by blast
  show ?case
  proof (cases "api_CreateSAR a l (sar_for cr p)")
    case (Inl e)
    then show ?thesis
      by (auto simp: Create_sar_def go_bind_def go_ret_def rbac_result_def sar_answer_Cons
          sar_log_def intro!: exI [of _ 0])
  next
    case (Inr b)
    have "RBACBound_loop a cr (p # ps) l =
        Returns ((case r of Inl e \<Rightarrow> Inl e | Inr qs \<Rightarrow> Inr (if b then p # qs else qs)), l')"
      using Inr r(1) keep_Returns [of "RBACBound_loop a cr ps", OF r(1), of p]
      by (cases r) (auto simp: Create_sar_def go_bind_def)
    with rbac_result_Cons [OF Inr r(2)] show ?thesis by blast
  qed
qed

lemma rbac_result_extends: "rbac_result a cr ps l r l' \<Longrightarrow> \<exists>m. l' = l @ m"
  by (cases r) (auto simp: rbac_result_def)

lemma rbac_result_bound:
  assumes "rbac_result a cr ps l (Inr qs) l'" and "q \<in> set qs"
  shows "q \<in> set ps \<and> told_bound a l' cr q"
proof -
  from assms obtain i where i: "i < length ps" "q = ps ! i" "sar_answer a cr ps l i = Inr True"
    and l': "l' = l @ sar_log cr ps"
    by (auto simp: rbac_result_def)
  then have "sar_log cr ps =
      sar_log cr (take i ps) @ CreateSAR (sar_for cr q) # sar_log cr (drop (Suc i) ps)"
    using id_take_nth_drop [OF i(1)] unfolding sar_log_def by (metis list.simps(9) map_append)
  then have "l' = (l @ sar_log cr (take i ps)) @ CreateSAR (sar_for cr q) # sar_log cr (drop (Suc i) ps)"
    using l' by simp
  with i show ?thesis
    unfolding told_bound_def sar_answer_def by (auto intro!: exI)
qed

section \<open>The interface the manager relies on\<close>

locale policy_predicate =
  fixes pred :: predicate
    and holds :: "CertificateRequest \<Rightarrow> CertificateRequestPolicy \<Rightarrow> api_call list \<Rightarrow> bool"
  assumes returns: "\<exists>r m. pred cr ps l = Returns (r, l @ m)"
    and sound: "pred cr ps l = Returns (Inr qs, l') \<Longrightarrow> q \<in> set qs \<Longrightarrow> q \<in> set ps \<and> holds cr q l'"
    and lasting: "holds cr q l \<Longrightarrow> holds cr q (l @ m)"
begin

lemma extends: "pred cr ps l = Returns (r, l') \<Longrightarrow> \<exists>m. l' = l @ m"
  using returns [of cr ps l] by auto

lemma sound_later:
  "pred cr ps l = Returns (Inr qs, l') \<Longrightarrow> q \<in> set qs \<Longrightarrow> holds cr q (l' @ m)"
  using sound lasting by blast

end

definition ns_holds ::
  "('u, 'e, 'a, 'p) extern \<Rightarrow> api \<Rightarrow> CertificateRequest \<Rightarrow> CertificateRequestPolicy \<Rightarrow>
   api_call list \<Rightarrow> bool" where
  "ns_holds x a cr policy l \<longleftrightarrow>
     (\<exists>ls. namespace_selects x (cr_Namespace cr) ls policy \<and>
           (needs_labels (cr_Namespace cr) policy \<longrightarrow> told_labels a l (cr_Namespace cr) ls))"

lemma told_append:
  "told_labels a l ns ls \<Longrightarrow> told_labels a (l @ m) ns ls"
  "told_bound a l cr p \<Longrightarrow> told_bound a (l @ m) cr p"
  by (fastforce simp: told_labels_def told_bound_def)+

interpretation ready_pred: policy_predicate Ready "\<lambda>cr p l. is_ready p"
  by unfold_locales (auto simp: Ready_def go_ret_def is_ready_def ready_condition_def
      split: if_splits)

interpretation issuer_pred: policy_predicate SelectorIssuerRef "\<lambda>cr p l. issuer_selects cr p"
  by unfold_locales (auto simp: SelectorIssuerRef_filter)

lemma SelectorNamespace_run:
  "\<exists>r. SelectorNamespace_pred x a cr ps l = Returns (r,
         if \<exists>p \<in> set ps. needs_labels (cr_Namespace cr) p then l @ [GetNamespace (cr_Namespace cr)]
         else l) \<and>
     (if \<exists>p \<in> set ps. needs_labels (cr_Namespace cr) p
      then (case api_GetNamespace a l (cr_Namespace cr) of
              Inl e \<Rightarrow> r = Inl (namespace_err e)
            | Inr ls \<Rightarrow> ns_result x (cr_Namespace cr) ls ps r)
      else r = Inr (filter (namespace_selects x (cr_Namespace cr) []) ps))"
proof (cases "\<exists>p \<in> set ps. needs_labels (cr_Namespace cr) p")
  case True
  show ?thesis
  proof (cases "api_GetNamespace a l (cr_Namespace cr)")
    case (Inl e)
    with True show ?thesis
      by (simp add: SelectorNamespace_pred_def SelectorNamespace_fetch)
  next
    case (Inr ls)
    with True SelectorNamespace_known [of x a cr ls ps "l @ [GetNamespace (cr_Namespace cr)]"]
    show ?thesis
      by (auto simp: SelectorNamespace_pred_def SelectorNamespace_fetch)
  qed
next
  case False
  then show ?thesis
    by (simp add: SelectorNamespace_pred_def SelectorNamespace_no_need [where ls = "[]"])
qed

interpretation namespace_pred: policy_predicate "SelectorNamespace_pred x a" "ns_holds x a"
  for x a
proof unfold_locales
  fix cr :: CertificateRequest and ps l
  show "\<exists>r m. SelectorNamespace_pred x a cr ps l = Returns (r, l @ m)"
    using SelectorNamespace_run [of x a cr ps l] by (auto split: if_splits)
next
  fix cr :: CertificateRequest and ps l qs l' q
  let ?ns = "cr_Namespace cr" and ?need = "\<exists>p \<in> set ps. needs_labels (cr_Namespace cr) p"
  assume run: "SelectorNamespace_pred x a cr ps l = Returns (Inr qs, l')" and q: "q \<in> set qs"
  show "q \<in> set ps \<and> ns_holds x a cr q l'"
  proof (cases ?need)
    case True
    with run SelectorNamespace_run [of x a cr ps l] obtain ls
      where "api_GetNamespace a l ?ns = Inr ls" "qs = filter (namespace_selects x ?ns ls) ps"
        "l' = l @ [GetNamespace ?ns]"
      by (auto simp: ns_result_def split: sum.splits)
    with q show ?thesis by (auto simp: ns_holds_def told_labels_def)
  next
    case False
    with run SelectorNamespace_run [of x a cr ps l]
    have "qs = filter (namespace_selects x ?ns []) ps" by auto
    with q False show ?thesis by (auto simp: ns_holds_def)
  qed
next
  fix cr :: CertificateRequest and q l m
  assume "ns_holds x a cr q l"
  then show "ns_holds x a cr q (l @ m)"
    unfolding ns_holds_def by (blast intro: told_append)
qed

interpretation rbac_pred: policy_predicate "RBACBound a" "\<lambda>cr p l. told_bound a l cr p"
  for a
proof unfold_locales
  fix cr ps l show "\<exists>r m. RBACBound a cr ps l = Returns (r, l @ m)"
    unfolding RBACBound_def using RBACBound_loop_result [of a cr ps l] rbac_result_extends by blast
next
  fix cr ps l qs l' q
  assume "RBACBound a cr ps l = Returns (Inr qs, l')" and "q \<in> set qs"
  then show "q \<in> set ps \<and> told_bound a l' cr q"
    using RBACBound_loop_result [of a cr ps l]
    by (auto simp: RBACBound_def dest: rbac_result_bound)
qed (rule told_append)

section \<open>Properties\<close>

text \<open>An API server for the witnesses: one policy, labelled namespaces, everybody bound.\<close>

definition sample_api :: api where
  "sample_api = \<lparr>api_List = (\<lambda>l. Inr [sample_policy]),
     api_GetNamespace = (\<lambda>l ns. if ns = ''ns'' then Inr [(''team'', ''web'')]
                                else Inl (ErrLib ''not found'')),
     api_CreateSAR = (\<lambda>l sar. Inr (sar_User sar = ''alice''))\<rparr>"

text \<open>C16: \<^verbatim>\<open>SelectorNamespace\<close> reads the namespace lazily and at most once: exactly if some
  policy's names match and it selects on labels. An error of that read is returned; with the
  labels, the result is an error exactly if a label selector that is consulted does not parse,
  and else the policies that select the namespace, in order.\<close>

theorem SelectorNamespace_lazy:
  "\<exists>r. SelectorNamespace_pred x a cr ps l = Returns (r,
         if \<exists>p \<in> set ps. needs_labels (cr_Namespace cr) p then l @ [GetNamespace (cr_Namespace cr)]
         else l) \<and>
     (if \<exists>p \<in> set ps. needs_labels (cr_Namespace cr) p
      then (case api_GetNamespace a l (cr_Namespace cr) of
              Inl e \<Rightarrow> r = Inl (namespace_err e)
            | Inr ls \<Rightarrow> ns_result x (cr_Namespace cr) ls ps r)
      else r = Inr (filter (namespace_selects x (cr_Namespace cr) []) ps))"
  by (rule SelectorNamespace_run)

text \<open>C15: \<^verbatim>\<open>RBACBound\<close> asks the API server for one review per policy, in order, each naming the
  request's user, groups, UID and extra values and the verb \<^verbatim>\<open>use\<close> on that policy in the
  request's namespace; it stops at the first error and returns it, and otherwise returns exactly
  the policies whose review was allowed.\<close>

theorem RBACBound_reviews_each:
  "\<exists>r l'. RBACBound a cr ps l = Returns (r, l') \<and> rbac_result a cr ps l r l'"
  unfolding RBACBound_def by (rule RBACBound_loop_result)

text \<open>C30: \<^verbatim>\<open>Ready\<close> and \<^verbatim>\<open>SelectorIssuerRef\<close> make no calls and filter in order; \<^verbatim>\<open>Ready\<close> provided
  that no policy carries two conditions that say so.\<close>

theorem Ready_issuer_filter:
  assumes "\<And>p. p \<in> set ps \<Longrightarrow> length (filter ready_condition (p_Conditions (p_Status p))) \<le> 1"
  shows "Ready cr ps l = Returns (Inr (filter is_ready ps), l) \<and>
         SelectorIssuerRef cr ps l = Returns (Inr (filter (issuer_selects cr) ps), l)"
proof -
  have one: "concat (map (\<lambda>c. if ready_condition c then [p] else []) cs) =
      replicate (length (filter ready_condition cs)) p" for p :: CertificateRequestPolicy and cs
    by (induction cs) auto
  have "length (filter ready_condition cs) \<le> 1 \<Longrightarrow>
      replicate (length (filter ready_condition cs)) p =
      (if \<exists>c \<in> set cs. ready_condition c then [p] else [])" for p :: CertificateRequestPolicy and cs
    by (cases "filter ready_condition cs") (auto simp: filter_empty_conv dest: filter_eq_ConsD)
  with assms have "map (\<lambda>p. concat (map (\<lambda>c. if ready_condition c then [p] else [])
      (p_Conditions (p_Status p)))) ps = map (\<lambda>p. if is_ready p then [p] else []) ps"
    unfolding one is_ready_def ready_condition_def [symmetric] by (intro map_cong refl) simp
  then have "Ready cr ps l = Returns (Inr (filter is_ready ps), l)"
    unfolding Ready_def go_ret_def by (simp only: concat_map_filter)
  then show ?thesis by (simp add: SelectorIssuerRef_filter)
qed

theorem Ready_issuer_filter_witness:
  "Ready sample_request [sample_policy] [] = Returns (Inr (filter is_ready [sample_policy]), [])"
  using Ready_issuer_filter [of "[sample_policy]" sample_request "[]"]
  by (simp add: sample_policy_def)

end
