(* ===== verification/AP_Review.thy ===== *)
theory AP_Review
  imports AP_Predicates
begin

text \<open>
  The approver manager (\<^verbatim>\<open>pkg/internal/approver/manager/review.go\<close>): list the policies, filter
  them with the predicates, and run every evaluator against the policies that are left until one
  policy is denied by no evaluator. The state of a review is the state the evaluators share and
  the log of the calls to the API server.

  The theorems at the end put the components together: an approval is backed by a policy that is
  ready, selects the request, is bound to the user and permits all the request asks for, and a
  review decides whether there is such a policy.
\<close>

section \<open>The manager\<close>

text \<open>\<^verbatim>\<open>ReviewResult\<close> is an int with three named values; \<open>ReviewOther\<close> is any other one.\<close>

datatype ReviewResult = ReviewApproved | ReviewDenied | ReviewUnprocessed | ReviewOther int

record ReviewResponse =
  rv_Result :: ReviewResult
  rv_Message :: string

type_synonym 's evaluate_fn =
  "CertificateRequestPolicy \<Rightarrow> CertificateRequest \<Rightarrow> ('s, goerr + EvaluationResponse) go"

record 's mngr =
  m_lister :: api
  m_predicates :: "predicate list"
  m_evaluators :: "'s evaluate_fn list"

record policyMessage =
  pm_name :: string
  pm_message :: string

definition New ::
  "('u, 'e, 'a, 'p) extern \<Rightarrow> api \<Rightarrow> 's evaluate_fn list \<Rightarrow> 's mngr" where
  "New x a evaluators =
     \<lparr>m_lister = a,
      m_predicates = [Ready, SelectorIssuerRef, SelectorNamespace_pred x a, RBACBound a],
      m_evaluators = evaluators\<rparr>"

primrec run_predicates :: "predicate list \<Rightarrow> predicate" where
  "run_predicates [] cr policies = go_ret (Inr policies)"
| "run_predicates (p # ps) cr policies =
     go_bind (p cr policies) (\<lambda>r.
       case r of
         Inl err \<Rightarrow> go_ret (Inl (ErrWrap ''failed to perform predicate on policies'' err))
       | Inr policies' \<Rightarrow> run_predicates ps cr policies')"

text \<open>The inner loop: the results of all evaluators for one policy, in \<open>evaluatorDenied\<close> and
  \<open>evaluatorMessages\<close>.\<close>

primrec run_evaluators ::
  "'s evaluate_fn list \<Rightarrow> CertificateRequestPolicy \<Rightarrow> CertificateRequest \<Rightarrow> bool \<Rightarrow> string list \<Rightarrow>
   ('s, goerr + bool \<times> string list) go" where
  "run_evaluators [] policy cr evaluatorDenied evaluatorMessages =
     go_ret (Inr (evaluatorDenied, evaluatorMessages))"
| "run_evaluators (evaluator # evaluators) policy cr evaluatorDenied evaluatorMessages =
     go_bind (evaluator policy cr) (\<lambda>r.
       case r of
         Inl err \<Rightarrow> go_ret (Inl err)
       | Inr response \<Rightarrow>
           run_evaluators evaluators policy cr
             (if er_Result response = ResultDenied then True else evaluatorDenied)
             (if length (er_Message response) > 0
              then evaluatorMessages @ [er_Message response] else evaluatorMessages))"

definition approved_response :: "('u, 'e, 'a, 'p) extern \<Rightarrow> CertificateRequestPolicy \<Rightarrow> ReviewResponse" where
  "approved_response x policy =
     \<lparr>rv_Result = ReviewApproved,
      rv_Message = ''Approved by CertificateRequestPolicy: '' @ x_Quote x (p_Name policy)\<rparr>"

definition denied_response :: "policyMessage list \<Rightarrow> ReviewResponse" where
  "denied_response policyMessages =
     (let messages = map (\<lambda>pm. ''['' @ pm_name pm @ '': '' @ pm_message pm @ '']'')
                       (sort_by pm_name policyMessages)
      in \<lparr>rv_Result = ReviewDenied,
          rv_Message = ''No policy approved this request: '' @ Join messages '' ''\<rparr>)"

primrec review_policies ::
  "('u, 'e, 'a, 'p) extern \<Rightarrow> 's evaluate_fn list \<Rightarrow> CertificateRequest \<Rightarrow>
   CertificateRequestPolicy list \<Rightarrow> policyMessage list \<Rightarrow> ('s, goerr + ReviewResponse) go" where
  "review_policies x evaluators cr [] policyMessages =
     go_ret (Inr (denied_response policyMessages))"
| "review_policies x evaluators cr (policy # policies) policyMessages =
     go_bind (run_evaluators evaluators policy cr False []) (\<lambda>r.
       case r of
         Inl err \<Rightarrow> go_ret (Inl err)
       | Inr (evaluatorDenied, evaluatorMessages) \<Rightarrow>
           if \<not> evaluatorDenied then go_ret (Inr (approved_response x policy))
           else review_policies x evaluators cr policies
                  (policyMessages @ [\<lparr>pm_name = p_Name policy,
                                      pm_message = Join evaluatorMessages '', ''\<rparr>]))"

definition Review ::
  "('u, 'e, 'a, 'p) extern \<Rightarrow> 's mngr \<Rightarrow> CertificateRequest \<Rightarrow>
   ('s \<times> api_call list, goerr + ReviewResponse) go" where
  "Review x m cr =
     go_bind (go_snd (List_policies (m_lister m))) (\<lambda>r.
       case r of
         Inl err \<Rightarrow> go_ret (Inl err)
       | Inr items \<Rightarrow>
           if length items = 0 then
             go_ret (Inr \<lparr>rv_Result = ReviewUnprocessed,
                          rv_Message = ''No CertificateRequestPolicies exist''\<rparr>)
           else
             go_bind (go_snd (run_predicates (m_predicates m) cr items)) (\<lambda>r.
               case r of
                 Inl err \<Rightarrow> go_ret (Inl err)
               | Inr policies \<Rightarrow>
                   if length policies = 0 then
                     go_ret (Inr \<lparr>rv_Result = ReviewUnprocessed,
                       rv_Message = ''No CertificateRequestPolicies bound or applicable''\<rparr>)
                   else go_fst (review_policies x (m_evaluators m) cr policies [])))"

section \<open>Running the predicates\<close>

lemma run_predicates_extends:
  assumes "list_all2 policy_predicate preds Hs"
  shows "\<exists>r m. run_predicates preds cr ps l = Returns (r, l @ m)"
  using assms
proof (induction preds Hs arbitrary: ps l rule: list_all2_induct)
  case Nil
  show ?case by (auto simp: go_ret_def)
next
  case (Cons p preds H Hs)
  from policy_predicate.returns [OF Cons.hyps(1)] obtain r m
    where r: "p cr ps l = Returns (r, l @ m)" by blast
  show ?case
  proof (cases r)
    case (Inl e)
    with r show ?thesis by (auto simp: go_bind_def go_ret_def)
  next
    case (Inr qs)
    with r Cons.IH [of qs "l @ m"] show ?thesis by (auto simp: go_bind_def)
  qed
qed

lemma run_predicates_sound:
  assumes "list_all2 policy_predicate preds Hs"
    and "run_predicates preds cr ps l = Returns (Inr qs, l')" and "q \<in> set qs"
  shows "q \<in> set ps \<and> (\<forall>H \<in> set Hs. H cr q l')"
  using assms
proof (induction preds Hs arbitrary: ps l rule: list_all2_induct)
  case Nil
  then show ?case by (simp add: go_ret_def)
next
  case (Cons p preds H Hs)
  from Cons.prems(1) obtain ps1 l1 where p: "p cr ps l = Returns (Inr ps1, l1)"
    and rest: "run_predicates preds cr ps1 l1 = Returns (Inr qs, l')"
    by (auto simp: go_bind_sum_Inr)
  obtain m where "l' = l1 @ m"
    using run_predicates_extends [OF Cons.hyps(2), of cr ps1 l1] rest by auto
  with Cons.IH [OF rest Cons.prems(2)] policy_predicate.sound [OF Cons.hyps(1) p]
    policy_predicate.sound_later [OF Cons.hyps(1) p] show ?case by auto
qed

text \<open>What the log and the policy show of a policy that passed all predicates.\<close>

definition applies ::
  "('u, 'e, 'a, 'p) extern \<Rightarrow> api \<Rightarrow> CertificateRequest \<Rightarrow> CertificateRequestPolicy \<Rightarrow>
   api_call list \<Rightarrow> bool" where
  "applies x a cr policy l \<longleftrightarrow>
     is_ready policy \<and> issuer_selects cr policy \<and> ns_holds x a cr policy l \<and>
     told_bound a l cr policy"

lemma New_predicates:
  "list_all2 policy_predicate (m_predicates (New x a evs))
     [\<lambda>cr p l. is_ready p, \<lambda>cr p l. issuer_selects cr p, ns_holds x a, \<lambda>cr p l. told_bound a l cr p]"
  by (simp add: New_def ready_pred.policy_predicate_axioms issuer_pred.policy_predicate_axioms
      namespace_pred.policy_predicate_axioms rbac_pred.policy_predicate_axioms)

lemma New_applies:
  assumes "run_predicates (m_predicates (New x a evs)) cr ps l = Returns (Inr qs, l')"
    and "q \<in> set qs"
  shows "q \<in> set ps \<and> applies x a cr q l'"
  using run_predicates_sound [OF New_predicates assms] by (simp add: applies_def)

section \<open>Running the evaluators\<close>

text \<open>How a review of the policies \<open>ps\<close> ends: with an error only if one of them is not
  \<open>evaluable\<close>; approved by the first one that is \<open>ok\<close>; denied if none is, and then the message
  has an entry for each.\<close>

definition review_result ::
  "('u, 'e, 'a, 'p) extern \<Rightarrow> (CertificateRequestPolicy \<Rightarrow> bool) \<Rightarrow> (CertificateRequestPolicy \<Rightarrow> bool) \<Rightarrow>
   CertificateRequestPolicy list \<Rightarrow> policyMessage list \<Rightarrow> goerr + ReviewResponse \<Rightarrow> bool" where
  "review_result x ok evaluable ps pms r \<longleftrightarrow>
     (case r of
        Inl e \<Rightarrow> \<exists>p \<in> set ps. \<not> evaluable p
      | Inr resp \<Rightarrow>
          (\<exists>before p after. ps = before @ p # after \<and> ok p \<and> (\<forall>q \<in> set before. \<not> ok q) \<and>
             resp = approved_response x p) \<or>
          ((\<forall>p \<in> set ps. \<not> ok p) \<and>
           (\<exists>new. map pm_name new = map p_Name ps \<and> resp = denied_response (pms @ new))))"

lemma review_result_Cons:
  assumes "review_result x ok evaluable ps (pms @ [pm]) r" and "\<not> ok p" and "pm_name pm = p_Name p"
  shows "review_result x ok evaluable (p # ps) pms r"
proof (cases r)
  case (Inl e)
  with assms show ?thesis by (auto simp: review_result_def)
next
  case (Inr resp)
  with assms(1) consider
    (later) before q after where "ps = before @ q # after" "ok q" "\<forall>q \<in> set before. \<not> ok q"
      "resp = approved_response x q"
    | (none) new where "\<forall>p \<in> set ps. \<not> ok p" "map pm_name new = map p_Name ps"
      "resp = denied_response ((pms @ [pm]) @ new)"
    by (auto simp: review_result_def)
  then show ?thesis
  proof cases
    case later
    with Inr assms(2) show ?thesis
      by (auto simp: review_result_def intro!: exI [of _ "p # before"])
  next
    case none
    with Inr assms(2,3) show ?thesis
      by (auto simp: review_result_def intro!: exI [of _ "pm # new"])
  qed
qed

text \<open>What a list of evaluators promises the manager for one request: run against a policy they
  return, with an error only if the policy is not \<open>evaluable\<close>, and otherwise deny exactly if the
  policy is not \<open>ok\<close>.\<close>

locale policy_evaluators =
  fixes evaluators :: "'s evaluate_fn list"
    and good :: "'s \<Rightarrow> bool"
    and request :: CertificateRequest
    and ok :: "CertificateRequestPolicy \<Rightarrow> bool"
    and evaluable :: "CertificateRequestPolicy \<Rightarrow> bool"
  assumes runs: "good s \<Longrightarrow>
    \<exists>r s'. run_evaluators evaluators p request False [] s = Returns (r, s') \<and> good s' \<and>
           (\<forall>d ms. r = Inr (d, ms) \<longrightarrow> (d \<longleftrightarrow> \<not> ok p)) \<and> (\<forall>e. r = Inl e \<longrightarrow> \<not> evaluable p)"
begin

lemma review_policies_result:
  assumes "good s"
  shows "\<exists>r s'. review_policies x evaluators request ps pms s = Returns (r, s') \<and> good s' \<and>
                review_result x ok evaluable ps pms r"
  using assms
proof (induction ps arbitrary: pms s)
  case Nil
  then show ?case by (auto simp: go_ret_def review_result_def)
next
  case (Cons p ps)
  from runs [OF Cons.prems] obtain r s1 where
    run: "run_evaluators evaluators p request False [] s = Returns (r, s1)" "good s1"
    and r: "\<And>d ms. r = Inr (d, ms) \<Longrightarrow> d \<longleftrightarrow> \<not> ok p" "\<And>e. r = Inl e \<Longrightarrow> \<not> evaluable p"
    by blast
  consider (err) e where "r = Inl e" | (approved) ms where "r = Inr (False, ms)"
    | (denied) ms where "r = Inr (True, ms)"
    by (cases r) auto
  then show ?case
  proof cases
    case err
    with run r(2) show ?thesis by (auto simp: go_bind_def go_ret_def review_result_def)
  next
    case approved
    with run r(1) [OF approved] show ?thesis
      by (auto simp: go_bind_def go_ret_def review_result_def intro!: exI [of _ "[]"])
  next
    case denied
    let ?pm = "\<lparr>pm_name = p_Name p, pm_message = Join ms '', ''\<rparr>"
    from Cons.IH [OF run(2), of "pms @ [?pm]"] obtain r' s' where
      "review_policies x evaluators request ps (pms @ [?pm]) s1 = Returns (r', s')" "good s'"
      "review_result x ok evaluable ps (pms @ [?pm]) r'" by blast
    with denied run(1) r(1) [OF denied] review_result_Cons [of x ok evaluable ps pms ?pm r' p]
    show ?thesis by (auto simp: go_bind_def)
  qed
qed

end

section \<open>The built-in approvers\<close>

text \<open>The packages of the two approvers store themselves in the shared registry when they are
  initialised, in the order of their import paths.\<close>

definition builtin_registry :: "('u, 'e, 'a, 'p) extern \<Rightarrow> 'p cache registry" where
  "builtin_registry x = [allowed_Approver x, constraints_Approver x]"

text \<open>A policy permits a request if the stanzas \<^verbatim>\<open>allowed\<close> and \<^verbatim>\<open>constraints\<close> both do; it can be
  evaluated if the bytes of the request decode and no constraint is put on a key of unknown type.\<close>

definition policy_permits ::
  "('u, 'e, 'a, 'p) extern \<Rightarrow> CertificateRequest \<Rightarrow> CertificateRequestPolicy \<Rightarrow> bool" where
  "policy_permits x request policy \<longleftrightarrow>
     (\<exists>csr. x_DecodeCSR x (cr_Request request) = Inr csr \<and>
            allowed_permits x request csr (policy_allowed policy) \<and>
            constraints_permit (Constraints (p_Spec policy)) request (csr_PublicKey csr))"

definition policy_evaluable ::
  "('u, 'e, 'a, 'p) extern \<Rightarrow> CertificateRequest \<Rightarrow> CertificateRequestPolicy \<Rightarrow> bool" where
  "policy_evaluable x request policy \<longleftrightarrow>
     (\<exists>csr. x_DecodeCSR x (cr_Request request) = Inr csr \<and>
            (key_constrained policy \<longrightarrow> (\<exists>k. decodePublicKey (csr_PublicKey csr) = Inr k)))"

definition builtin_good :: "('u, 'e, 'a, 'p) extern \<Rightarrow> 'p cache \<Rightarrow> bool" where
  "builtin_good x c \<longleftrightarrow> cache_ok x c \<and> cel_type_sound x \<and> ToAggregate_doc x"

lemma constraints_Evaluate_unreadable:
  assumes "x_DecodeCSR x (cr_Request request) = Inr csr" and "key_constrained policy"
    and "decodePublicKey (csr_PublicKey csr) = Inl e"
  shows "constraints_Evaluate x policy request s = Returns (Inl e, s)"
  using assms by (auto simp: key_constrained_def constraints_Evaluate_def Let_def go_ret_def)

lemma builtin_runs:
  assumes "builtin_good x c"
  shows "\<exists>r c'. run_evaluators (Evaluators (builtin_registry x)) p request False [] c =
      Returns (r, c') \<and> builtin_good x c' \<and>
      (\<forall>d ms. r = Inr (d, ms) \<longrightarrow> (d \<longleftrightarrow> \<not> policy_permits x request p)) \<and>
      (\<forall>e. r = Inl e \<longrightarrow> \<not> policy_evaluable x request p)"
proof (cases "x_DecodeCSR x (cr_Request request)")
  case (Inl e)
  with assms show ?thesis
    by (auto simp: Evaluators_def builtin_registry_def allowed_Approver_def allowed_Evaluate_def
        go_bind_def go_ret_def policy_evaluable_def)
next
  case (Inr csr)
  from assms have good: "cel_type_sound x" "ToAggregate_doc x" "cache_ok x c"
    by (simp_all add: builtin_good_def)
  from allowed_Evaluate_result [OF good Inr, of p] obtain ra c'
    where ra: "allowed_Evaluate x p request c = Returns (Inr ra, c')" "cache_ok x c'"
      "er_Result ra \<longleftrightarrow> allowed_permits x request csr (policy_allowed p)" by blast
  have c': "builtin_good x c'" using ra(2) good by (simp add: builtin_good_def)
  show ?thesis
  proof (cases "policy_evaluable x request p")
    case True
    then obtain k where k: "key_constrained p \<Longrightarrow> decodePublicKey (csr_PublicKey csr) = Inr k"
      using Inr by (auto simp: policy_evaluable_def)
    from constraints_Evaluate_result [of x request csr p k c', OF good(2) Inr] k obtain rc where "constraints_Evaluate x p request c' = Returns (Inr rc, c')"
      "er_Result rc \<longleftrightarrow> constraints_permit (Constraints (p_Spec p)) request (csr_PublicKey csr)"
      by auto
    with ra(1,3) c' Inr show ?thesis
      by (auto simp: Evaluators_def builtin_registry_def allowed_Approver_def
          constraints_Approver_def go_bind_def go_ret_def policy_permits_def)
  next
    case False
    then obtain e where e: "key_constrained p" "decodePublicKey (csr_PublicKey csr) = Inl e"
      using Inr by (cases "decodePublicKey (csr_PublicKey csr)") (auto simp: policy_evaluable_def)
    have "constraints_Evaluate x p request c' = Returns (Inl e, c')"
      by (rule constraints_Evaluate_unreadable [OF Inr e])
    with ra(1) c' False show ?thesis
      by (auto simp: Evaluators_def builtin_registry_def allowed_Approver_def
          constraints_Approver_def go_bind_def go_ret_def)
  qed
qed

interpretation builtin: policy_evaluators
  "Evaluators (builtin_registry x)" "builtin_good x" request
  "policy_permits x request" "policy_evaluable x request"
  for x request
  by unfold_locales (rule builtin_runs)

section \<open>A whole review\<close>

text \<open>The policies a review considers: listed, then filtered.\<close>

definition selected ::
  "'s mngr \<Rightarrow> CertificateRequest \<Rightarrow> (api_call list, goerr + CertificateRequestPolicy list) go" where
  "selected m cr =
     go_bind (List_policies (m_lister m)) (\<lambda>r.
       case r of
         Inl err \<Rightarrow> go_ret (Inl err)
       | Inr items \<Rightarrow> run_predicates (m_predicates m) cr items)"

lemma New_none: "run_predicates (m_predicates (New x a evs)) cr [] l = Returns (Inr [], l)"
  by (simp add: New_def Ready_def SelectorIssuerRef_def SelectorNamespace_pred_def RBACBound_def
      go_bind_def go_ret_def)

lemma Review_selected:
  assumes "selected (New x a evs) cr l = Returns (r, l')"
  shows "Review x (New x a evs) cr (s, l) =
    (case r of
       Inl e \<Rightarrow> Returns (Inl e, (s, l'))
     | Inr ps \<Rightarrow>
         if ps = [] then
           Returns (Inr \<lparr>rv_Result = ReviewUnprocessed, rv_Message =
             (if api_List a l = Inr [] then ''No CertificateRequestPolicies exist''
              else ''No CertificateRequestPolicies bound or applicable'')\<rparr>, (s, l'))
         else go_fst (review_policies x evs cr ps []) (s, l'))"
proof -
  have m: "m_lister (New x a evs) = a" "m_evaluators (New x a evs) = evs" by (simp_all add: New_def)
  show ?thesis
  proof (cases "api_List a l")
  case (Inl e)
  with assms have "r = Inl e" "l' = l @ [ListPolicies]"
    by (simp_all add: selected_def m List_policies_def go_bind_def go_ret_def)
  with Inl show ?thesis
    by (simp add: Review_def m List_policies_def go_bind_def go_ret_def go_snd_def)
next
  case (Inr items)
  let ?run = "run_predicates (m_predicates (New x a evs)) cr items (l @ [ListPolicies])"
  have run: "?run = Returns (r, l')"
    using assms Inr by (simp add: selected_def m List_policies_def go_bind_def)
  show ?thesis
  proof (cases "items = []")
    case True
    with run have "r = Inr []" "l' = l @ [ListPolicies]" by (simp_all add: New_none)
    with True Inr show ?thesis
      by (simp add: Review_def m List_policies_def go_bind_def go_ret_def go_snd_def)
  next
    case False
    with run Inr show ?thesis
      by (cases r) (auto simp: Review_def m List_policies_def go_bind_def go_ret_def go_snd_def)
  qed
qed
qed

lemma selected_returns: "\<exists>r m. selected (New x a evs) cr l = Returns (r, l @ m)"
proof (cases "api_List a l")
  case (Inl e)
  then show ?thesis
    by (simp add: selected_def New_def List_policies_def go_bind_def go_ret_def)
next
  case (Inr items)
  with run_predicates_extends [OF New_predicates, of x a evs cr items "l @ [ListPolicies]"]
  show ?thesis
    by (auto simp: selected_def New_def List_policies_def go_bind_def)
qed

lemma selected_applies:
  assumes "selected (New x a evs) cr l = Returns (Inr ps, l')" and "p \<in> set ps"
  shows "\<exists>items. api_List a l = Inr items \<and> p \<in> set items \<and> applies x a cr p l'"
proof -
  from assms(1) obtain items where "api_List a l = Inr items"
    "run_predicates (m_predicates (New x a evs)) cr items (l @ [ListPolicies]) = Returns (Inr ps, l')"
    unfolding selected_def go_bind_sum_Inr by (auto simp: List_policies_def New_def)
  with New_applies [OF _ assms(2)] show ?thesis by blast
qed

section \<open>Properties\<close>

text \<open>The manager with the built-in evaluators, from a good cache: every ending of a review.\<close>

lemma Review_builtin:
  assumes "builtin_good x c"
    and "selected (New x a (Evaluators (builtin_registry x))) cr l = Returns (r, l')"
  shows "\<exists>q c'. Review x (New x a (Evaluators (builtin_registry x))) cr (c, l) =
      Returns (q, (c', l')) \<and> builtin_good x c' \<and>
    (case r of
       Inl e \<Rightarrow> q = Inl e
     | Inr ps \<Rightarrow>
         if ps = [] then (\<exists>msg. q = Inr \<lparr>rv_Result = ReviewUnprocessed, rv_Message = msg\<rparr>)
         else review_result x (policy_permits x cr) (policy_evaluable x cr) ps [] q)"
proof (cases r)
  case (Inl e)
  with assms show ?thesis by (simp add: Review_selected)
next
  case (Inr ps)
  show ?thesis
  proof (cases "ps = []")
    case True
    with assms Inr show ?thesis by (simp add: Review_selected)
  next
    case False
    from builtin.review_policies_result [OF assms(1), of x cr ps "[]"] obtain q c' where
      "review_policies x (Evaluators (builtin_registry x)) cr ps [] c = Returns (q, c')"
      "builtin_good x c'" "review_result x (policy_permits x cr) (policy_evaluable x cr) ps [] q"
      by blast
    with False Inr assms(2) show ?thesis by (simp add: Review_selected go_fst_def)
  qed
qed

lemma response_results [simp]:
  "rv_Result (approved_response x p) = ReviewApproved" "rv_Result (denied_response pms) = ReviewDenied"
  by (simp_all add: approved_response_def denied_response_def Let_def)

lemma Review_Approved_policy:
  assumes "cel_type_sound x" and "ToAggregate_doc x" and "cache_ok x c"
    and "Review x (New x a (Evaluators (builtin_registry x))) cr (c, l) = Returns (Inr resp, (c', l'))"
    and "rv_Result resp = ReviewApproved"
  shows "\<exists>items policy csr. api_List a l = Inr items \<and> policy \<in> set items \<and>
     rv_Message resp = ''Approved by CertificateRequestPolicy: '' @ x_Quote x (p_Name policy) \<and>
     is_ready policy \<and> issuer_selects cr policy \<and> ns_holds x a cr policy l' \<and>
     told_bound a l' cr policy \<and>
     x_DecodeCSR x (cr_Request cr) = Inr csr \<and>
     allowed_permits x cr csr (policy_allowed policy) \<and>
     constraints_permit (Constraints (p_Spec policy)) cr (csr_PublicKey csr)"
proof -
  have good: "builtin_good x c" using assms(1-3) by (simp add: builtin_good_def)
  obtain r l1 where sel: "selected (New x a (Evaluators (builtin_registry x))) cr l = Returns (r, l1)"
    using selected_returns [of x a] by blast
  from Review_builtin [OF good sel] assms(4,5) obtain ps before p after
    where r: "r = Inr ps" and l: "l1 = l'" and ps: "ps = before @ p # after"
      and p: "policy_permits x cr p" "resp = approved_response x p"
    by (auto simp: review_result_def split: sum.split_asm if_splits)
  from sel r l have "selected (New x a (Evaluators (builtin_registry x))) cr l = Returns (Inr ps, l')"
    by simp
  from selected_applies [OF this, of p] ps obtain items
    where "api_List a l = Inr items" "p \<in> set items" "applies x a cr p l'" by auto
  with p show ?thesis
    by (auto simp: applies_def policy_permits_def approved_response_def)
qed

text \<open>C1: an approval is justified. Whenever the manager with the built-in evaluators approves a
  request, there is a policy, named in the message, that the API server listed, that is ready,
  that selects the request's issuer and namespace (with the labels the API server reported), that
  the API server said the user may use, and whose \<^verbatim>\<open>allowed\<close> and \<^verbatim>\<open>constraints\<close> stanzas permit
  everything the decoded signing request asks for.\<close>

theorem Review_Approved_justified:
  assumes "cel_type_sound x" and "ToAggregate_doc x" and "cache_ok x c"
    and "Review x (New x a (Evaluators (builtin_registry x))) cr (c, l) = Returns (Inr resp, (c', l'))"
    and "rv_Result resp = ReviewApproved"
  shows "\<exists>items policy csr. api_List a l = Inr items \<and> policy \<in> set items \<and>
     rv_Message resp = ''Approved by CertificateRequestPolicy: '' @ x_Quote x (p_Name policy) \<and>
     is_ready policy \<and> issuer_selects cr policy \<and> ns_holds x a cr policy l' \<and>
     told_bound a l' cr policy \<and>
     x_DecodeCSR x (cr_Request cr) = Inr csr \<and>
     allowed_permits x cr csr (policy_allowed policy) \<and>
     constraints_permit (Constraints (p_Spec policy)) cr (csr_PublicKey csr)"
  by (rule Review_Approved_policy [OF assms])

lemma sample_good: "builtin_good sample_extern NewCache"
  by (simp add: builtin_good_def sample_extern_doc cache_ok_empty)

lemma sample_selected:
  "selected (New sample_extern sample_api evs) sample_request [] =
     Returns (Inr [sample_policy], [ListPolicies, CreateSAR (sar_for sample_request sample_policy)])"
  by (simp add: selected_def New_def sample_api_def List_policies_def Ready_def
      SelectorIssuerRef_filter SelectorNamespace_pred_def RBACBound_def Create_sar_def go_bind_def
      go_ret_def ready_condition_def issuer_selects_def sample_policy_def sample_request_def
      wild_expands_refl sar_for_def keep_def go_map_def)

lemma sample_policy_permits: "policy_permits sample_extern sample_request sample_policy"
  unfolding policy_permits_def sample_policy_allowed
  by (intro exI [of _ sample_csr] conjI sample_decodes sample_permits)
    (simp add: constraints_permit_def sample_policy_def)

lemma sample_review:
  "\<exists>resp c'. Review sample_extern (New sample_extern sample_api
      (Evaluators (builtin_registry sample_extern))) sample_request (NewCache, []) =
      Returns (Inr resp, (c', [ListPolicies, CreateSAR (sar_for sample_request sample_policy)])) \<and>
    rv_Result resp = ReviewApproved"
proof -
  have "policy_evaluable sample_extern sample_request sample_policy"
    using sample_decodes by (simp add: policy_evaluable_def key_constrained_def sample_policy_def)
  moreover obtain q c' where "Review sample_extern (New sample_extern sample_api
      (Evaluators (builtin_registry sample_extern))) sample_request (NewCache, []) =
      Returns (q, (c', [ListPolicies, CreateSAR (sar_for sample_request sample_policy)]))"
    "review_result sample_extern (policy_permits sample_extern sample_request)
      (policy_evaluable sample_extern sample_request) [sample_policy] [] q"
    using Review_builtin [OF sample_good sample_selected] by auto
  ultimately show ?thesis
    using sample_policy_permits by (cases q) (auto simp: review_result_def Cons_eq_append_conv)
qed

theorem Review_Approved_justified_witness:
  "\<exists>policy. told_bound sample_api [ListPolicies, CreateSAR (sar_for sample_request sample_policy)]
       sample_request policy \<and>
     allowed_permits sample_extern sample_request sample_csr (policy_allowed policy)"
proof -
  obtain resp c' where r: "Review sample_extern (New sample_extern sample_api
      (Evaluators (builtin_registry sample_extern))) sample_request (NewCache, []) =
      Returns (Inr resp, (c', [ListPolicies, CreateSAR (sar_for sample_request sample_policy)]))"
    and a: "rv_Result resp = ReviewApproved" using sample_review by blast
  from Review_Approved_justified [OF sample_extern_doc(3,1) cache_ok_empty r a]
  show ?thesis by (auto simp: sample_decodes)
qed

text \<open>C3: a review decides. If listing and filtering return the policies \<open>ps\<close> and each of them can
  be evaluated, the review returns a response and no error: unprocessed exactly if \<open>ps\<close> is empty,
  approved exactly if some policy of \<open>ps\<close> permits the request, denied exactly if there are
  policies and none permits it. Evaluation makes no further calls to the API server.\<close>

theorem Review_decides:
  assumes "cel_type_sound x" and "ToAggregate_doc x" and "cache_ok x c"
    and "selected (New x a (Evaluators (builtin_registry x))) cr l = Returns (Inr ps, l')"
    and "\<And>p. p \<in> set ps \<Longrightarrow> policy_evaluable x cr p"
  shows "\<exists>resp c'. Review x (New x a (Evaluators (builtin_registry x))) cr (c, l) =
      Returns (Inr resp, (c', l')) \<and> cache_ok x c' \<and>
      (rv_Result resp = ReviewUnprocessed \<longleftrightarrow> ps = []) \<and>
      (rv_Result resp = ReviewApproved \<longleftrightarrow> (\<exists>p \<in> set ps. policy_permits x cr p)) \<and>
      (rv_Result resp = ReviewDenied \<longleftrightarrow> ps \<noteq> [] \<and> \<not> (\<exists>p \<in> set ps. policy_permits x cr p))"
proof -
  have good: "builtin_good x c" using assms(1-3) by (simp add: builtin_good_def)
  from Review_builtin [OF good assms(4)] obtain q c' where
    run: "Review x (New x a (Evaluators (builtin_registry x))) cr (c, l) = Returns (q, (c', l'))"
    "cache_ok x c'" and q: "if ps = [] then \<exists>msg. q = Inr \<lparr>rv_Result = ReviewUnprocessed, rv_Message = msg\<rparr>
       else review_result x (policy_permits x cr) (policy_evaluable x cr) ps [] q"
    by (auto simp: builtin_good_def)
  show ?thesis
  proof (cases "ps = []")
    case True
    with run q show ?thesis by auto
  next
    case False
    with q assms(5) obtain resp where resp: "q = Inr resp"
      by (cases q) (auto simp: review_result_def)
    with False q have "(\<exists>p. p \<in> set ps \<and> policy_permits x cr p \<and> resp = approved_response x p) \<or>
      ((\<forall>p \<in> set ps. \<not> policy_permits x cr p) \<and> (\<exists>pms. resp = denied_response pms))"
      by (auto simp: review_result_def)
    then show ?thesis
      using run resp False by auto
  qed
qed

theorem Review_decides_witness:
  "\<exists>resp c' l'. Review sample_extern (New sample_extern sample_api
      (Evaluators (builtin_registry sample_extern))) sample_request (NewCache, []) =
      Returns (Inr resp, (c', l')) \<and> rv_Result resp = ReviewApproved"
proof -
  have "policy_evaluable sample_extern sample_request p" if "p \<in> set [sample_policy]" for p
    using that sample_decodes by (simp add: policy_evaluable_def key_constrained_def sample_policy_def)
  from Review_decides [OF sample_extern_doc(3,1) cache_ok_empty sample_selected this]
  show ?thesis using sample_policy_permits by auto
qed

text \<open>C13: a review never panics, and it returns an error only if listing or a predicate does, and
  then that error, or if some selected policy cannot be evaluated; an error leaves the request
  neither approved nor denied. On every path the cache stays good and the calls already made stay
  in the log.\<close>

theorem Review_errors:
  assumes "cel_type_sound x" and "ToAggregate_doc x" and "cache_ok x c"
  shows "\<exists>q c' m. Review x (New x a (Evaluators (builtin_registry x))) cr (c, l) =
      Returns (q, (c', l @ m)) \<and> cache_ok x c' \<and>
      (\<forall>e. q = Inl e \<longrightarrow>
         selected (New x a (Evaluators (builtin_registry x))) cr l = Returns (Inl e, l @ m) \<or>
         (\<exists>ps. selected (New x a (Evaluators (builtin_registry x))) cr l = Returns (Inr ps, l @ m) \<and>
               (\<exists>p \<in> set ps. \<not> policy_evaluable x cr p)))"
proof -
  have good: "builtin_good x c" using assms by (simp add: builtin_good_def)
  obtain r m where sel: "selected (New x a (Evaluators (builtin_registry x))) cr l = Returns (r, l @ m)"
    using selected_returns by blast
  from Review_builtin [OF good sel] obtain q c' where
    run: "Review x (New x a (Evaluators (builtin_registry x))) cr (c, l) = Returns (q, (c', l @ m))"
    "cache_ok x c'" and q: "case r of Inl e \<Rightarrow> q = Inl e
     | Inr ps \<Rightarrow>
         if ps = [] then (\<exists>msg. q = Inr \<lparr>rv_Result = ReviewUnprocessed, rv_Message = msg\<rparr>)
         else review_result x (policy_permits x cr) (policy_evaluable x cr) ps [] q"
    by (auto simp: builtin_good_def)
  then show ?thesis
    using sel by (cases r) (auto simp: review_result_def split: if_splits)
qed

theorem Review_errors_witness:
  "\<exists>q c' m. Review sample_extern (New sample_extern sample_api
      (Evaluators (builtin_registry sample_extern))) sample_request (NewCache, []) =
      Returns (q, (c', m)) \<and> cache_ok sample_extern c'"
  using Review_errors [OF sample_extern_doc(3,1) cache_ok_empty, of sample_api sample_request "[]"]
  by auto

text \<open>C29: a denial accounts for every policy. Its message has one entry per selected policy, in
  the order of the policy names.\<close>

theorem Review_Denied_message:
  assumes "cel_type_sound x" and "ToAggregate_doc x" and "cache_ok x c"
    and "selected (New x a (Evaluators (builtin_registry x))) cr l = Returns (Inr ps, l')"
    and "Review x (New x a (Evaluators (builtin_registry x))) cr (c, l) = Returns (Inr resp, s)"
    and "rv_Result resp = ReviewDenied"
  shows "\<exists>pms :: policyMessage list. mset (map pm_name pms) = mset (map p_Name ps) \<and> sorted_by pm_name pms \<and>
     rv_Message resp = ''No policy approved this request: '' @
       Join (map (\<lambda>pm. ''['' @ pm_name pm @ '': '' @ pm_message pm @ '']'') pms) '' ''"
proof -
  have good: "builtin_good x c" using assms(1-3) by (simp add: builtin_good_def)
  from Review_builtin [OF good assms(4)] assms(5,6) obtain pms :: "policyMessage list"
    where pms: "map pm_name pms = map p_Name ps" "resp = denied_response pms"
    by (auto simp: review_result_def split: if_splits)
  have "mset (map pm_name (sort_by pm_name pms)) = mset (map p_Name ps)"
    using pms(1) by (metis mset_map mset_sort_by)
  then show ?thesis
    using pms(2) by (intro exI [of _ "sort_by pm_name pms"])
      (simp add: denied_response_def Let_def sorted_sort_by)
qed

text \<open>A request for a CA certificate, which \<open>sample_policy\<close> does not allow.\<close>

definition greedy_request :: CertificateRequest where
  "greedy_request = sample_request\<lparr>cr_IsCA := True\<rparr>"

lemma greedy_selected:
  "selected (New sample_extern sample_api evs) greedy_request [] =
     Returns (Inr [sample_policy], [ListPolicies, CreateSAR (sar_for greedy_request sample_policy)])"
  by (simp add: selected_def New_def sample_api_def List_policies_def Ready_def
      SelectorIssuerRef_filter SelectorNamespace_pred_def RBACBound_def Create_sar_def go_bind_def
      go_ret_def ready_condition_def issuer_selects_def sample_policy_def sample_request_def
      greedy_request_def wild_expands_refl sar_for_def keep_def go_map_def)

lemma greedy_denied:
  "\<exists>resp s. Review sample_extern (New sample_extern sample_api
      (Evaluators (builtin_registry sample_extern))) greedy_request (NewCache, []) =
      Returns (Inr resp, s) \<and> rv_Result resp = ReviewDenied"
proof -
  have dec: "x_DecodeCSR sample_extern (cr_Request greedy_request) = Inr sample_csr"
    by (simp add: greedy_request_def sample_decodes)
  then have "policy_evaluable sample_extern greedy_request sample_policy"
    by (simp add: policy_evaluable_def key_constrained_def sample_policy_def)
  moreover have "\<not> policy_permits sample_extern greedy_request sample_policy"
    by (simp add: policy_permits_def allowed_permits_def greedy_request_def policy_allowed_def
        sample_policy_def sample_allowed_def empty_allowed_def)
  moreover obtain q s where "Review sample_extern (New sample_extern sample_api
      (Evaluators (builtin_registry sample_extern))) greedy_request (NewCache, []) = Returns (q, s)"
    "review_result sample_extern (policy_permits sample_extern greedy_request)
      (policy_evaluable sample_extern greedy_request) [sample_policy] [] q"
    using Review_builtin [OF sample_good greedy_selected] by auto
  ultimately show ?thesis
    by (cases q) (auto simp: review_result_def Cons_eq_append_conv)
qed

theorem Review_Denied_message_witness:
  "\<exists>resp s msg. Review sample_extern (New sample_extern sample_api
      (Evaluators (builtin_registry sample_extern))) greedy_request (NewCache, []) = Returns (Inr resp, s) \<and>
     rv_Message resp = ''No policy approved this request: '' @ ''[web: '' @ msg @ '']''"
proof -
  obtain resp s where r: "Review sample_extern (New sample_extern sample_api
      (Evaluators (builtin_registry sample_extern))) greedy_request (NewCache, []) = Returns (Inr resp, s)"
    and d: "rv_Result resp = ReviewDenied" using greedy_denied by blast
  from Review_Denied_message [OF sample_extern_doc(3,1) cache_ok_empty greedy_selected r d]
  obtain pms :: "policyMessage list" where pms: "mset (map pm_name pms) = {#''web''#}"
    and msg: "rv_Message resp = ''No policy approved this request: '' @
       Join (map (\<lambda>pm. ''['' @ pm_name pm @ '': '' @ pm_message pm @ '']'') pms) '' ''"
    by (auto simp: sample_policy_def)
  from pms obtain pm where "pms = [pm]" "pm_name pm = ''web''"
    by (cases pms; cases "tl pms") auto
  with r msg show ?thesis by (auto intro!: exI)
qed

end
