(* ===== verification/AP_Webhook.thy ===== *)
theory AP_Webhook
  imports AP_Review
begin

text \<open>
  The validating admission webhook (\<^verbatim>\<open>pkg/internal/webhook\<close>). A policy is admitted if it names
  only registered plugins, has a selector whose labels parse, and every approver's webhook allows
  it. \<open>policy_admissible\<close> says what that means for the built-in approvers.
\<close>

section \<open>The validator\<close>

text \<open>A \<^verbatim>\<open>runtime.Object\<close>: a policy, or an object of another type, by the name of its type.\<close>

datatype runtime_object = PolicyObject CertificateRequestPolicy | OtherObject string

type_synonym 's validate_fn =
  "CertificateRequestPolicy \<Rightarrow> ('s, goerr + WebhookValidationResponse) go"

record 's webhook_validator =
  wh_registeredPlugins :: "string list"
  wh_webhooks :: "'s validate_fn list"

text \<open>The loop over \<^verbatim>\<open>policy.Spec.Plugins\<close>; the association list is one iteration order of the
  map.\<close>

definition unrecognisedNames :: "string list \<Rightarrow> CertificateRequestPolicy \<Rightarrow> string list" where
  "unrecognisedNames registered policy =
     filter (\<lambda>name. \<not> (\<exists>known \<in> set registered. name = known)) (map fst (Plugins (p_Spec policy)))"

definition plugin_errors :: "string list \<Rightarrow> CertificateRequestPolicy \<Rightarrow> path \<Rightarrow> field_error list" where
  "plugin_errors registered policy fldPath =
     map (\<lambda>name. FNotSupported (Child fldPath ''plugins'') name registered)
       (sort_by (\<lambda>name. name) (unrecognisedNames registered policy))"

definition selector_errors ::
  "('u, 'e, 'a, 'p) extern \<Rightarrow> CertificateRequestPolicy \<Rightarrow> path \<Rightarrow> field_error list" where
  "selector_errors x policy fldPath =
     (if sel_IssuerRef (Selector (p_Spec policy)) = None \<and>
         sel_Namespace (Selector (p_Spec policy)) = None
      then [FRequired (Child fldPath ''selector'')
              (''one of issuerRef or namespace must be defined, hint: '' @ [CHR 0x60] @ ''{}'' @
               [CHR 0x60] @ '' on either matches everything'')]
      else []) @
     (case sel_Namespace (Selector (p_Spec policy)) of
        None \<Rightarrow> []
      | Some nsSel \<Rightarrow>
          (case MatchLabels nsSel of
             None \<Rightarrow> []
           | Some matchLabels \<Rightarrow>
               if length matchLabels > 0 then
                 (case x_LabelSelector x matchLabels of
                    Inl err \<Rightarrow>
                      [FInvalid (Child (Child (Child fldPath ''selector'') ''namespace'') ''matchLabels'')
                         (VLabels matchLabels) (errText err)]
                  | Inr _ \<Rightarrow> [])
               else []))"

text \<open>The loop over the webhooks, with \<open>allAllowed\<close>, \<open>fieldErrs\<close> and \<open>warnings\<close>.\<close>

primrec run_webhooks ::
  "'s validate_fn list \<Rightarrow> CertificateRequestPolicy \<Rightarrow> bool \<Rightarrow> field_error list \<Rightarrow> string list \<Rightarrow>
   ('s, goerr + bool \<times> field_error list \<times> string list) go" where
  "run_webhooks [] policy allAllowed fieldErrs warnings =
     go_ret (Inr (allAllowed, fieldErrs, warnings))"
| "run_webhooks (webhook # webhooks) policy allAllowed fieldErrs warnings =
     go_bind (webhook policy) (\<lambda>r.
       case r of
         Inl err \<Rightarrow> go_ret (Inl err)
       | Inr response \<Rightarrow>
           run_webhooks webhooks policy
             (if \<not> wv_Allowed response then False else allAllowed)
             (if \<not> wv_Allowed response then fieldErrs @ wv_Errors response else fieldErrs)
             (warnings @ wv_Warnings response))"

definition unknown_reasons :: goerr where
  "unknown_reasons =
     ErrNew ''a plugin did not allow the CertificateRequest for unknown reasons''"

text \<open>The errors a validation ends with, from what the loops collected.\<close>

definition final_errors ::
  "('u, 'e, 'a, 'p) extern \<Rightarrow> bool \<Rightarrow> field_error list \<Rightarrow> goerr list" where
  "final_errors x allAllowed fieldErrs =
     (let errs = (case x_ToAggregate x fieldErrs of None \<Rightarrow> [] | Some es \<Rightarrow> es)
      in if \<not> allAllowed \<and> length errs = 0 then errs @ [unknown_reasons] else errs)"

text \<open>\<^verbatim>\<open>validate\<close> returns warnings and an error, \<open>None\<close> for nil.\<close>

definition validate ::
  "('u, 'e, 'a, 'p) extern \<Rightarrow> 's webhook_validator \<Rightarrow> runtime_object \<Rightarrow>
   ('s, string list \<times> goerr option) go" where
  "validate x v obj =
     (case obj of
        OtherObject t \<Rightarrow>
          go_ret ([], Some (ErrNew (''expected a CertificateRequestPolicy, but got a '' @ t)))
      | PolicyObject policy \<Rightarrow>
          (let fldPath = NewPath [''spec''];
               fieldErrs = plugin_errors (wh_registeredPlugins v) policy fldPath @
                           selector_errors x policy fldPath
           in go_bind (run_webhooks (wh_webhooks v) policy True fieldErrs []) (\<lambda>r.
                case r of
                  Inl err \<Rightarrow> go_ret ([], Some err)
                | Inr (allAllowed, fieldErrs, warnings) \<Rightarrow>
                    go_ret (warnings, x_NewAggregate x (map Some (final_errors x allAllowed fieldErrs))))))"

definition ValidateCreate ::
  "('u, 'e, 'a, 'p) extern \<Rightarrow> 's webhook_validator \<Rightarrow> runtime_object \<Rightarrow>
   ('s, string list \<times> goerr option) go" where
  "ValidateCreate x v obj = validate x v obj"

definition ValidateUpdate ::
  "('u, 'e, 'a, 'p) extern \<Rightarrow> 's webhook_validator \<Rightarrow> runtime_object \<Rightarrow> runtime_object \<Rightarrow>
   ('s, string list \<times> goerr option) go" where
  "ValidateUpdate x v oldObj newObj = validate x v newObj"

definition ValidateDelete ::
  "'s webhook_validator \<Rightarrow> runtime_object \<Rightarrow> ('s, string list \<times> goerr option) go" where
  "ValidateDelete v obj = go_ret ([], None)"

section \<open>Registration\<close>

text \<open>Every approver but the two built-in ones is a plugin a policy may name. What the manager
  answers to the registration of the endpoints and of the readiness check are parameters.\<close>

definition registeredPlugins :: "'s registry \<Rightarrow> string list" where
  "registeredPlugins shared =
     filter (\<lambda>name. name \<noteq> ''allowed'' \<and> name \<noteq> ''constraints'') (map a_Name (Approvers shared))"

definition Register ::
  "'s registry \<Rightarrow> 's validate_fn list \<Rightarrow> ('s webhook_validator \<Rightarrow> goerr option) \<Rightarrow> goerr option \<Rightarrow>
   goerr + 's webhook_validator" where
  "Register shared webhooks complete addReadyzCheck =
     (let v = \<lparr>wh_registeredPlugins = registeredPlugins shared, wh_webhooks = webhooks\<rparr>
      in case complete v of
           Some err \<Rightarrow> Inl (ErrNew (''error registering webhook: '' @ errText err))
         | None \<Rightarrow>
             (case addReadyzCheck of
                Some err \<Rightarrow> Inl (ErrNew (''error adding readyz check: '' @ errText err))
              | None \<Rightarrow> Inr v))"

section \<open>What is admitted\<close>

definition plugins_known :: "string list \<Rightarrow> CertificateRequestPolicy \<Rightarrow> bool" where
  "plugins_known registered policy \<longleftrightarrow> fst ` set (Plugins (p_Spec policy)) \<subseteq> set registered"

definition selector_valid :: "('u, 'e, 'a, 'p) extern \<Rightarrow> CertificateRequestPolicy \<Rightarrow> bool" where
  "selector_valid x policy \<longleftrightarrow>
     (sel_IssuerRef (Selector (p_Spec policy)) \<noteq> None \<or> sel_Namespace (Selector (p_Spec policy)) \<noteq> None) \<and>
     (\<forall>sel ml. sel_Namespace (Selector (p_Spec policy)) = Some sel \<and> MatchLabels sel = Some ml \<and>
               ml \<noteq> [] \<longrightarrow> (\<exists>f. x_LabelSelector x ml = Inr f))"

definition policy_admissible ::
  "('u, 'e, 'a, 'p) extern \<Rightarrow> string list \<Rightarrow> CertificateRequestPolicy \<Rightarrow> bool" where
  "policy_admissible x registered policy \<longleftrightarrow>
     plugins_known registered policy \<and> selector_valid x policy \<and>
     (\<forall>a. Allowed (p_Spec policy) = Some a \<longrightarrow> allowed_valid x a) \<and>
     constraints_valid (Constraints (p_Spec policy))"

lemma plugin_errors_Nil: "plugin_errors registered policy p = [] \<longleftrightarrow> plugins_known registered policy"
  by (auto simp: plugin_errors_def unrecognisedNames_def plugins_known_def filter_empty_conv)

lemma selector_errors_Nil: "selector_errors x policy p = [] \<longleftrightarrow> selector_valid x policy"
proof (cases "sel_Namespace (Selector (p_Spec policy))")
  case None
  then show ?thesis by (simp add: selector_errors_def selector_valid_def)
next
  case (Some sel)
  show ?thesis
  proof (cases "MatchLabels sel")
    case None
    with Some show ?thesis by (simp add: selector_errors_def selector_valid_def)
  next
    case ml: (Some ml)
    with Some show ?thesis
      by (cases "x_LabelSelector x ml") (simp_all add: selector_errors_def selector_valid_def)
  qed
qed

lemma final_errors_Nil:
  assumes "ToAggregate_doc x"
  shows "final_errors x allAllowed es = [] \<longleftrightarrow> allAllowed \<and> es = []"
proof -
  have agg: "x_ToAggregate x es = None \<longleftrightarrow> es = []" "x_ToAggregate x es \<noteq> Some []"
    using assms [unfolded ToAggregate_doc_def, THEN spec, of es] by simp_all
  show ?thesis
  proof (cases "es = []")
    case True
    with agg(1) have "x_ToAggregate x es = None" by simp
    with True show ?thesis unfolding final_errors_def Let_def by simp
  next
    case False
    with agg obtain e rest where "x_ToAggregate x es = Some (e # rest)"
      by (metis neq_Nil_conv option.exhaust)
    with False show ?thesis unfolding final_errors_def Let_def by simp
  qed
qed

lemma NewAggregate_None:
  "NewAggregate_doc x \<Longrightarrow> x_NewAggregate x (map Some es) = None \<longleftrightarrow> es = []"
  by (cases es) (auto simp: NewAggregate_doc_def)

text \<open>What the webhooks of an approver list promise: each returns a response, and an allowed one
  exactly if \<open>ok\<close>; a good state stays good.\<close>

locale policy_webhook =
  fixes webhook :: "'s validate_fn" and good :: "'s \<Rightarrow> bool" and ok :: "CertificateRequestPolicy \<Rightarrow> bool"
  assumes responds: "good s \<Longrightarrow>
    \<exists>resp s'. webhook policy s = Returns (Inr resp, s') \<and> good s' \<and>
              (wv_Allowed resp \<longleftrightarrow> ok policy) \<and> wv_Warnings resp = []"

lemma run_webhooks_result:
  assumes "list_all2 (\<lambda>w ok. policy_webhook w good ok) ws oks" and "good s"
  shows "\<exists>all es' s'. run_webhooks ws policy allowed es warnings s =
      Returns (Inr (all, es @ es', warnings), s') \<and> good s' \<and>
      (all \<longleftrightarrow> allowed \<and> (\<forall>ok \<in> set oks. ok policy)) \<and> ((\<forall>ok \<in> set oks. ok policy) \<longrightarrow> es' = [])"
  using assms
proof (induction ws oks arbitrary: allowed es s rule: list_all2_induct)
  case Nil
  then show ?case by (simp add: go_ret_def)
next
  case (Cons w ws ok oks)
  from policy_webhook.responds [OF Cons.hyps(1) Cons.prems] obtain resp s1
    where w: "w policy s = Returns (Inr resp, s1)" "good s1" "wv_Allowed resp \<longleftrightarrow> ok policy"
      "wv_Warnings resp = []" by blast
  let ?allowed = "if \<not> wv_Allowed resp then False else allowed"
  let ?es = "if \<not> wv_Allowed resp then es @ wv_Errors resp else es"
  from Cons.IH [OF w(2), of ?allowed ?es] obtain all es' s' where
    "run_webhooks ws policy ?allowed ?es warnings s1 = Returns (Inr (all, ?es @ es', warnings), s')"
    "good s'" "all \<longleftrightarrow> ?allowed \<and> (\<forall>ok \<in> set oks. ok policy)"
    "(\<forall>ok \<in> set oks. ok policy) \<longrightarrow> es' = []" by blast
  moreover have "run_webhooks (w # ws) policy allowed es warnings s =
      run_webhooks ws policy ?allowed ?es warnings s1"
    using w(1,4) by (simp add: go_bind_def)
  ultimately show ?case using w(3) by (cases "ok policy") auto
qed

text \<open>The built-in webhooks keep that promise.\<close>

interpretation allowed_wh: policy_webhook "allowed_Validate x" "cache_ok x"
  "\<lambda>policy. \<forall>a. Allowed (p_Spec policy) = Some a \<longrightarrow> allowed_valid x a"
  for x
  by unfold_locales (use allowed_Validate_result in blast)

interpretation constraints_wh: policy_webhook constraints_Validate good
  "\<lambda>policy. constraints_valid (Constraints (p_Spec policy))"
  for good :: "'s \<Rightarrow> bool"
  by unfold_locales
    (auto simp: constraints_Validate_def go_ret_def Let_def constraints_valid_def
      privateKey_errors_Nil durations_errors_Nil split: option.splits)

lemma builtin_webhooks:
  "list_all2 (\<lambda>w ok. policy_webhook w (cache_ok x) ok) (Webhooks (builtin_registry x))
     [\<lambda>policy. \<forall>a. Allowed (p_Spec policy) = Some a \<longrightarrow> allowed_valid x a,
      \<lambda>policy. constraints_valid (Constraints (p_Spec policy))]"
  by (simp add: Webhooks_def builtin_registry_def allowed_Approver_def constraints_Approver_def
      allowed_wh.policy_webhook_axioms constraints_wh.policy_webhook_axioms)

section \<open>Properties\<close>

lemma validate_builtin_result:
  assumes "ToAggregate_doc x" and "NewAggregate_doc x" and "cache_ok x c"
  shows "\<exists>err c'. validate x \<lparr>wh_registeredPlugins = registered,
        wh_webhooks = Webhooks (builtin_registry x)\<rparr> (PolicyObject policy) c = Returns (([], err), c') \<and>
      cache_ok x c' \<and> (err = None \<longleftrightarrow> policy_admissible x registered policy)"
proof -
  let ?p = "NewPath [''spec'']"
  let ?es = "plugin_errors registered policy ?p @ selector_errors x policy ?p"
  let ?ok = "(\<forall>a. Allowed (p_Spec policy) = Some a \<longrightarrow> allowed_valid x a) \<and>
             constraints_valid (Constraints (p_Spec policy))"
  from run_webhooks_result [of "cache_ok x", OF builtin_webhooks assms(3), of policy True ?es "[]"]
  obtain all es' c' where run: "run_webhooks (Webhooks (builtin_registry x)) policy True ?es [] c =
      Returns (Inr (all, ?es @ es', []), c')" "cache_ok x c'" and all: "all \<longleftrightarrow> ?ok"
    and es': "?ok \<longrightarrow> es' = []" by auto
  have "final_errors x all (?es @ es') = [] \<longleftrightarrow> policy_admissible x registered policy"
    using all es'
    by (auto simp: final_errors_Nil [OF assms(1)] plugin_errors_Nil selector_errors_Nil
        policy_admissible_def)
  then show ?thesis
    using run by (simp add: validate_def Let_def go_bind_def go_ret_def NewAggregate_None [OF assms(2)])
qed

text \<open>C9: admission decides. On create and update the webhook with the built-in approvers returns
  no error exactly if the policy names only registered plugins, has a selector with parsing
  labels, every rule of its \<^verbatim>\<open>allowed\<close> stanza compiles, no attribute is required without allowed
  values, and its \<^verbatim>\<open>constraints\<close> are well formed; it never panics. The old object of an update does
  not matter, and a delete is always allowed.\<close>

theorem webhook_decides:
  assumes "ToAggregate_doc x" and "NewAggregate_doc x" and "cache_ok x c"
    and "v = \<lparr>wh_registeredPlugins = registered, wh_webhooks = Webhooks (builtin_registry x)\<rparr>"
  shows "\<exists>err c'. ValidateCreate x v (PolicyObject policy) c = Returns (([], err), c') \<and>
      ValidateUpdate x v old (PolicyObject policy) c = Returns (([], err), c') \<and>
      ValidateDelete v (PolicyObject policy) c = Returns (([], None), c) \<and>
      cache_ok x c' \<and> (err = None \<longleftrightarrow> policy_admissible x registered policy)"
proof -
  obtain err c' where "validate x v (PolicyObject policy) c = Returns (([], err), c')" "cache_ok x c'"
    "err = None \<longleftrightarrow> policy_admissible x registered policy"
    using validate_builtin_result [OF assms(1-3)] unfolding assms(4) by blast
  then show ?thesis
    unfolding ValidateCreate_def ValidateUpdate_def ValidateDelete_def go_ret_def by blast
qed

lemma sample_admissible: "policy_admissible sample_extern [] sample_policy"
proof -
  have "allowed_valid sample_extern sample_allowed"
    by (simp add: allowed_valid_def string_valid_def slice_valid_def rule_compiles_def
        new_entry_def compile_def sample_extern_def sample_allowed_def empty_allowed_def
        empty_subject_def)
  then show ?thesis
    by (simp add: policy_admissible_def plugins_known_def selector_valid_def constraints_valid_def
        sample_policy_def)
qed

theorem webhook_decides_witness:
  "\<exists>c'. ValidateCreate sample_extern \<lparr>wh_registeredPlugins = [],
      wh_webhooks = Webhooks (builtin_registry sample_extern)\<rparr> (PolicyObject sample_policy) NewCache =
      Returns (([], None), c')"
  using webhook_decides [OF sample_extern_doc(1,2) cache_ok_empty refl, of "[]" sample_policy]
    sample_admissible by auto

lemma run_webhooks_responses:
  "go_collect (map (\<lambda>w. w policy) ws) s = Returns (r, s') \<Longrightarrow>
   run_webhooks ws policy all es warnings s = Returns ((case r of
       Inl e \<Rightarrow> Inl e
     | Inr rs \<Rightarrow> Inr (all \<and> (\<forall>resp \<in> set rs. wv_Allowed resp),
          es @ concat (map (\<lambda>resp. if wv_Allowed resp then [] else wv_Errors resp) rs),
          warnings @ concat (map wv_Warnings rs))), s')"
proof (induction ws arbitrary: all es warnings s r)
  case Nil
  then show ?case by (auto simp: go_ret_def)
next
  case (Cons w ws)
  from Cons.prems have "go_collect (w policy # map (\<lambda>w. w policy) ws) s = Returns (r, s')" by simp
  then show ?case
  proof (cases rule: go_collect_Cons)
    case (error e)
    then show ?thesis by (simp add: go_bind_def go_ret_def)
  next
    case (answer resp s1 r')
    with Cons.IH [OF answer(2)] show ?thesis
      by (cases r'; cases "wv_Allowed resp") (simp_all add: go_bind_def)
  qed
qed

text \<open>C34: admission with arbitrary webhooks. If one of them fails, its error is returned. Otherwise
  all warnings are returned, and there is no error exactly if plugins and selector are in order
  and every webhook allowed the policy: one that does not allow it is never overruled, also if it
  gives no reason.\<close>

theorem webhook_unanimous:
  assumes "ToAggregate_doc x" and "NewAggregate_doc x"
    and "go_collect (map (\<lambda>w. w policy) (wh_webhooks v)) s = Returns (r, s')"
  shows "\<exists>warnings err. validate x v (PolicyObject policy) s = Returns ((warnings, err), s') \<and>
     (case r of
        Inl e \<Rightarrow> warnings = [] \<and> err = Some e
      | Inr rs \<Rightarrow> warnings = concat (map wv_Warnings rs) \<and>
          (err = None \<longleftrightarrow> plugins_known (wh_registeredPlugins v) policy \<and> selector_valid x policy \<and>
                         (\<forall>resp \<in> set rs. wv_Allowed resp)))"
proof (cases r)
  case (Inl e)
  with run_webhooks_responses [OF assms(3)] show ?thesis
    by (simp add: validate_def Let_def go_bind_def go_ret_def)
next
  case (Inr rs)
  let ?p = "NewPath [''spec'']"
  let ?es = "(plugin_errors (wh_registeredPlugins v) policy ?p @ selector_errors x policy ?p) @
     concat (map (\<lambda>resp. if wv_Allowed resp then [] else wv_Errors resp) rs)"
  let ?all = "\<forall>resp \<in> set rs. wv_Allowed resp"
  have "final_errors x ?all ?es = [] \<longleftrightarrow>
      plugins_known (wh_registeredPlugins v) policy \<and> selector_valid x policy \<and> ?all"
    by (auto simp: final_errors_Nil [OF assms(1)] plugin_errors_Nil selector_errors_Nil)
  then show ?thesis
    using run_webhooks_responses [OF assms(3), of True] Inr
    by (simp add: validate_def Let_def go_bind_def go_ret_def NewAggregate_None [OF assms(2)])
qed

theorem webhook_unanimous_witness:
  "\<exists>err. validate sample_extern \<lparr>wh_registeredPlugins = [], wh_webhooks =
       [\<lambda>_. go_ret (Inr \<lparr>wv_Allowed = False, wv_Errors = [], wv_Warnings = [''w'']\<rparr>)]\<rparr>
       (PolicyObject sample_policy) () = Returns (([''w''], Some err), ())"
proof -
  let ?ws = "[\<lambda>_. go_ret (Inr \<lparr>wv_Allowed = False, wv_Errors = [], wv_Warnings = [''w'']\<rparr>)]"
  let ?v = "\<lparr>wh_registeredPlugins = [], wh_webhooks = ?ws\<rparr>"
  have "go_collect (map (\<lambda>w. w sample_policy) (wh_webhooks ?v)) () =
      Returns (Inr [\<lparr>wv_Allowed = False, wv_Errors = [], wv_Warnings = [''w'']\<rparr>], ())"
    by (simp add: go_bind_def go_ret_def keep_def go_map_def)
  from webhook_unanimous [OF sample_extern_doc(1,2) this] show ?thesis by auto
qed

text \<open>The answer does not depend on the order in which Go iterates over the map of plugins:
  two policies that differ only in that order get the same warnings and the same error.\<close>

theorem webhook_plugin_order:
  assumes "mset plugins = mset plugins'"
  shows "validate x \<lparr>wh_registeredPlugins = registered, wh_webhooks = Webhooks (builtin_registry x)\<rparr>
      (PolicyObject (policy\<lparr>p_Spec := spec\<lparr>Plugins := plugins\<rparr>\<rparr>)) =
    validate x \<lparr>wh_registeredPlugins = registered, wh_webhooks = Webhooks (builtin_registry x)\<rparr>
      (PolicyObject (policy\<lparr>p_Spec := spec\<lparr>Plugins := plugins'\<rparr>\<rparr>))"
proof -
  have "mset (filter P (map fst plugins)) = mset (filter P (map fst plugins'))" for P
    using assms by (metis mset_filter mset_map)
  then have "plugin_errors registered (policy\<lparr>p_Spec := spec\<lparr>Plugins := plugins\<rparr>\<rparr>) p =
      plugin_errors registered (policy\<lparr>p_Spec := spec\<lparr>Plugins := plugins'\<rparr>\<rparr>) p" for p
    unfolding plugin_errors_def unrecognisedNames_def
    by (intro arg_cong [where f = "map _"] sort_by_perm) (simp_all add: inj_on_def)
  then show ?thesis
    by (simp add: validate_def Let_def selector_errors_def Webhooks_def builtin_registry_def
        allowed_Approver_def constraints_Approver_def allowed_Validate_def constraints_Validate_def)
qed

theorem webhook_plugin_order_witness:
  "validate sample_extern \<lparr>wh_registeredPlugins = [], wh_webhooks = Webhooks (builtin_registry sample_extern)\<rparr>
      (PolicyObject (sample_policy\<lparr>p_Spec := (p_Spec sample_policy)\<lparr>Plugins := [(''a'', \<lparr>pd_Values = []\<rparr>), (''b'', \<lparr>pd_Values = []\<rparr>)]\<rparr>\<rparr>)) =
   validate sample_extern \<lparr>wh_registeredPlugins = [], wh_webhooks = Webhooks (builtin_registry sample_extern)\<rparr>
      (PolicyObject (sample_policy\<lparr>p_Spec := (p_Spec sample_policy)\<lparr>Plugins := [(''b'', \<lparr>pd_Values = []\<rparr>), (''a'', \<lparr>pd_Values = []\<rparr>)]\<rparr>\<rparr>))"
  by (rule webhook_plugin_order) simp

subsection \<open>Admission protects the manager\<close>

text \<open>Whatever webhooks run: the errors found before them are never dropped.\<close>

lemma run_webhooks_keeps_errors:
  "run_webhooks ws policy all es warnings s = Returns (Inr (all', es', warnings'), s') \<Longrightarrow>
   set es \<subseteq> set es'"
proof (induction ws arbitrary: all es warnings s)
  case Nil
  then show ?case by (simp add: go_ret_def)
next
  case (Cons w ws)
  obtain r s1 where w: "w policy s = Returns (r, s1)"
    using Cons.prems by (cases "w policy s") (auto simp: go_bind_def)
  with Cons.prems obtain resp where "r = Inr resp" by (cases r) (auto simp: go_bind_def go_ret_def)
  with w Cons.prems have "run_webhooks ws policy (if \<not> wv_Allowed resp then False else all)
       (if \<not> wv_Allowed resp then es @ wv_Errors resp else es) (warnings @ wv_Warnings resp) s1 =
     Returns (Inr (all', es', warnings'), s')" by (simp add: go_bind_def)
  from Cons.IH [OF this] show ?case by (simp split: if_splits)
qed

lemma validate_selector_valid:
  assumes "ToAggregate_doc x" and "NewAggregate_doc x"
    and "validate x v (PolicyObject policy) s = Returns ((warnings, None), s')"
  shows "selector_valid x policy"
proof -
  let ?p = "NewPath [''spec'']"
  let ?es = "plugin_errors (wh_registeredPlugins v) policy ?p @ selector_errors x policy ?p"
  from assms(3) obtain all es' where
    run: "run_webhooks (wh_webhooks v) policy True ?es [] s = Returns (Inr (all, es', warnings), s')"
    and none: "x_NewAggregate x (map Some (final_errors x all es')) = None"
    by (auto simp: validate_def Let_def go_bind_def go_ret_def split: outcome.splits sum.splits prod.splits)
  from none have "es' = []" by (simp add: NewAggregate_None [OF assms(2)] final_errors_Nil [OF assms(1)])
  with run_webhooks_keeps_errors [OF run] show ?thesis by (simp add: selector_errors_Nil)
qed

lemma selector_valid_parses:
  assumes "selector_valid x p" and "x_LabelSelector x [] = Inr f"
  shows "\<not> bad_selector x p err"
proof
  assume "bad_selector x p err"
  then obtain sel ml where "sel_Namespace (Selector (p_Spec p)) = Some sel"
    "MatchLabels sel = Some ml" "x_LabelSelector x ml = Inl err"
    by (auto simp: bad_selector_def)
  with assms show False by (cases "ml = []") (auto simp: selector_valid_def)
qed

text \<open>C35: admission protects the manager. For policies that the webhook, with whatever approvers, let
  pass when they were created or changed, the namespace predicate never fails on a label selector,
  provided that the empty selector parses: an error is one of the API server's.\<close>

theorem admitted_selectors_parse:
  fixes v :: "'s webhook_validator"
  assumes "ToAggregate_doc x" and "NewAggregate_doc x"
    and "\<And>p. p \<in> set ps \<Longrightarrow> \<exists>old s warnings s'.
      ValidateCreate x v (PolicyObject p) s = Returns ((warnings, None), s') \<or>
      ValidateUpdate x v old (PolicyObject p) s = Returns ((warnings, None), s')"
    and "x_LabelSelector x [] = Inr f"
    and "SelectorNamespace_pred x a cr ps l = Returns (Inl e, l')"
  shows "\<exists>err. api_GetNamespace a l (cr_Namespace cr) = Inl err \<and> e = namespace_err err"
proof -
  have ok: "\<not> bad_selector x p err" if "p \<in> set ps" for p err
  proof (rule selector_valid_parses [OF _ assms(4)])
    show "selector_valid x p"
      using assms(3) [OF that] validate_selector_valid [OF assms(1,2)]
      by (auto simp: ValidateCreate_def ValidateUpdate_def)
  qed
  show ?thesis
  proof (cases "api_GetNamespace a l (cr_Namespace cr)")
    case (Inl err)
    with SelectorNamespace_run [of x a cr ps l] assms(5) show ?thesis by (auto split: if_splits)
  next
    case (Inr ls)
    with SelectorNamespace_run [of x a cr ps l] assms(5) ok show ?thesis
      by (auto simp: ns_result_def split: if_splits)
  qed
qed

theorem admitted_selectors_parse_witness:
  "\<exists>err e. SelectorNamespace_pred sample_extern (sample_api\<lparr>api_GetNamespace := \<lambda>l ns. Inl (ErrLib ''down'')\<rparr>)
       sample_request [sample_policy\<lparr>p_Spec := (p_Spec sample_policy)\<lparr>Selector :=
         \<lparr>sel_IssuerRef = None,
          sel_Namespace = Some \<lparr>MatchNames = [], MatchLabels = Some [(''team'', ''web'')]\<rparr>\<rparr>\<rparr>\<rparr>] [] =
       Returns (Inl e, [GetNamespace ''ns'']) \<and> e = namespace_err err"
proof -
  let ?p = "sample_policy\<lparr>p_Spec := (p_Spec sample_policy)\<lparr>Selector :=
         \<lparr>sel_IssuerRef = None,
          sel_Namespace = Some \<lparr>MatchNames = [], MatchLabels = Some [(''team'', ''web'')]\<rparr>\<rparr>\<rparr>\<rparr>"
  let ?a = "sample_api\<lparr>api_GetNamespace := \<lambda>l ns. Inl (ErrLib ''down'')\<rparr>"
  let ?v = "\<lparr>wh_registeredPlugins = [], wh_webhooks = Webhooks (builtin_registry sample_extern)\<rparr>"
  have "policy_admissible sample_extern [] ?p"
    using sample_admissible
    by (simp add: policy_admissible_def plugins_known_def selector_valid_def sample_extern_def)
  with validate_builtin_result [OF sample_extern_doc(1,2) cache_ok_empty, of "[]" ?p]
  obtain c where adm: "ValidateCreate sample_extern ?v (PolicyObject ?p) NewCache = Returns (([], None), c)"
    by (auto simp: ValidateCreate_def)
  have empty: "x_LabelSelector sample_extern [] = Inr (\<lambda>ls. True)"
    by (simp add: sample_extern_def)
  obtain e where run: "SelectorNamespace_pred sample_extern ?a sample_request [?p] [] =
      Returns (Inl e, [GetNamespace ''ns''])"
    by (simp add: SelectorNamespace_pred_def matched_name_def lazy_labels_def Get_namespace_def
        go_map_def go_bind_def go_ret_def sample_request_def sample_extern_def)
  have "\<exists>err. api_GetNamespace ?a [] (cr_Namespace sample_request) = Inl err \<and> e = namespace_err err"
    by (rule admitted_selectors_parse [of _ _ ?v, OF sample_extern_doc(1,2) _ empty run]) (use adm in auto)
  with run show ?thesis by blast
qed

end
