(* ===== verification/AP_RequestController.thy ===== *)
theory AP_RequestController
  imports AP_Webhook
begin

text \<open>
  The controller of CertificateRequests (\<^verbatim>\<open>pkg/internal/controllers/certificaterequests.go\<close>) and
  the status patches it sends (\<^verbatim>\<open>ssa_client\<close>). A reconcile reads the request, asks the approver
  manager for a review, records an event, and applies a status patch with an \<^verbatim>\<open>Approved\<close> or
  \<^verbatim>\<open>Denied\<close> condition. The state is the manager's, together with the log of what the controller
  told the API server.
\<close>

section \<open>Status patches\<close>

record 'status applyConfiguration =
  ac_Name :: "string option"
  ac_Namespace :: "string option"
  ac_Kind :: "string option"
  ac_APIVersion :: "string option"
  ac_Status :: "'status option"

text \<open>The object that names the target of a patch.\<close>

record patch_target =
  pt_Name :: string
  pt_Namespace :: string

record CRStatus =
  crs_Conditions :: "CRCondition list"

definition empty_configuration :: "'status applyConfiguration" where
  "empty_configuration = \<lparr>ac_Name = None, ac_Namespace = None, ac_Kind = None,
     ac_APIVersion = None, ac_Status = None\<rparr>"

definition CertificateRequestStatusConfiguration ::
  "string \<Rightarrow> string \<Rightarrow> CRStatus \<Rightarrow> CRStatus applyConfiguration" where
  "CertificateRequestStatusConfiguration name namespace status =
     empty_configuration\<lparr>ac_Name := Some name, ac_Namespace := Some namespace,
       ac_Kind := Some ''CertificateRequest'', ac_APIVersion := Some ''cert-manager.io/v1'',
       ac_Status := Some status\<rparr>"

text \<open>\<open>marshal\<close> is \<^verbatim>\<open>json.Marshal\<close> on the configuration, whose fields carry the JSON names of
  cert-manager's types.\<close>

definition GenerateCertificateRequestStatusPatch ::
  "(CRStatus applyConfiguration \<Rightarrow> goerr + string) \<Rightarrow> string \<Rightarrow> string \<Rightarrow> CRStatus \<Rightarrow>
   patch_target \<times> (goerr + string)" where
  "GenerateCertificateRequestStatusPatch marshal name namespace status =
     (\<lparr>pt_Name = name, pt_Namespace = namespace\<rparr>,
      marshal (CertificateRequestStatusConfiguration name namespace status))"

section \<open>Conditions\<close>

text \<open>The first loop: the transition time of an existing condition of the same type and status is
  kept; the last one wins.\<close>

definition keep_transition_time ::
  "CRCondition list \<Rightarrow> CRCondition \<Rightarrow> CRCondition" where
  "keep_transition_time existingConditions newCondition =
     foldl (\<lambda>new cond.
       if cc_Type cond \<noteq> cc_Type newCondition then new
       else if cc_Status cond = cc_Status newCondition
         then new\<lparr>cc_LastTransitionTime := cc_LastTransitionTime cond\<rparr> else new)
       newCondition existingConditions"

text \<open>The second loop: overwrite the first condition of the type, or append.\<close>

primrec put_condition :: "CRCondition \<Rightarrow> CRCondition list \<Rightarrow> CRCondition list" where
  "put_condition newCondition [] = [newCondition]"
| "put_condition newCondition (cond # conds) =
     (if cc_Type cond \<noteq> cc_Type newCondition then cond # put_condition newCondition conds
      else newCondition # conds)"

definition setCertificateRequestStatusCondition ::
  "int \<Rightarrow> CRCondition list \<Rightarrow> CRCondition list \<Rightarrow> string \<Rightarrow> string \<Rightarrow> string \<Rightarrow> string \<Rightarrow>
   (CRCondition \<times> int) \<times> CRCondition list" where
  "setCertificateRequestStatusCondition now existingConditions patchConditions conditionType status
     reason message =
     (let newCondition = keep_transition_time existingConditions
            \<lparr>cc_Type = conditionType, cc_Status = status, cc_LastTransitionTime = Some now,
             cc_Reason = reason, cc_Message = message\<rparr>
      in ((newCondition, now), put_condition newCondition patchConditions))"

section \<open>Reconcile\<close>

record Result =
  Requeue :: bool
  RequeueAfter :: int

definition no_result :: Result where
  "no_result = \<lparr>Requeue = False, RequeueAfter = 0\<rparr>"

text \<open>What the controller tells the API server: events, and patches of the status with their target,
  options and bytes.\<close>

record PatchOptions =
  FieldManager :: string
  Force :: "bool option"

datatype ctl_call =
    RecordEvent string string string   \<comment> \<open>type, reason, message\<close>
  | StatusPatch patch_target PatchOptions string

text \<open>Both controllers patch as the field manager \<^verbatim>\<open>approver-policy\<close> and take over fields that others
  own.\<close>

abbreviation ApplyPatch :: "patch_target \<Rightarrow> string \<Rightarrow> ctl_call" where
  "ApplyPatch target bytes \<equiv>
     StatusPatch target \<lparr>FieldManager = ''approver-policy'', Force = Some True\<rparr> bytes"

text \<open>The clients of the controller: what reading a request answers, the clock, the manager, how a
  patch is encoded and what the API server answers to it.\<close>

record 's certificaterequests =
  rc_Get :: "string \<times> string \<Rightarrow> goerr + CertificateRequest"
  rc_Now :: int
  rc_Review :: "CertificateRequest \<Rightarrow> ('s, goerr + ReviewResponse) go"
  rc_Marshal :: "CRStatus applyConfiguration \<Rightarrow> goerr + string"
  rc_Patch :: "patch_target \<Rightarrow> string \<Rightarrow> goerr option"

definition say :: "ctl_call \<Rightarrow> ('s \<times> ctl_call list, unit) go" where
  "say call s = Returns ((), (fst s, snd s @ [call]))"

definition decision_patch :: "int \<Rightarrow> CertificateRequest \<Rightarrow> string \<Rightarrow> string \<Rightarrow> CRStatus" where
  "decision_patch now cr conditionType message =
     \<lparr>crs_Conditions = snd (setCertificateRequestStatusCondition now (cr_Conditions cr) []
        conditionType ConditionTrue ''policy.cert-manager.io'' message)\<rparr>"

definition reconcileStatusPatch ::
  "('u, 'e, 'a, 'p) extern \<Rightarrow> 's certificaterequests \<Rightarrow> string \<times> string \<Rightarrow>
   ('s \<times> ctl_call list, Result \<times> CRStatus option \<times> goerr option) go" where
  "reconcileStatusPatch x c req =
     (case rc_Get c req of
        Inl err \<Rightarrow> go_ret (no_result, None, x_IgnoreNotFound x err)
      | Inr cr \<Rightarrow>
          if x_IsApproved x cr \<or> x_IsDenied x cr then go_ret (no_result, None, None)
          else
            go_bind (go_fst (rc_Review c cr)) (\<lambda>r.
              case r of
                Inl err \<Rightarrow>
                  go_bind (say (RecordEvent ''Warning'' ''EvaluationError''
                    ''approver-policy failed to review the request and will retry''))
                    (\<lambda>_. go_ret (no_result, None, Some err))
              | Inr response \<Rightarrow>
                  (case rv_Result response of
                     ReviewApproved \<Rightarrow>
                       go_bind (say (RecordEvent ''Normal'' ''Approved'' (rv_Message response)))
                         (\<lambda>_. go_ret (no_result, Some (decision_patch (rc_Now c) cr
                                ConditionApproved (rv_Message response)), None))
                   | ReviewDenied \<Rightarrow>
                       go_bind (say (RecordEvent ''Warning'' ''Denied'' (rv_Message response)))
                         (\<lambda>_. go_ret (no_result, Some (decision_patch (rc_Now c) cr
                                ConditionDenied (rv_Message response)), None))
                   | ReviewUnprocessed \<Rightarrow>
                       go_bind (say (RecordEvent ''Normal'' ''Unprocessed''
                         ''Request is not applicable for any policy so ignoring''))
                         (\<lambda>_. go_ret (no_result, None, None))
                   | ReviewOther _ \<Rightarrow>
                       go_bind (say (RecordEvent ''Warning'' ''UnknownResponse''
                         (''Policy returned an unknown result. This is a bug. Please check the '' @
                          ''approver-policy logs and file an issue'')))
                         (\<lambda>_. go_ret (\<lparr>Requeue = True, RequeueAfter = 5000000000\<rparr>, None, None)))))"

definition Reconcile ::
  "('u, 'e, 'a, 'p) extern \<Rightarrow> 's certificaterequests \<Rightarrow> string \<times> string \<Rightarrow>
   ('s \<times> ctl_call list, Result \<times> goerr option) go" where
  "Reconcile x c req =
     go_bind (reconcileStatusPatch x c req) (\<lambda>(result, patch, resultErr).
       case patch of
         None \<Rightarrow> go_ret (result, resultErr)
       | Some status \<Rightarrow>
           (let (target, encoded) =
                  GenerateCertificateRequestStatusPatch (rc_Marshal c) (snd req) (fst req) status
            in case encoded of
                 Inl err \<Rightarrow> go_ret (no_result, x_NewAggregate x [resultErr,
                   Some (ErrWrap ''failed to generate CertificateRequest.Status patch'' err)])
               | Inr bytes \<Rightarrow>
                   go_bind (say (StatusPatch target
                       \<lparr>FieldManager = ''approver-policy'', Force = Some True\<rparr> bytes)) (\<lambda>_.
                     case rc_Patch c target bytes of
                       Some err \<Rightarrow> go_ret (no_result, x_NewAggregate x [resultErr,
                         Some (ErrWrap ''failed to apply CertificateRequest.Status patch'' err)])
                     | None \<Rightarrow> go_ret (result, resultErr))))"

section \<open>What is reconciled\<close>

text \<open>\<open>enqueueRequestFromMapFunc\<close>: on a change of policies or RBAC all requests without a decision
  are queued. \<open>Inl\<close> is the exit of the process when listing fails.\<close>

definition enqueueRequestFromMapFunc ::
  "('u, 'e, 'a, 'p) extern \<Rightarrow> goerr + CertificateRequest list \<Rightarrow> goerr + (string \<times> string) list" where
  "enqueueRequestFromMapFunc x listed =
     (case listed of
        Inl err \<Rightarrow> Inl err
      | Inr items \<Rightarrow>
          Inr (concat (map (\<lambda>cr. if x_IsApproved x cr \<or> x_IsDenied x cr then []
                                else [(cr_Namespace cr, cr_Name cr)]) items)))"

text \<open>The event filter of the controller.\<close>

definition undecided_predicate :: "('u, 'e, 'a, 'p) extern \<Rightarrow> CertificateRequest \<Rightarrow> bool" where
  "undecided_predicate x cr \<longleftrightarrow> \<not> x_IsApproved x cr \<and> \<not> x_IsDenied x cr"

section \<open>Facts\<close>

text \<open>The condition an update ends with.\<close>

definition same_state :: "CRCondition \<Rightarrow> CRCondition \<Rightarrow> bool" where
  "same_state new cond \<longleftrightarrow> cc_Type cond = cc_Type new \<and> cc_Status cond = cc_Status new"

lemma keep_transition_time_eq:
  "keep_transition_time existing new =
     new\<lparr>cc_LastTransitionTime :=
       (if filter (same_state new) existing = [] then cc_LastTransitionTime new
        else cc_LastTransitionTime (last (filter (same_state new) existing)))\<rparr>"
  by (induction existing rule: rev_induct)
    (simp_all add: keep_transition_time_def same_state_def)

lemma keep_transition_time_simps [simp]:
  "cc_Type (keep_transition_time existing new) = cc_Type new"
  "cc_Status (keep_transition_time existing new) = cc_Status new"
  "cc_Reason (keep_transition_time existing new) = cc_Reason new"
  "cc_Message (keep_transition_time existing new) = cc_Message new"
  by (simp_all add: keep_transition_time_eq)

text \<open>\<^verbatim>\<open>CertificateRequestIsApproved\<close> and \<^verbatim>\<open>CertificateRequestIsDenied\<close> look for a condition of the
  type with status \<^verbatim>\<open>True\<close>.\<close>

definition decided_doc :: "('u, 'e, 'a, 'p) extern \<Rightarrow> bool" where
  "decided_doc x \<longleftrightarrow> (\<forall>cr.
     (x_IsApproved x cr \<longleftrightarrow> (\<exists>c \<in> set (cr_Conditions cr).
        cc_Type c = ConditionApproved \<and> cc_Status c = ConditionTrue)) \<and>
     (x_IsDenied x cr \<longleftrightarrow> (\<exists>c \<in> set (cr_Conditions cr).
        cc_Type c = ConditionDenied \<and> cc_Status c = ConditionTrue)))"

lemma sample_decided_doc: "decided_doc sample_extern"
  by (simp add: decided_doc_def sample_extern_def)

text \<open>The condition with which a decision is recorded.\<close>

definition decision_condition :: "int \<Rightarrow> string \<Rightarrow> string \<Rightarrow> CRCondition" where
  "decision_condition now conditionType message =
     \<lparr>cc_Type = conditionType, cc_Status = ConditionTrue, cc_LastTransitionTime = Some now,
      cc_Reason = ''policy.cert-manager.io'', cc_Message = message\<rparr>"

lemma decision_patch_undecided:
  assumes "decided_doc x" and "undecided_predicate x cr"
    and "ctype = ConditionApproved \<or> ctype = ConditionDenied"
  shows "decision_patch now cr ctype message = \<lparr>crs_Conditions = [decision_condition now ctype message]\<rparr>"
proof -
  have "filter (same_state (decision_condition now ctype message)) (cr_Conditions cr) = []"
    using assms
    by (auto simp: undecided_predicate_def decided_doc_def filter_empty_conv same_state_def
        decision_condition_def)
  then show ?thesis
    by (simp add: decision_patch_def setCertificateRequestStatusCondition_def Let_def
        keep_transition_time_eq decision_condition_def)
qed

text \<open>What a reconcile says and answers when the review returns a response.\<close>

definition review_event :: "ReviewResponse \<Rightarrow> ctl_call" where
  "review_event response =
     (case rv_Result response of
        ReviewApproved \<Rightarrow> RecordEvent ''Normal'' ''Approved'' (rv_Message response)
      | ReviewDenied \<Rightarrow> RecordEvent ''Warning'' ''Denied'' (rv_Message response)
      | ReviewUnprocessed \<Rightarrow> RecordEvent ''Normal'' ''Unprocessed''
          ''Request is not applicable for any policy so ignoring''
      | ReviewOther _ \<Rightarrow> RecordEvent ''Warning'' ''UnknownResponse''
          (''Policy returned an unknown result. This is a bug. Please check the '' @
           ''approver-policy logs and file an issue''))"

definition decision_of :: "ReviewResponse \<Rightarrow> string option" where
  "decision_of response =
     (case rv_Result response of
        ReviewApproved \<Rightarrow> Some ConditionApproved
      | ReviewDenied \<Rightarrow> Some ConditionDenied
      | _ \<Rightarrow> None)"

lemma reconcileStatusPatch_response:
  assumes "rc_Get c req = Inr cr" and "undecided_predicate x cr"
    and "rc_Review c cr s = Returns (Inr response, s')"
  shows "reconcileStatusPatch x c req (s, log) = Returns
     ((if (\<exists>n. rv_Result response = ReviewOther n) then \<lparr>Requeue = True, RequeueAfter = 5000000000\<rparr>
       else no_result,
       map_option (\<lambda>ctype. decision_patch (rc_Now c) cr ctype (rv_Message response)) (decision_of response),
       None), (s', log @ [review_event response]))"
  using assms
  by (simp add: reconcileStatusPatch_def undecided_predicate_def go_bind_def go_fst_def go_ret_def
      say_def review_event_def decision_of_def split: ReviewResult.splits)

lemma Reconcile_undecided_response:
  assumes "rc_Get c req = Inr cr" and "undecided_predicate x cr"
    and "rc_Review c cr s = Returns (Inr response, s')" and "decision_of response = None"
  shows "\<exists>result. Reconcile x c req (s, log) =
           Returns ((result, None), (s', log @ [review_event response]))"
  using reconcileStatusPatch_response [OF assms(1-3)] assms(4)
  by (simp add: Reconcile_def go_bind_def go_ret_def)

lemma Reconcile_decision:
  assumes "decided_doc x" and "rc_Get c req = Inr cr" and "undecided_predicate x cr"
    and "rc_Review c cr s = Returns (Inr response, s')" and "decision_of response = Some ctype"
  shows "Reconcile x c req (s, log) =
     (case rc_Marshal c (CertificateRequestStatusConfiguration (snd req) (fst req)
             \<lparr>crs_Conditions = [decision_condition (rc_Now c) ctype (rv_Message response)]\<rparr>) of
        Inl err \<Rightarrow> Returns ((no_result, x_NewAggregate x [None,
            Some (ErrWrap ''failed to generate CertificateRequest.Status patch'' err)]),
            (s', log @ [review_event response]))
      | Inr bytes \<Rightarrow>
          Returns ((no_result,
            (case rc_Patch c \<lparr>pt_Name = snd req, pt_Namespace = fst req\<rparr> bytes of
               None \<Rightarrow> None
             | Some err \<Rightarrow> x_NewAggregate x [None,
                 Some (ErrWrap ''failed to apply CertificateRequest.Status patch'' err)])),
            (s', log @ [review_event response,
                        ApplyPatch \<lparr>pt_Name = snd req, pt_Namespace = fst req\<rparr> bytes])))"
proof -
  have ctype: "ctype = ConditionApproved \<or> ctype = ConditionDenied"
    using assms(5) by (auto simp: decision_of_def split: ReviewResult.splits)
  have "\<not> (\<exists>n. rv_Result response = ReviewOther n)"
    using assms(5) by (auto simp: decision_of_def)
  with reconcileStatusPatch_response [OF assms(2-4), of log] assms(5)
    decision_patch_undecided [OF assms(1,3) ctype]
  have "reconcileStatusPatch x c req (s, log) = Returns ((no_result,
      Some \<lparr>crs_Conditions = [decision_condition (rc_Now c) ctype (rv_Message response)]\<rparr>, None),
      (s', log @ [review_event response]))" by simp
  then show ?thesis
    by (simp add: Reconcile_def GenerateCertificateRequestStatusPatch_def go_bind_def go_ret_def
        say_def split: sum.splits option.splits)
qed

lemma Reconcile_review_error:
  assumes "rc_Get c req = Inr cr" and "undecided_predicate x cr"
    and "rc_Review c cr s = Returns (Inl err, s')"
  shows "Reconcile x c req (s, log) = Returns ((no_result, Some err),
     (s', log @ [RecordEvent ''Warning'' ''EvaluationError''
                   ''approver-policy failed to review the request and will retry'']))"
  using assms
  by (simp add: Reconcile_def reconcileStatusPatch_def undecided_predicate_def go_bind_def
      go_fst_def go_ret_def say_def)

text \<open>Everything a reconcile can do: it leaves the manager's state or hands it to one review, and
  it sends nothing but events, or the decision of that review.\<close>

lemma review_event_RecordEvent: "\<exists>t r m. review_event response = RecordEvent t r m"
  by (simp add: review_event_def split: ReviewResult.splits)

lemma Reconcile_skipped:
  assumes "\<And>cr. rc_Get c req = Inr cr \<Longrightarrow> \<not> undecided_predicate x cr"
  shows "\<exists>answer. Reconcile x c req (s, log) = Returns (answer, (s, log))"
  using assms
  by (cases "rc_Get c req")
    (auto simp: Reconcile_def reconcileStatusPatch_def undecided_predicate_def go_bind_def go_ret_def)

lemma Reconcile_panics:
  assumes "rc_Get c req = Inr cr" and "undecided_predicate x cr" and "rc_Review c cr s = Panics p"
  shows "Reconcile x c req (s, log) = Panics p"
  using assms
  by (simp add: Reconcile_def reconcileStatusPatch_def undecided_predicate_def go_bind_def go_fst_def)

lemma Reconcile_effects:
  assumes "decided_doc x" and "Reconcile x c req (s, log) = Returns (answer, (s', log'))"
  obtains (skipped) "s' = s" "log' = log"
  | (event) cr r t reason msg where "rc_Get c req = Inr cr" "undecided_predicate x cr"
      "rc_Review c cr s = Returns (r, s')" "log' = log @ [RecordEvent t reason msg]"
  | (decision) cr response ctype bytes t reason msg where "rc_Get c req = Inr cr"
      "undecided_predicate x cr" "rc_Review c cr s = Returns (Inr response, s')"
      "decision_of response = Some ctype"
      "rc_Marshal c (CertificateRequestStatusConfiguration (snd req) (fst req)
         \<lparr>crs_Conditions = [decision_condition (rc_Now c) ctype (rv_Message response)]\<rparr>) = Inr bytes"
      "log' = log @ [RecordEvent t reason msg,
                     ApplyPatch \<lparr>pt_Name = snd req, pt_Namespace = fst req\<rparr> bytes]"
proof (cases "\<exists>cr. rc_Get c req = Inr cr \<and> undecided_predicate x cr")
  case False
  then show thesis
    using Reconcile_skipped [of c req x s log] assms(2) skipped by auto
next
  case True
  then obtain cr where cr: "rc_Get c req = Inr cr" "undecided_predicate x cr" by blast
  then obtain r s1 where rev: "rc_Review c cr s = Returns (r, s1)"
    using Reconcile_panics [OF cr, of s _ log] assms(2) by (cases "rc_Review c cr s") auto
  show thesis
  proof (cases r)
    case (Inl e)
    with Reconcile_review_error [OF cr] rev assms(2) show thesis
      by (intro event [OF cr]) auto
  next
    case (Inr response)
    obtain t reason msg where ev: "review_event response = RecordEvent t reason msg"
      using review_event_RecordEvent by blast
    note rev' = rev [unfolded Inr]
    show thesis
    proof (cases "decision_of response")
      case None
      from Reconcile_undecided_response [OF cr rev' None, of log] assms(2) rev' ev show thesis
        by (intro event [OF cr]) auto
    next
      case (Some ctype)
      note run = Reconcile_decision [OF assms(1) cr rev' Some, of log]
      show thesis
      proof (cases "rc_Marshal c (CertificateRequestStatusConfiguration (snd req) (fst req)
          \<lparr>crs_Conditions = [decision_condition (rc_Now c) ctype (rv_Message response)]\<rparr>)")
        case (Inl e)
        with run assms(2) rev' ev show thesis by (intro event [OF cr]) auto
      next
        case (Inr bytes)
        with run assms(2) rev' ev Some show thesis by (intro decision [OF cr]) auto
      qed
    qed
  qed
qed

section \<open>Properties\<close>

lemma enqueue_undecided:
  "enqueueRequestFromMapFunc x (Inr items) =
     Inr (map (\<lambda>cr. (cr_Namespace cr, cr_Name cr)) (filter (undecided_predicate x) items))"
  by (induction items) (simp_all add: enqueueRequestFromMapFunc_def undecided_predicate_def)

text \<open>A controller for the witnesses, around the manager with the built-in approvers.\<close>

definition builtin_controller ::
  "('u, 'e, 'a, 'p) extern \<Rightarrow> api \<Rightarrow> (string \<times> string \<Rightarrow> goerr + CertificateRequest) \<Rightarrow> int \<Rightarrow>
   (CRStatus applyConfiguration \<Rightarrow> goerr + string) \<Rightarrow> (patch_target \<Rightarrow> string \<Rightarrow> goerr option) \<Rightarrow>
   ('p cache \<times> api_call list) certificaterequests" where
  "builtin_controller x a get now marshal patch =
     \<lparr>rc_Get = get, rc_Now = now,
      rc_Review = Review x (New x a (Evaluators (builtin_registry x))),
      rc_Marshal = marshal, rc_Patch = patch\<rparr>"

definition sample_controller :: "(string cache \<times> api_call list) certificaterequests" where
  "sample_controller = builtin_controller sample_extern sample_api
     (\<lambda>req. if req = (''ns'', ''req'') then Inr sample_request else Inl (ErrLib ''not found''))
     7 (\<lambda>_. Inr ''patch'') (\<lambda>_ _. None)"

text \<open>C36: a decision is final. A request that is already approved or denied is left alone: no
  review, no event, no patch, no retry; and a request that no longer exists is forgotten, while
  any other error of the read is returned. When policies or RBAC change, exactly the requests of the
  list that a reconcile would not leave alone are queued, in order.\<close>

theorem Reconcile_final:
  "(rc_Get c req = Inr cr \<and> (x_IsApproved x cr \<or> x_IsDenied x cr) \<longrightarrow>
      Reconcile x c req (s, log) = Returns ((no_result, None), (s, log))) \<and>
   (rc_Get c req = Inl err \<longrightarrow>
      Reconcile x c req (s, log) = Returns ((no_result, x_IgnoreNotFound x err), (s, log))) \<and>
   enqueueRequestFromMapFunc x (Inr items) =
     Inr (map (\<lambda>cr. (cr_Namespace cr, cr_Name cr)) (filter (undecided_predicate x) items))"
  by (auto simp: Reconcile_def reconcileStatusPatch_def go_bind_def go_ret_def enqueue_undecided)

theorem Reconcile_final_witness:
  "Reconcile sample_extern
     (sample_controller\<lparr>rc_Get := \<lambda>_. Inr (sample_request\<lparr>cr_Conditions := [decision_condition 1 ''Denied'' ''no'']\<rparr>)\<rparr>)
     (''ns'', ''req'') ((NewCache, []), []) = Returns ((no_result, None), ((NewCache, []), [])) \<and>
   Reconcile sample_extern sample_controller (''ns'', ''gone'') ((NewCache, []), []) =
     Returns ((no_result, None), ((NewCache, []), []))"
proof
  let ?cr = "sample_request\<lparr>cr_Conditions := [decision_condition 1 ''Denied'' ''no'']\<rparr>"
  have "x_IsDenied sample_extern ?cr" by (simp add: sample_extern_def decision_condition_def)
  then show "Reconcile sample_extern (sample_controller\<lparr>rc_Get := \<lambda>_. Inr ?cr\<rparr>) (''ns'', ''req'')
      ((NewCache, []), []) = Returns ((no_result, None), ((NewCache, []), []))"
    using Reconcile_final [of "sample_controller\<lparr>rc_Get := \<lambda>_. Inr ?cr\<rparr>" "(''ns'', ''req'')" ?cr
        sample_extern "(NewCache, [])" "[]"] by simp
next
  show "Reconcile sample_extern sample_controller (''ns'', ''gone'') ((NewCache, []), []) =
     Returns ((no_result, None), ((NewCache, []), []))"
    using Reconcile_final [of sample_controller "(''ns'', ''gone'')" sample_request sample_extern
        "(NewCache, [])" "[]" "ErrLib ''not found''"]
    by (simp add: sample_controller_def builtin_controller_def sample_extern_def)
qed

text \<open>C6: what a reconcile does with the review of an undecided request. An approval or denial is
  recorded as one event and, if it can be encoded, as one patch of that request whose only
  condition is \<^verbatim>\<open>Approved\<close> or \<^verbatim>\<open>Denied\<close> with status \<^verbatim>\<open>True\<close>, the review's message and the current
  time; any failure to encode or apply it is returned, so that the reconcile is retried. Without
  a decision there is one event and no patch. An error of the review is returned, and the event
  it causes says nothing about it.\<close>

theorem Reconcile_records_review:
  assumes "decided_doc x" and "NewAggregate_doc x"
    and "rc_Get c req = Inr cr" and "undecided_predicate x cr"
    and "rc_Review c cr s = Returns (r, s')"
  shows "\<exists>result err new. Reconcile x c req (s, log) = Returns ((result, err), (s', log @ new)) \<and>
     (case r of
        Inl e \<Rightarrow> err = Some e \<and> new = [RecordEvent ''Warning'' ''EvaluationError''
                   ''approver-policy failed to review the request and will retry'']
      | Inr response \<Rightarrow>
          (case decision_of response of
             None \<Rightarrow> err = None \<and> new = [review_event response]
           | Some ctype \<Rightarrow>
               (case rc_Marshal c (CertificateRequestStatusConfiguration (snd req) (fst req)
                     \<lparr>crs_Conditions = [decision_condition (rc_Now c) ctype (rv_Message response)]\<rparr>) of
                  Inl e \<Rightarrow> err \<noteq> None \<and> new = [review_event response]
                | Inr bytes \<Rightarrow>
                    new = [review_event response,
                           ApplyPatch \<lparr>pt_Name = snd req, pt_Namespace = fst req\<rparr> bytes] \<and>
                    (err = None \<longleftrightarrow> rc_Patch c \<lparr>pt_Name = snd req, pt_Namespace = fst req\<rparr> bytes = None))))"
proof (cases r)
  case (Inl e)
  with Reconcile_review_error [OF assms(3,4)] assms(5) show ?thesis by simp
next
  case (Inr response)
  have agg: "x_NewAggregate x [None, Some e] \<noteq> None" for e
    using assms(2) by (simp add: NewAggregate_doc_def)
  show ?thesis
  proof (cases "decision_of response")
    case None
    with Reconcile_undecided_response [OF assms(3,4)] assms(5) Inr show ?thesis by fastforce
  next
    case (Some ctype)
    note run = Reconcile_decision [OF assms(1,3,4) assms(5) [unfolded Inr] Some, of log]
    let ?conf = "CertificateRequestStatusConfiguration (snd req) (fst req)
      \<lparr>crs_Conditions = [decision_condition (rc_Now c) ctype (rv_Message response)]\<rparr>"
    let ?target = "\<lparr>pt_Name = snd req, pt_Namespace = fst req\<rparr>"
    show ?thesis
    proof (cases "rc_Marshal c ?conf")
      case (Inl e)
      with run Inr Some agg show ?thesis by simp
    next
      case bytes: (Inr bytes)
      with run Inr Some agg show ?thesis
        by (cases "rc_Patch c ?target bytes") simp_all
    qed
  qed
qed

lemma sample_undecided: "undecided_predicate sample_extern sample_request"
  by (simp add: undecided_predicate_def sample_extern_def sample_request_def)

theorem Reconcile_records_review_witness:
  "\<exists>s' msg. Reconcile sample_extern sample_controller (''ns'', ''req'') ((NewCache, []), []) =
     Returns ((no_result, None), (s', [RecordEvent ''Normal'' ''Approved'' msg,
       ApplyPatch \<lparr>pt_Name = ''req'', pt_Namespace = ''ns''\<rparr> ''patch'']))"
proof -
  obtain resp s' where rev: "rc_Review sample_controller sample_request (NewCache, []) =
      Returns (Inr resp, s')" and app: "rv_Result resp = ReviewApproved"
    using sample_review by (auto simp: sample_controller_def builtin_controller_def)
  have get: "rc_Get sample_controller (''ns'', ''req'') = Inr sample_request"
    "rc_Marshal sample_controller = (\<lambda>_. Inr ''patch'')" "rc_Patch sample_controller = (\<lambda>_ _. None)"
    by (simp_all add: sample_controller_def builtin_controller_def)
  from Reconcile_records_review [OF sample_decided_doc sample_extern_doc(2) get(1) sample_undecided rev,
      of "[]"] app get(2,3)
  obtain result where "Reconcile sample_extern sample_controller (''ns'', ''req'') ((NewCache, []), []) =
     Returns ((result, None), (s', [RecordEvent ''Normal'' ''Approved'' (rv_Message resp),
       ApplyPatch \<lparr>pt_Name = ''req'', pt_Namespace = ''ns''\<rparr> ''patch'']))"
    by (auto simp: decision_of_def review_event_def)
  moreover have "result = no_result" if "Reconcile sample_extern sample_controller (''ns'', ''req'')
      ((NewCache, []), []) = Returns ((result, None), t)" for result t
    using that Reconcile_decision [OF sample_decided_doc get(1) sample_undecided rev, of "''Approved''" "[]"]
      app get(2,3) by (simp add: decision_of_def)
  ultimately show ?thesis by blast
qed

end
