(* ===== verification/AP_System.thy ===== *)
theory AP_System
  imports AP_RequestController
begin

text \<open>
  The request controller in its cluster: requests are created, deleted and given other conditions
  by others, and reconciled by the controller with the built-in approvers. The API server applies
  the controller's patches. A step relation describes how the stored requests may change; the
  invariant says that every approval in the cluster is justified and that no request is both
  approved and denied.

  A reconcile is one step that reads the stored request: the informer cache is taken to be up to
  date, and nobody else decides requests. That every approval is justified does not rest on this;
  that there is exactly one decision does. \<open>AP_LiveCluster\<close> drops both assumptions, and shows that the
  steps of this theory are a special case of its own. The API server merges the conditions of a
  patch into the stored ones by their type, as the CertificateRequest resource declares.
\<close>

section \<open>The cluster\<close>

type_synonym req_key = "string \<times> string"

record 'p cluster =
  cl_requests :: "req_key \<rightharpoonup> CertificateRequest"
  cl_mgr :: "'p cache \<times> api_call list"

text \<open>What the cluster offers to the controller: the time, the encoding of patches and its inverse,
  and whether a patch is accepted.\<close>

record cluster_env =
  env_api :: api
  env_Marshal :: "CRStatus applyConfiguration \<Rightarrow> goerr + string"
  env_Unmarshal :: "string \<Rightarrow> CRStatus applyConfiguration"
  env_Patch :: "patch_target \<Rightarrow> string \<Rightarrow> goerr option"

definition read_request ::
  "(req_key \<rightharpoonup> CertificateRequest) \<Rightarrow> req_key \<Rightarrow> goerr + CertificateRequest" where
  "read_request rs k = (case rs k of Some cr \<Rightarrow> Inr cr | None \<Rightarrow> Inl (ErrLib ''not found''))"

definition apply_status :: "CRStatus \<Rightarrow> CertificateRequest \<Rightarrow> CertificateRequest" where
  "apply_status st cr =
     cr\<lparr>cr_Conditions := foldl (\<lambda>cs c. put_condition c cs) (cr_Conditions cr) (crs_Conditions st)\<rparr>"

definition apply_call ::
  "cluster_env \<Rightarrow> ctl_call \<Rightarrow> (req_key \<rightharpoonup> CertificateRequest) \<Rightarrow> (req_key \<rightharpoonup> CertificateRequest)" where
  "apply_call env call rs =
     (case call of
        RecordEvent _ _ _ \<Rightarrow> rs
      | StatusPatch target _ bytes \<Rightarrow>
          (case (env_Patch env target bytes, rs (pt_Namespace target, pt_Name target),
                 ac_Status (env_Unmarshal env bytes)) of
             (None, Some cr, Some st) \<Rightarrow>
               rs((pt_Namespace target, pt_Name target) \<mapsto> apply_status st cr)
           | _ \<Rightarrow> rs))"

definition controller_at ::
  "('u, 'e, 'a, 'p) extern \<Rightarrow> cluster_env \<Rightarrow> 'p cluster \<Rightarrow> int \<Rightarrow>
   ('p cache \<times> api_call list) certificaterequests" where
  "controller_at x env s now =
     builtin_controller x (env_api env) (read_request (cl_requests s)) now (env_Marshal env)
       (env_Patch env)"

abbreviation is_decision :: "CRCondition \<Rightarrow> bool" where
  "is_decision c \<equiv> cc_Type c = ConditionApproved \<or> cc_Type c = ConditionDenied"

inductive cluster_step ::
  "('u, 'e, 'a, 'p) extern \<Rightarrow> cluster_env \<Rightarrow> 'p cluster \<Rightarrow> 'p cluster \<Rightarrow> bool" for x env where
  create: "cl_requests s (cr_Namespace cr, cr_Name cr) = None \<Longrightarrow> cr_Conditions cr = [] \<Longrightarrow>
    cluster_step x env s
      (s\<lparr>cl_requests := (cl_requests s)((cr_Namespace cr, cr_Name cr) \<mapsto> cr)\<rparr>)"
| delete: "cluster_step x env s (s\<lparr>cl_requests := (cl_requests s)(k := None)\<rparr>)"
| others: "cl_requests s k = Some cr \<Longrightarrow> \<not> is_decision c \<Longrightarrow>
    cluster_step x env s (s\<lparr>cl_requests :=
      (cl_requests s)(k \<mapsto> cr\<lparr>cr_Conditions := put_condition c (cr_Conditions cr)\<rparr>)\<rparr>)"
| reconcile: "Reconcile x (controller_at x env s now) k (cl_mgr s, []) = Returns (answer, (m, log)) \<Longrightarrow>
    cluster_step x env s
      (s\<lparr>cl_mgr := m, cl_requests := foldl (\<lambda>rs call. apply_call env call rs) (cl_requests s) log\<rparr>)"

definition cluster_init :: "'p cluster" where
  "cluster_init = \<lparr>cl_requests = Map.empty, cl_mgr = (NewCache, [])\<rparr>"

inductive cluster_reachable ::
  "('u, 'e, 'a, 'p) extern \<Rightarrow> cluster_env \<Rightarrow> 'p cluster \<Rightarrow> bool" for x env where
  init: "cluster_reachable x env cluster_init"
| step: "cluster_reachable x env s \<Longrightarrow> cluster_step x env s t \<Longrightarrow> cluster_reachable x env t"

inductive_cases cluster_stepE: "cluster_step x env s t"

text \<open>What a round trip through JSON keeps of a status: the conditions in their order, with type,
  status and reason as far as these are ASCII. (\<^verbatim>\<open>encoding/json\<close> replaces what is not UTF-8, and
  \<^verbatim>\<open>metav1.Time\<close> keeps whole seconds.)\<close>

definition is_ascii :: "string \<Rightarrow> bool" where
  "is_ascii s \<longleftrightarrow> list_all (\<lambda>c. \<not> digit7 c) s"

definition cr_condition_key :: "CRCondition \<Rightarrow> string \<times> string \<times> string" where
  "cr_condition_key c = (cc_Type c, cc_Status c, cc_Reason c)"

definition json_roundtrip :: "cluster_env \<Rightarrow> bool" where
  "json_roundtrip env \<longleftrightarrow> (\<forall>conf st bytes.
     env_Marshal env conf = Inr bytes \<and> ac_Status conf = Some st \<and>
     (\<forall>c \<in> set (crs_Conditions st). is_ascii (cc_Type c) \<and> is_ascii (cc_Status c) \<and> is_ascii (cc_Reason c)) \<longrightarrow>
     (\<exists>st'. ac_Status (env_Unmarshal env bytes) = Some st' \<and>
        map cr_condition_key (crs_Conditions st') = map cr_condition_key (crs_Conditions st)))"

section \<open>Justified approvals\<close>

definition justified ::
  "('u, 'e, 'a, 'p) extern \<Rightarrow> api \<Rightarrow> CertificateRequest \<Rightarrow> api_call list \<Rightarrow> bool" where
  "justified x a cr l \<longleftrightarrow>
     (\<exists>before after items policy csr. l = before @ after \<and> api_List a before = Inr items \<and>
        policy \<in> set items \<and> is_ready policy \<and> issuer_selects cr policy \<and> ns_holds x a cr policy l \<and>
        told_bound a l cr policy \<and> x_DecodeCSR x (cr_Request cr) = Inr csr \<and>
        allowed_permits x cr csr (policy_allowed policy) \<and>
        constraints_permit (Constraints (p_Spec policy)) cr (csr_PublicKey csr))"

lemma justified_append:
  assumes "justified x a cr l"
  shows "justified x a cr (l @ m)"
proof -
  from assms obtain before after items policy csr where j: "l = before @ after"
    "api_List a before = Inr items" "policy \<in> set items" "is_ready policy" "issuer_selects cr policy"
    "ns_holds x a cr policy l" "told_bound a l cr policy" "x_DecodeCSR x (cr_Request cr) = Inr csr"
    "allowed_permits x cr csr (policy_allowed policy)"
    "constraints_permit (Constraints (p_Spec policy)) cr (csr_PublicKey csr)"
    unfolding justified_def by blast
  moreover have "l @ m = before @ (after @ m)" using j(1) by simp
  moreover have "ns_holds x a cr policy (l @ m)" using j(6) by (rule namespace_pred.lasting)
  moreover have "told_bound a (l @ m) cr policy" using j(7) by (rule rbac_pred.lasting)
  ultimately show ?thesis unfolding justified_def by blast
qed

text \<open>Conditions play no part in a justification.\<close>

lemma Validate_conditions: "Validate x v s (cr\<lparr>cr_Conditions := cs\<rparr>) = Validate x v s cr"
proof -
  have "validator_vars s (cr\<lparr>cr_Conditions := cs\<rparr>) = validator_vars s cr"
    by (simp add: validator_vars_def)
  then show ?thesis by (simp only: Validate_def)
qed

lemma permits_conditions [simp]:
  "rule_holds x (cr\<lparr>cr_Conditions := cs\<rparr>) = rule_holds x cr"
  "string_permits x (cr\<lparr>cr_Conditions := cs\<rparr>) = string_permits x cr"
  "slice_permits x (cr\<lparr>cr_Conditions := cs\<rparr>) = slice_permits x cr"
  by (simp_all only: fun_eq_iff rule_holds_def string_permits_def slice_permits_def
      Validate_conditions simp_thms)

lemma justified_conditions [simp]:
  "justified x a (cr\<lparr>cr_Conditions := cs\<rparr>) l = justified x a cr l"
  by (simp add: justified_def issuer_selects_def ns_holds_def told_bound_def sar_for_def
      allowed_permits_def subject_permits_def constraints_permit_def durations_permit_def)

text \<open>A stored request is in order if it has at most one decision, which is in force, and if an
  approval is justified by what the log shows.\<close>

definition decisions :: "CertificateRequest \<Rightarrow> CRCondition list" where
  "decisions cr = filter is_decision (cr_Conditions cr)"

definition request_ok ::
  "('u, 'e, 'a, 'p) extern \<Rightarrow> api \<Rightarrow> api_call list \<Rightarrow> CertificateRequest \<Rightarrow> bool" where
  "request_ok x a l cr \<longleftrightarrow>
     length (decisions cr) \<le> 1 \<and>
     (\<forall>c \<in> set (decisions cr). cc_Status c = ConditionTrue \<and>
        (cc_Type c = ConditionApproved \<longrightarrow> justified x a cr l))"

definition cluster_inv ::
  "('u, 'e, 'a, 'p) extern \<Rightarrow> cluster_env \<Rightarrow> 'p cluster \<Rightarrow> bool" where
  "cluster_inv x env s \<longleftrightarrow> cache_ok x (fst (cl_mgr s)) \<and>
     (\<forall>k cr. cl_requests s k = Some cr \<longrightarrow> request_ok x (env_api env) (snd (cl_mgr s)) cr)"

lemma request_ok_append: "request_ok x a l cr \<Longrightarrow> request_ok x a (l @ m) cr"
  by (auto simp: request_ok_def justified_append)

lemma request_ok_conditions:
  "filter is_decision cs = decisions cr \<Longrightarrow>
   request_ok x a l (cr\<lparr>cr_Conditions := cs\<rparr>) = request_ok x a l cr"
  by (simp add: request_ok_def decisions_def)

lemma cluster_inv_init: "cluster_inv x env cluster_init"
  by (simp add: cluster_inv_def cluster_init_def cache_ok_empty)

lemma cluster_inv_manager:
  assumes "cluster_inv x env s" and "cache_ok x (fst m)" and "snd m = snd (cl_mgr s) @ l"
  shows "cluster_inv x env (s\<lparr>cl_mgr := m\<rparr>)"
  using assms by (auto simp: cluster_inv_def request_ok_append)

lemma cluster_inv_put:
  assumes "cluster_inv x env s" and "request_ok x (env_api env) (snd (cl_mgr s)) cr"
  shows "cluster_inv x env (s\<lparr>cl_requests := (cl_requests s)(k \<mapsto> cr)\<rparr>)"
  using assms by (auto simp: cluster_inv_def split: if_splits)

lemma put_condition_other:
  "\<not> is_decision c \<Longrightarrow> filter is_decision (put_condition c cs) = filter is_decision cs"
  by (induction cs) auto

lemma put_condition_new:
  "filter is_decision cs = [] \<Longrightarrow> is_decision c \<Longrightarrow>
   put_condition c cs = cs @ [c]"
  by (induction cs) (auto split: if_splits)

section \<open>What a reconcile does to the cluster\<close>

lemma Review_state:
  assumes "builtin_good x c"
    and "Review x (New x a (Evaluators (builtin_registry x))) cr (c, l) = Returns (r, (c', l'))"
  shows "builtin_good x c' \<and> (\<exists>m. l' = l @ m)"
proof -
  obtain q m where sel: "selected (New x a (Evaluators (builtin_registry x))) cr l = Returns (q, l @ m)"
    using selected_returns by blast
  from Review_builtin [OF assms(1) sel] assms(2) show ?thesis by auto
qed

lemma controller_at_simps [simp]:
  "rc_Get (controller_at x env s now) = read_request (cl_requests s)"
  "rc_Now (controller_at x env s now) = now"
  "rc_Marshal (controller_at x env s now) = env_Marshal env"
  "rc_Review (controller_at x env s now) =
     Review x (New x (env_api env) (Evaluators (builtin_registry x)))"
  by (simp_all add: controller_at_def builtin_controller_def)

lemma read_request_Inr [simp]: "read_request rs k = Inr cr \<longleftrightarrow> rs k = Some cr"
  by (simp add: read_request_def split: option.splits)

lemma apply_event [simp]: "apply_call env (RecordEvent t r m) rs = rs"
  by (simp add: apply_call_def)

text \<open>The condition that the program writes, as JSON transports it.\<close>

definition recorded :: "string \<Rightarrow> CRCondition \<Rightarrow> bool" where
  "recorded ctype c \<longleftrightarrow> cr_condition_key c = (ctype, ConditionTrue, ''policy.cert-manager.io'')"

lemma decision_of_types:
  "decision_of resp = Some ctype \<Longrightarrow> ctype = ConditionApproved \<or> ctype = ConditionDenied"
  by (auto simp: decision_of_def split: ReviewResult.splits)

lemma decision_transported:
  assumes "json_roundtrip env" and "ctype = ConditionApproved \<or> ctype = ConditionDenied"
    and "env_Marshal env (CertificateRequestStatusConfiguration name ns
           \<lparr>crs_Conditions = [decision_condition now ctype msg]\<rparr>) = Inr bytes"
  shows "\<exists>c. ac_Status (env_Unmarshal env bytes) = Some \<lparr>crs_Conditions = [c]\<rparr> \<and> recorded ctype c"
proof -
  let ?c = "decision_condition now ctype msg"
  have "is_ascii (cc_Type ?c) \<and> is_ascii (cc_Status ?c) \<and> is_ascii (cc_Reason ?c)"
    using assms(2) by (auto simp: decision_condition_def is_ascii_def)
  then obtain st where st: "ac_Status (env_Unmarshal env bytes) = Some st"
    "map cr_condition_key (crs_Conditions st) = [cr_condition_key ?c]"
    using assms(1,3)
    by (fastforce simp: json_roundtrip_def CertificateRequestStatusConfiguration_def empty_configuration_def)
  then obtain c where "crs_Conditions st = [c]" "cr_condition_key c = cr_condition_key ?c" by auto
  with st(1) show ?thesis
    by (intro exI [of _ c]) (simp add: recorded_def cr_condition_key_def decision_condition_def)
qed

text \<open>What the patches of a reconcile do to the stored requests, whatever the controller has read:
  nothing, or the request of the key, if it is still there, gets the decision of the review.\<close>

definition record_decision ::
  "CRCondition \<Rightarrow> CertificateRequest \<Rightarrow> CertificateRequest" where
  "record_decision c cr = cr\<lparr>cr_Conditions := put_condition c (cr_Conditions cr)\<rparr>"

lemma reconcile_patches:
  assumes docs: "decided_doc x" "json_roundtrip env"
    and run: "Reconcile x (builtin_controller x (env_api env) get now (env_Marshal env) (env_Patch env)) k
      (mgr, []) = Returns (answer, (m, log))"
  obtains (none) "\<And>rs. foldl (\<lambda>rs call. apply_call env call rs) rs log = rs"
  | (decided) cr resp ctype c where "get k = Inr cr" "undecided_predicate x cr"
      "Review x (New x (env_api env) (Evaluators (builtin_registry x))) cr mgr = Returns (Inr resp, m)"
      "decision_of resp = Some ctype" "recorded ctype c"
      "\<And>rs. foldl (\<lambda>rs call. apply_call env call rs) rs log =
         (case rs k of Some stored \<Rightarrow> rs(k \<mapsto> record_decision c stored) | None \<Rightarrow> rs)"
  using docs(1) run
proof (cases rule: Reconcile_effects)
  case skipped
  then show thesis by (intro none) simp
next
  case event
  then show thesis by (intro none) simp
next
  case (decision cr resp ctype bytes t reason msg)
  then have ctype: "ctype = ConditionApproved \<or> ctype = ConditionDenied" by (intro decision_of_types)
  have "env_Marshal env (CertificateRequestStatusConfiguration (snd k) (fst k)
      \<lparr>crs_Conditions = [decision_condition now ctype (rv_Message resp)]\<rparr>) = Inr bytes"
    using decision(5) by (simp add: builtin_controller_def)
  from decision_transported [OF docs(2) ctype this] obtain c where c: "recorded ctype c"
    "ac_Status (env_Unmarshal env bytes) = Some \<lparr>crs_Conditions = [c]\<rparr>" by blast
  then have log: "foldl (\<lambda>rs call. apply_call env call rs) rs log =
      (if env_Patch env \<lparr>pt_Name = snd k, pt_Namespace = fst k\<rparr> bytes = None
       then (case rs k of Some stored \<Rightarrow> rs(k \<mapsto> record_decision c stored) | None \<Rightarrow> rs) else rs)" for rs
    using decision(6)
    by (auto simp: apply_call_def apply_status_def record_decision_def split: option.splits)
  show thesis
  proof (cases "env_Patch env \<lparr>pt_Name = snd k, pt_Namespace = fst k\<rparr> bytes = None")
    case True
    with log decision c(1) show thesis
      by (intro decided [of cr resp ctype c]) (simp_all add: builtin_controller_def)
  next
    case False
    with log show thesis by (intro none) simp
  qed
qed

text \<open>With an up-to-date cache: either nothing happens to the stored requests, or one request without
  a decision gets the decision of its review.\<close>

lemma reconcile_requests:
  assumes docs: "decided_doc x" "json_roundtrip env"
    and run: "Reconcile x (controller_at x env s now) k (cl_mgr s, []) = Returns (answer, (m, log))"
  obtains (none) "foldl (\<lambda>rs call. apply_call env call rs) (cl_requests s) log = cl_requests s"
  | (decided) cr resp ctype c where "cl_requests s k = Some cr" "undecided_predicate x cr"
      "Review x (New x (env_api env) (Evaluators (builtin_registry x))) cr (cl_mgr s) =
         Returns (Inr resp, m)" "decision_of resp = Some ctype" "recorded ctype c"
      "foldl (\<lambda>rs call. apply_call env call rs) (cl_requests s) log =
         (cl_requests s)(k \<mapsto> record_decision c cr)"
  using docs run [unfolded controller_at_def]
proof (cases rule: reconcile_patches)
  case none
  then show thesis by (intro that(1)) simp
next
  case (decided cr resp ctype c)
  then show thesis by (intro that(2) [of cr resp ctype c]) simp_all
qed

text \<open>A reconcile leaves the manager in order and only adds to its log.\<close>

lemma builtin_manager:
  assumes "decided_doc x" and "builtin_good x (fst mgr)"
    and run: "Reconcile x (builtin_controller x a get now marshal patch) k (mgr, []) = Returns (answer, (m, log))"
  shows "builtin_good x (fst m) \<and> (\<exists>l. snd m = snd mgr @ l)"
  using assms(1) run
proof (cases rule: Reconcile_effects)
  case skipped
  with assms(2) show ?thesis by simp
next
  case (event cr r t reason msg)
  then show ?thesis
    using Review_state [OF assms(2), of a cr "snd mgr" r "fst m" "snd m"] by (simp add: builtin_controller_def)
next
  case (decision cr resp ctype bytes t reason msg)
  then show ?thesis
    using Review_state [OF assms(2), of a cr "snd mgr" "Inr resp" "fst m" "snd m"]
    by (simp add: builtin_controller_def)
qed

lemma approval_justified:
  assumes "builtin_good x (fst s)"
    and "Review x (New x a (Evaluators (builtin_registry x))) cr s = Returns (Inr resp, m)"
    and "decision_of resp = Some ConditionApproved"
  shows "justified x a cr (snd m)"
proof -
  have approved: "rv_Result resp = ReviewApproved"
    using assms(3) by (auto simp: decision_of_def split: ReviewResult.splits)
  have run: "Review x (New x a (Evaluators (builtin_registry x))) cr (fst s, snd s) =
      Returns (Inr resp, (fst m, snd m))" using assms(2) by simp
  from assms(1) have good: "cel_type_sound x" "ToAggregate_doc x" "cache_ok x (fst s)"
    by (simp_all add: builtin_good_def)
  obtain l where "snd m = snd s @ l" using Review_state [OF assms(1) run] by blast
  with Review_Approved_policy [OF good run approved] show ?thesis
    unfolding justified_def by blast
qed

section \<open>The invariant\<close>

lemma undecided_no_decisions:
  assumes "decided_doc x" and "undecided_predicate x cr" and "request_ok x a l cr"
  shows "decisions cr = []"
  using assms
  by (auto simp: decided_doc_def undecided_predicate_def request_ok_def decisions_def
      filter_empty_conv)

lemma decision_ok:
  assumes "decisions cr = []" and "ctype = ConditionApproved \<or> ctype = ConditionDenied"
    and "recorded ctype c" and "ctype = ConditionApproved \<Longrightarrow> justified x a cr l"
  shows "request_ok x a l (record_decision c cr)"
proof -
  have "put_condition c (cr_Conditions cr) = cr_Conditions cr @ [c]"
    using assms(1-3) by (intro put_condition_new) (auto simp: decisions_def recorded_def cr_condition_key_def)
  then show ?thesis
    using assms by (auto simp: request_ok_def decisions_def record_decision_def recorded_def cr_condition_key_def)
qed

lemma cluster_inv_step:
  assumes docs: "cel_type_sound x" "ToAggregate_doc x" "decided_doc x" "json_roundtrip env"
    and step: "cluster_step x env s t" and inv: "cluster_inv x env s"
  shows "cluster_inv x env t"
  using step
proof (cases rule: cluster_step.cases)
  case (create cr)
  then have "request_ok x (env_api env) (snd (cl_mgr s)) cr"
    by (simp add: request_ok_def decisions_def)
  with create(1) inv show ?thesis by (simp add: cluster_inv_put)
next
  case (delete k)
  with inv show ?thesis by (simp add: cluster_inv_def)
next
  case (others k cr c)
  have "request_ok x (env_api env) (snd (cl_mgr s)) cr"
    using inv others(2) unfolding cluster_inv_def by blast
  then have "request_ok x (env_api env) (snd (cl_mgr s))
      (cr\<lparr>cr_Conditions := put_condition c (cr_Conditions cr)\<rparr>)"
    by (simp add: request_ok_conditions decisions_def put_condition_other [OF others(3)])
  with others(1) inv show ?thesis by (simp add: cluster_inv_put)
next
  case (reconcile now k answer m log)
  have good: "builtin_good x (fst (cl_mgr s))"
    using inv docs(1,2) by (simp add: cluster_inv_def builtin_good_def)
  obtain l where mgr: "builtin_good x (fst m)" "snd m = snd (cl_mgr s) @ l"
    using builtin_manager [OF docs(3) good reconcile(2) [unfolded controller_at_def]] by blast
  then have inv': "cluster_inv x env (s\<lparr>cl_mgr := m\<rparr>)"
    using cluster_inv_manager [OF inv] by (simp add: builtin_good_def)
  show ?thesis
    using docs(3,4) reconcile(2)
  proof (cases rule: reconcile_requests)
    case none
    with reconcile(1) inv' show ?thesis by simp
  next
    case (decided cr resp ctype c)
    have "decisions cr = []"
      using undecided_no_decisions [OF docs(3) decided(2)] inv decided(1)
      unfolding cluster_inv_def by blast
    moreover have "justified x (env_api env) cr (snd m)" if "ctype = ConditionApproved"
      using approval_justified [OF good decided(3)] decided(4) that by simp
    ultimately have "request_ok x (env_api env) (snd m) (record_decision c cr)"
      using decision_ok decision_of_types [OF decided(4)] decided(5) by blast
    then have "cluster_inv x env (s\<lparr>cl_mgr := m, cl_requests := (cl_requests s)(k \<mapsto> record_decision c cr)\<rparr>)"
      using cluster_inv_put [OF inv'] by simp
    with reconcile(1) decided(6) show ?thesis by simp
  qed
qed

lemma cluster_reachable_inv:
  assumes "cel_type_sound x" "ToAggregate_doc x" "decided_doc x" "json_roundtrip env"
    and "cluster_reachable x env s"
  shows "cluster_inv x env s"
  using assms(5)
  by (induction rule: cluster_reachable.induct)
    (auto intro: cluster_inv_init cluster_inv_step [OF assms(1-4)])

section \<open>Properties\<close>

text \<open>C2: every approval in the cluster is justified. In every reachable state a stored request
  with an \<^verbatim>\<open>Approved\<close> condition has been reviewed against a policy that was listed, ready,
  selecting, bound to the user by RBAC and permitting it; it has exactly one decision, so it is
  not denied as well.\<close>

theorem cluster_approvals_justified:
  assumes "cel_type_sound x" and "ToAggregate_doc x" and "decided_doc x" and "json_roundtrip env"
    and "cluster_reachable x env s" and "cl_requests s k = Some cr"
    and "c \<in> set (cr_Conditions cr)" and "cc_Type c = ConditionApproved"
  shows "justified x (env_api env) cr (snd (cl_mgr s)) \<and> decisions cr = [c] \<and> \<not> x_IsDenied x cr"
proof -
  have ok: "request_ok x (env_api env) (snd (cl_mgr s)) cr"
    using cluster_reachable_inv [OF assms(1-5)] assms(6) unfolding cluster_inv_def by blast
  have c: "c \<in> set (decisions cr)" using assms(7,8) by (simp add: decisions_def)
  with ok have d: "decisions cr = [c]"
    by (cases "decisions cr") (auto simp: request_ok_def)
  have "\<not> x_IsDenied x cr"
  proof
    assume "x_IsDenied x cr"
    then obtain c' where "c' \<in> set (cr_Conditions cr)" "cc_Type c' = ConditionDenied"
      using assms(3) by (auto simp: decided_doc_def)
    then have "c' \<in> set (decisions cr)" by (simp add: decisions_def)
    with d assms(8) \<open>cc_Type c' = ConditionDenied\<close> show False by simp
  qed
  with ok c d assms(8) show ?thesis by (simp add: request_ok_def)
qed

text \<open>A reconcile that approves a request, on whatever is stored.\<close>

lemma sample_reconcile:
  obtains env :: cluster_env and m log c where "json_roundtrip env" "env_api env = sample_api"
    "recorded ConditionApproved c"
    "\<And>get. get (''ns'', ''req'') = Inr sample_request \<Longrightarrow>
       Reconcile sample_extern (builtin_controller sample_extern (env_api env) get 7 (env_Marshal env)
         (env_Patch env)) (''ns'', ''req'') ((NewCache, []), []) = Returns ((no_result, None), (m, log))"
    "\<And>rs. foldl (\<lambda>rs call. apply_call env call rs) rs log =
       (case rs (''ns'', ''req'') of
          Some stored \<Rightarrow> rs((''ns'', ''req'') \<mapsto> record_decision c stored) | None \<Rightarrow> rs)"
proof -
  obtain resp c1 l1 where rev: "Review sample_extern (New sample_extern sample_api
      (Evaluators (builtin_registry sample_extern))) sample_request (NewCache, []) =
      Returns (Inr resp, (c1, l1))" and app: "rv_Result resp = ReviewApproved"
    using sample_review by blast
  let ?cond = "decision_condition 7 ConditionApproved (rv_Message resp)"
  let ?conf = "CertificateRequestStatusConfiguration ''req'' ''ns'' \<lparr>crs_Conditions = [?cond]\<rparr>"
  let ?log = "[review_event resp, ApplyPatch \<lparr>pt_Name = ''req'', pt_Namespace = ''ns''\<rparr> ''patch'']"
  define env :: cluster_env where
    "env = \<lparr>env_api = sample_api,
       env_Marshal = (\<lambda>conf. if conf = ?conf then Inr ''patch'' else Inl (ErrLib ''unsupported'')),
       env_Unmarshal = (\<lambda>_. ?conf), env_Patch = (\<lambda>_ _. None)\<rparr>"
  have dec: "decision_of resp = Some ConditionApproved" using app by (simp add: decision_of_def)
  show thesis
  proof (rule that [of env ?cond "(c1, l1)" ?log])
    show "json_roundtrip env" by (auto simp: json_roundtrip_def env_def split: if_splits)
    show "env_api env = sample_api" by (simp add: env_def)
    show "recorded ConditionApproved ?cond"
      by (simp add: recorded_def cr_condition_key_def decision_condition_def)
  next
    fix get :: "req_key \<Rightarrow> goerr + CertificateRequest"
    assume get: "get (''ns'', ''req'') = Inr sample_request"
    let ?c = "builtin_controller sample_extern (env_api env) get 7 (env_Marshal env) (env_Patch env)"
    have "rc_Get ?c (''ns'', ''req'') = Inr sample_request"
      "rc_Review ?c sample_request (NewCache, []) = Returns (Inr resp, (c1, l1))"
      using get rev by (simp_all add: builtin_controller_def env_def)
    from Reconcile_decision [OF sample_decided_doc this(1) sample_undecided this(2) dec, of "[]"]
    show "Reconcile sample_extern ?c (''ns'', ''req'') ((NewCache, []), []) =
        Returns ((no_result, None), ((c1, l1), ?log))"
      by (simp add: env_def builtin_controller_def)
  next
    fix rs :: "req_key \<rightharpoonup> CertificateRequest"
    obtain t r m where "review_event resp = RecordEvent t r m" using review_event_RecordEvent by blast
    then show "foldl (\<lambda>rs call. apply_call env call rs) rs ?log = (case rs (''ns'', ''req'') of
          Some stored \<Rightarrow> rs((''ns'', ''req'') \<mapsto> record_decision ?cond stored) | None \<Rightarrow> rs)"
      by (simp add: apply_call_def apply_status_def record_decision_def env_def
          CertificateRequestStatusConfiguration_def empty_configuration_def split: option.splits)
  qed
qed

text \<open>A cluster that holds one approved request.\<close>

lemma sample_cluster:
  "\<exists>(env :: cluster_env) s cr. json_roundtrip env \<and> env_api env = sample_api \<and>
     cluster_reachable sample_extern env s \<and> cl_requests s (''ns'', ''req'') = Some cr \<and>
     (\<exists>c \<in> set (cr_Conditions cr). cc_Type c = ConditionApproved \<and> cc_Reason c = ''policy.cert-manager.io'')"
proof -
  let ?k = "(''ns'', ''req'')"
  obtain env :: cluster_env and m log c where e: "json_roundtrip env" "env_api env = sample_api"
    "recorded ConditionApproved c"
    "\<And>get. get ?k = Inr sample_request \<Longrightarrow> Reconcile sample_extern (builtin_controller sample_extern (env_api env)
        get 7 (env_Marshal env) (env_Patch env)) ?k ((NewCache, []), []) = Returns ((no_result, None), (m, log))"
    "\<And>rs. foldl (\<lambda>rs call. apply_call env call rs) rs log =
        (case rs ?k of Some stored \<Rightarrow> rs(?k \<mapsto> record_decision c stored) | None \<Rightarrow> rs)"
    by (rule sample_reconcile) blast
  let ?s1 = "(cluster_init :: string cluster)\<lparr>cl_requests := [?k \<mapsto> sample_request]\<rparr>"
  have "cluster_step sample_extern env cluster_init ?s1"
    using create [of cluster_init sample_request sample_extern env]
    by (simp add: cluster_init_def sample_request_def)
  then have r1: "cluster_reachable sample_extern env ?s1" by (rule cluster_reachable.step [OF init])
  have "Reconcile sample_extern (controller_at sample_extern env ?s1 7) ?k (cl_mgr ?s1, []) =
      Returns ((no_result, None), (m, log))"
    using e(4) [of "read_request (cl_requests ?s1)"] by (simp add: controller_at_def cluster_init_def)
  from cluster_reachable.step [OF r1 reconcile [OF this]]
  have "cluster_reachable sample_extern env
      (?s1\<lparr>cl_mgr := m, cl_requests := [?k \<mapsto> record_decision c sample_request]\<rparr>)"
    unfolding e(5) by simp
  moreover have "c \<in> set (cr_Conditions (record_decision c sample_request))"
    by (simp add: record_decision_def sample_request_def)
  moreover have "cc_Type c = ConditionApproved \<and> cc_Reason c = ''policy.cert-manager.io''"
    using e(3) by (simp add: recorded_def cr_condition_key_def)
  ultimately show ?thesis using e(1,2) by (intro exI) auto
qed

theorem cluster_approvals_justified_witness:
  "\<exists>(env :: cluster_env) s cr. cluster_reachable sample_extern env s \<and>
     cl_requests s (''ns'', ''req'') = Some cr \<and> justified sample_extern sample_api cr (snd (cl_mgr s))"
proof -
  obtain env :: cluster_env and s cr c where e: "json_roundtrip env" "env_api env = sample_api"
    "cluster_reachable sample_extern env s" "cl_requests s (''ns'', ''req'') = Some cr"
    "c \<in> set (cr_Conditions cr)" "cc_Type c = ConditionApproved"
    using sample_cluster by blast
  from cluster_approvals_justified [OF sample_extern_doc(3,1) sample_decided_doc e(1,3-6)] e(2-4)
  show ?thesis by auto
qed

end
