(* ===== verification/AP_PolicyController.thy ===== *)
theory AP_PolicyController
  imports AP_System
begin

text \<open>
  The controller of CertificateRequestPolicies
  (\<^verbatim>\<open>pkg/internal/controllers/certificaterequestpolicies.go\<close>): a reconcile asks every approver
  whether the policy is ready and applies a status patch with a \<^verbatim>\<open>Ready\<close> condition, which is what
  the manager's predicate \<^verbatim>\<open>Ready\<close> reads. Approvers may ask for a re-sync of a policy through a
  channel; the goroutine that forwards these messages is modelled in \<open>AP_Watcher\<close>.
\<close>

section \<open>Status patches\<close>

definition CertificateRequestPolicyStatusConfiguration ::
  "string \<Rightarrow> PolicyStatus \<Rightarrow> PolicyStatus applyConfiguration" where
  "CertificateRequestPolicyStatusConfiguration name status =
     empty_configuration\<lparr>ac_Name := Some name, ac_Kind := Some ''CertificateRequestPolicy'',
       ac_APIVersion := Some ''policy.cert-manager.io/v1alpha1'', ac_Status := Some status\<rparr>"

definition GenerateCertificateRequestPolicyStatusPatch ::
  "(PolicyStatus applyConfiguration \<Rightarrow> goerr + string) \<Rightarrow> string \<Rightarrow> PolicyStatus \<Rightarrow>
   patch_target \<times> (goerr + string)" where
  "GenerateCertificateRequestPolicyStatusPatch marshal name status =
     (\<lparr>pt_Name = name, pt_Namespace = ''''\<rparr>,
      marshal (CertificateRequestPolicyStatusConfiguration name status))"

section \<open>Conditions\<close>

text \<open>The two loops of \<^verbatim>\<open>setCertificateRequestPolicyCondition\<close>.\<close>

definition keep_policy_time :: "PolicyCondition list \<Rightarrow> PolicyCondition \<Rightarrow> PolicyCondition" where
  "keep_policy_time existingConditions newCondition =
     foldl (\<lambda>new existing.
       if pc_Type existing \<noteq> pc_Type new then new
       else if pc_Status existing = pc_Status new
         then new\<lparr>pc_LastTransitionTime := pc_LastTransitionTime existing\<rparr> else new)
       newCondition existingConditions"

primrec put_policy_condition :: "PolicyCondition \<Rightarrow> PolicyCondition list \<Rightarrow> PolicyCondition list" where
  "put_policy_condition newCondition [] = [newCondition]"
| "put_policy_condition newCondition (patchCondition # patchConditions) =
     (if pc_Type patchCondition \<noteq> pc_Type newCondition
      then patchCondition # put_policy_condition newCondition patchConditions
      else (if pc_Status patchCondition = pc_Status newCondition
            then newCondition\<lparr>pc_LastTransitionTime := pc_LastTransitionTime patchCondition\<rparr>
            else newCondition) # patchConditions)"

definition setCertificateRequestPolicyCondition ::
  "int \<Rightarrow> PolicyCondition list \<Rightarrow> PolicyCondition list \<Rightarrow> int \<Rightarrow> PolicyCondition \<Rightarrow>
   PolicyCondition list" where
  "setCertificateRequestPolicyCondition now existingConditions patchConditions generation newCondition =
     put_policy_condition
       (keep_policy_time existingConditions
          (newCondition\<lparr>pc_LastTransitionTime := Some now, pc_ObservedGeneration := generation\<rparr>))
       patchConditions"

section \<open>Reconcile\<close>

type_synonym 's ready_fn =
  "CertificateRequestPolicy \<Rightarrow> ('s, goerr + ReconcilerReadyResponse) go"

record 's certificaterequestpolicies =
  pol_Get :: "string \<Rightarrow> goerr + CertificateRequestPolicy"
  pol_Now :: int
  pol_reconcilers :: "'s ready_fn list"
  pol_Marshal :: "PolicyStatus applyConfiguration \<Rightarrow> goerr + string"
  pol_Patch :: "patch_target \<Rightarrow> string \<Rightarrow> goerr option"

text \<open>The requeue options of the answer: asked for by \<^verbatim>\<open>Requeue\<close> or a positive \<^verbatim>\<open>RequeueAfter\<close>, the
  smallest delay wins.\<close>

definition capture_requeue :: "Result \<Rightarrow> ReconcilerReadyResponse \<Rightarrow> Result" where
  "capture_requeue result response =
     (if rr_Requeue response \<or> rr_RequeueAfter response > 0 then
        \<lparr>Requeue = True,
         RequeueAfter =
           (if \<not> Requeue result \<or> RequeueAfter result > rr_RequeueAfter response
            then rr_RequeueAfter response else RequeueAfter result)\<rparr>
      else result)"

primrec run_reconcilers ::
  "('u, 'e, 'a, 'p) extern \<Rightarrow> 's ready_fn list \<Rightarrow> CertificateRequestPolicy \<Rightarrow> string \<Rightarrow> Result \<Rightarrow> bool \<Rightarrow>
   field_error list \<Rightarrow> ('s, goerr + Result \<times> bool \<times> field_error list) go" where
  "run_reconcilers x [] policy name result ready el = go_ret (Inr (result, ready, el))"
| "run_reconcilers x (reconciler # reconcilers) policy name result ready el =
     go_bind (reconciler policy) (\<lambda>r.
       case r of
         Inl err \<Rightarrow> go_ret (Inl (ErrWrap
           (''failed to evaluate ready state of CertificateRequestPolicy '' @ x_Quote x name) err))
       | Inr response \<Rightarrow>
           run_reconcilers x reconcilers policy name (capture_requeue result response)
             (if \<not> rr_Ready response then False else ready) (el @ rr_Errors response))"

text \<open>The \<^verbatim>\<open>%s\<close> verb on an aggregate, which may be nil.\<close>

definition aggregate_text :: "('u, 'e, 'a, 'p) extern \<Rightarrow> field_error list \<Rightarrow> string" where
  "aggregate_text x el =
     (case x_ToAggregate x el of None \<Rightarrow> ''%!s(<nil>)'' | Some es \<Rightarrow> x_AggregateText x es)"

definition new_policy_condition :: "string \<Rightarrow> string \<Rightarrow> string \<Rightarrow> PolicyCondition" where
  "new_policy_condition status reason message =
     \<lparr>pc_Type = ConditionReady, pc_Status = status, pc_LastTransitionTime = None,
      pc_Reason = reason, pc_Message = message, pc_ObservedGeneration = 0\<rparr>"

definition crp_reconcileStatusPatch ::
  "('u, 'e, 'a, 'p) extern \<Rightarrow> 's certificaterequestpolicies \<Rightarrow> string \<Rightarrow>
   ('s \<times> ctl_call list, Result \<times> PolicyStatus option \<times> goerr option) go" where
  "crp_reconcileStatusPatch x c name =
     (case pol_Get c name of
        Inl err \<Rightarrow> go_ret (no_result, None, x_IgnoreNotFound x err)
      | Inr policy \<Rightarrow>
          go_bind (go_fst (run_reconcilers x (pol_reconcilers c) policy name no_result True [])) (\<lambda>r.
            case r of
              Inl err \<Rightarrow> go_ret (no_result, None, Some err)
            | Inr (result, ready, el) \<Rightarrow>
                if \<not> ready then
                  (let message = ''CertificateRequestPolicy is not ready for approval evaluation: '' @
                         aggregate_text x el
                   in go_bind (say (RecordEvent ''Warning'' ''NotReady'' message)) (\<lambda>_.
                        go_ret (result, Some \<lparr>p_Conditions =
                          setCertificateRequestPolicyCondition (pol_Now c)
                            (p_Conditions (p_Status policy)) [] (p_Generation policy)
                            (new_policy_condition ConditionFalse ''NotReady'' message)\<rparr>, None)))
                else
                  (let message = ''CertificateRequestPolicy is ready for approval evaluation''
                   in go_bind (say (RecordEvent ''Normal'' ''Ready'' message)) (\<lambda>_.
                        go_ret (result, Some \<lparr>p_Conditions =
                          setCertificateRequestPolicyCondition (pol_Now c)
                            (p_Conditions (p_Status policy)) [] (p_Generation policy)
                            (new_policy_condition ConditionTrue ''Ready'' message)\<rparr>, None)))))"

definition crp_Reconcile ::
  "('u, 'e, 'a, 'p) extern \<Rightarrow> 's certificaterequestpolicies \<Rightarrow> string \<Rightarrow>
   ('s \<times> ctl_call list, Result \<times> goerr option) go" where
  "crp_Reconcile x c name =
     go_bind (crp_reconcileStatusPatch x c name) (\<lambda>(result, patch, resultErr).
       case patch of
         None \<Rightarrow> go_ret (result, resultErr)
       | Some status \<Rightarrow>
           (let (target, encoded) =
                  GenerateCertificateRequestPolicyStatusPatch (pol_Marshal c) name status
            in case encoded of
                 Inl err \<Rightarrow> go_ret (no_result, x_NewAggregate x [resultErr,
                   Some (ErrWrap ''failed to generate CertificateRequestPolicy.Status patch'' err)])
               | Inr bytes \<Rightarrow>
                   go_bind (say (StatusPatch target
                       \<lparr>FieldManager = ''approver-policy'', Force = Some True\<rparr> bytes)) (\<lambda>_.
                     case pol_Patch c target bytes of
                       Some err \<Rightarrow> go_ret (no_result, x_NewAggregate x [resultErr,
                         Some (ErrWrap ''failed to apply CertificateRequestPolicy.Status patch'' err)])
                     | None \<Rightarrow> go_ret (result, resultErr))))"

section \<open>Facts\<close>

lemma keep_policy_time_simps [simp]:
  "pc_Type (keep_policy_time existing new) = pc_Type new"
  "pc_Status (keep_policy_time existing new) = pc_Status new"
  "pc_Reason (keep_policy_time existing new) = pc_Reason new"
  "pc_Message (keep_policy_time existing new) = pc_Message new"
  "pc_ObservedGeneration (keep_policy_time existing new) = pc_ObservedGeneration new"
  by (induction existing rule: rev_induct; simp add: keep_policy_time_def)+

definition same_policy_state :: "PolicyCondition \<Rightarrow> PolicyCondition \<Rightarrow> bool" where
  "same_policy_state new existing \<longleftrightarrow>
     pc_Type existing = pc_Type new \<and> pc_Status existing = pc_Status new"

lemma keep_policy_time_snoc:
  "keep_policy_time (existing @ [c]) new =
     (if same_policy_state new c
      then (keep_policy_time existing new)\<lparr>pc_LastTransitionTime := pc_LastTransitionTime c\<rparr>
      else keep_policy_time existing new)"
proof -
  have "keep_policy_time (existing @ [c]) new =
      (let k = keep_policy_time existing new in
       if pc_Type c \<noteq> pc_Type k then k
       else if pc_Status c = pc_Status k then k\<lparr>pc_LastTransitionTime := pc_LastTransitionTime c\<rparr> else k)"
    by (simp add: keep_policy_time_def Let_def)
  then show ?thesis by (auto simp: same_policy_state_def Let_def)
qed

lemma keep_policy_time_eq:
  "keep_policy_time existing new =
     new\<lparr>pc_LastTransitionTime :=
       (if filter (same_policy_state new) existing = [] then pc_LastTransitionTime new
        else pc_LastTransitionTime (last (filter (same_policy_state new) existing)))\<rparr>"
proof (induction existing rule: rev_induct)
  case Nil
  show ?case by (simp add: keep_policy_time_def)
next
  case (snoc c existing)
  then show ?case by (simp add: keep_policy_time_snoc)
qed

lemma run_reconcilers_responses:
  "go_collect (map (\<lambda>f. f policy) fs) s = Returns (r, s') \<Longrightarrow>
   run_reconcilers x fs policy name result ready el s = Returns ((case r of
       Inl e \<Rightarrow> Inl (ErrWrap
           (''failed to evaluate ready state of CertificateRequestPolicy '' @ x_Quote x name) e)
     | Inr rs \<Rightarrow> Inr (foldl capture_requeue result rs, ready \<and> (\<forall>resp \<in> set rs. rr_Ready resp),
          el @ concat (map rr_Errors rs))), s')"
proof (induction fs arbitrary: result ready el s r)
  case Nil
  then show ?case by (auto simp: go_ret_def)
next
  case (Cons f fs)
  from Cons.prems have "go_collect (f policy # map (\<lambda>f. f policy) fs) s = Returns (r, s')" by simp
  then show ?case
  proof (cases rule: go_collect_Cons)
    case (error e)
    then show ?thesis by (simp add: go_bind_def go_ret_def)
  next
    case (answer resp s1 r')
    with Cons.IH [OF answer(2)] show ?thesis
      by (cases r'; cases "rr_Ready resp") (simp_all add: go_bind_def)
  qed
qed

text \<open>The condition that a reconcile puts into its patch.\<close>

definition readiness_message ::
  "('u, 'e, 'a, 'p) extern \<Rightarrow> ReconcilerReadyResponse list \<Rightarrow> string" where
  "readiness_message x rs =
     (if \<forall>resp \<in> set rs. rr_Ready resp then ''CertificateRequestPolicy is ready for approval evaluation''
      else ''CertificateRequestPolicy is not ready for approval evaluation: '' @
        aggregate_text x (concat (map rr_Errors rs)))"

definition readiness_condition ::
  "('u, 'e, 'a, 'p) extern \<Rightarrow> int \<Rightarrow> CertificateRequestPolicy \<Rightarrow> ReconcilerReadyResponse list \<Rightarrow>
   PolicyCondition" where
  "readiness_condition x now policy rs =
     (let ready = (\<forall>resp \<in> set rs. rr_Ready resp)
      in keep_policy_time (p_Conditions (p_Status policy))
           \<lparr>pc_Type = ConditionReady, pc_Status = (if ready then ConditionTrue else ConditionFalse),
            pc_LastTransitionTime = Some now, pc_Reason = (if ready then ''Ready'' else ''NotReady''),
            pc_Message = readiness_message x rs, pc_ObservedGeneration = p_Generation policy\<rparr>)"

definition readiness_event ::
  "('u, 'e, 'a, 'p) extern \<Rightarrow> ReconcilerReadyResponse list \<Rightarrow> ctl_call" where
  "readiness_event x rs =
     (if \<forall>resp \<in> set rs. rr_Ready resp then RecordEvent ''Normal'' ''Ready'' (readiness_message x rs)
      else RecordEvent ''Warning'' ''NotReady'' (readiness_message x rs))"

lemma crp_reconcileStatusPatch_responses:
  assumes "pol_Get c name = Inr policy"
    and "go_collect (map (\<lambda>f. f policy) (pol_reconcilers c)) s = Returns (Inr rs, s')"
  shows "crp_reconcileStatusPatch x c name (s, log) = Returns
     ((foldl capture_requeue no_result rs,
       Some \<lparr>p_Conditions = [readiness_condition x (pol_Now c) policy rs]\<rparr>, None),
      (s', log @ [readiness_event x rs]))"
proof (cases "\<forall>resp \<in> set rs. rr_Ready resp")
  case True
  with run_reconcilers_responses [OF assms(2), of x name no_result True "[]"] assms(1) show ?thesis
    by (simp add: crp_reconcileStatusPatch_def go_bind_def go_fst_def go_ret_def say_def
        readiness_event_def readiness_message_def readiness_condition_def
        setCertificateRequestPolicyCondition_def new_policy_condition_def Let_def)
next
  case False
  with run_reconcilers_responses [OF assms(2), of x name no_result True "[]"] assms(1) show ?thesis
    by (auto simp: crp_reconcileStatusPatch_def go_bind_def go_fst_def go_ret_def say_def
        readiness_event_def readiness_message_def readiness_condition_def
        setCertificateRequestPolicyCondition_def new_policy_condition_def Let_def)
qed

section \<open>Properties\<close>

text \<open>C12: what a policy reconcile records. If every approver answers, one event and (if it can be
  encoded) one patch are sent, whose only condition is \<^verbatim>\<open>Ready\<close>, true exactly if all approvers are
  ready, for the policy's generation; the request predicate \<^verbatim>\<open>Ready\<close> reads it just so. A failure to
  encode or apply the patch is returned, otherwise the captured requeue options. An approver's
  error is returned with the policy's name, and nothing is recorded.\<close>

theorem policy_Reconcile_records_readiness:
  assumes "NewAggregate_doc x" and "pol_Get c name = Inr policy"
    and "go_collect (map (\<lambda>f. f policy) (pol_reconcilers c)) s = Returns (r, s')"
  shows "\<exists>result err new. crp_Reconcile x c name (s, log) = Returns ((result, err), (s', log @ new)) \<and>
     (case r of
        Inl e \<Rightarrow> new = [] \<and> err = Some (ErrWrap
          (''failed to evaluate ready state of CertificateRequestPolicy '' @ x_Quote x name) e)
      | Inr rs \<Rightarrow>
          let status = \<lparr>p_Conditions = [readiness_condition x (pol_Now c) policy rs]\<rparr> in
          (is_ready (policy\<lparr>p_Status := status\<rparr>) \<longleftrightarrow> (\<forall>resp \<in> set rs. rr_Ready resp)) \<and>
          (case pol_Marshal c (CertificateRequestPolicyStatusConfiguration name status) of
             Inl e \<Rightarrow> err \<noteq> None \<and> new = [readiness_event x rs]
           | Inr bytes \<Rightarrow>
               new = [readiness_event x rs, ApplyPatch \<lparr>pt_Name = name, pt_Namespace = ''''\<rparr> bytes] \<and>
               (if pol_Patch c \<lparr>pt_Name = name, pt_Namespace = ''''\<rparr> bytes = None
                then err = None \<and> result = foldl capture_requeue no_result rs else err \<noteq> None)))"
proof (cases r)
  case (Inl e)
  with run_reconcilers_responses [OF assms(3), of x name no_result True "[]"] assms(2) show ?thesis
    by (simp add: crp_Reconcile_def crp_reconcileStatusPatch_def go_bind_def go_fst_def go_ret_def)
next
  case (Inr rs)
  have agg: "x_NewAggregate x [None, Some e] \<noteq> None" for e
    using assms(1) by (simp add: NewAggregate_doc_def)
  let ?status = "\<lparr>p_Conditions = [readiness_condition x (pol_Now c) policy rs]\<rparr>"
  let ?target = "\<lparr>pt_Name = name, pt_Namespace = ''''\<rparr>"
  note run = crp_reconcileStatusPatch_responses [OF assms(2) assms(3) [unfolded Inr], of x log]
  have ready: "is_ready (policy\<lparr>p_Status := ?status\<rparr>) \<longleftrightarrow> (\<forall>resp \<in> set rs. rr_Ready resp)"
    by (simp add: is_ready_def readiness_condition_def Let_def)
  show ?thesis
  proof (cases "pol_Marshal c (CertificateRequestPolicyStatusConfiguration name ?status)")
    case (Inl e)
    with run agg ready \<open>r = Inr rs\<close> show ?thesis
      by (simp add: crp_Reconcile_def GenerateCertificateRequestPolicyStatusPatch_def go_bind_def
          go_ret_def Let_def)
  next
    case bytes: (Inr bytes)
    with run agg ready \<open>r = Inr rs\<close> show ?thesis
      by (cases "pol_Patch c ?target bytes")
        (simp_all add: crp_Reconcile_def GenerateCertificateRequestPolicyStatusPatch_def go_bind_def
          go_ret_def say_def Let_def)
  qed
qed

text \<open>Who asks for a requeue, as the loop of the controller reads a response: a positive delay alone is
  enough. The documentation of \<^verbatim>\<open>ReconcilerReadyResponse\<close> says that the delay is ignored where the
  response does not ask for a requeue.\<close>

definition asks_requeue :: "ReconcilerReadyResponse \<Rightarrow> bool" where
  "asks_requeue resp \<longleftrightarrow> rr_Requeue resp \<or> rr_RequeueAfter resp > 0"

lemma capture_requeue_foldl:
  "foldl capture_requeue no_result rs =
     (if filter asks_requeue rs = [] then no_result
      else \<lparr>Requeue = True, RequeueAfter = Min (rr_RequeueAfter ` set (filter asks_requeue rs))\<rparr>)"
proof (induction rs rule: rev_induct)
  case Nil
  show ?case by simp
next
  case (snoc resp rs)
  show ?case
  proof (cases "asks_requeue resp")
    case False
    then have "capture_requeue result resp = result" for result
      by (simp add: capture_requeue_def asks_requeue_def)
    with False snoc show ?thesis by simp
  next
    case True
    then have c: "capture_requeue result resp = \<lparr>Requeue = True, RequeueAfter =
        (if Requeue result then min (rr_RequeueAfter resp) (RequeueAfter result)
         else rr_RequeueAfter resp)\<rparr>" for result
      by (auto simp: capture_requeue_def asks_requeue_def min_def)
    let ?A = "rr_RequeueAfter ` set (filter asks_requeue rs)"
    show ?thesis
    proof (cases "filter asks_requeue rs = []")
      case empty: True
      then have "set (filter asks_requeue rs) = {}" by simp
      with True snoc empty show ?thesis by (simp add: c no_result_def)
    next
      case False
      then have "Min (insert (rr_RequeueAfter resp) ?A) = min (rr_RequeueAfter resp) (Min ?A)"
        by (intro Min_insert) (auto simp: filter_empty_conv)
      with True snoc False show ?thesis by (simp add: c)
    qed
  qed
qed

lemma requeue_asked:
  "Requeue (foldl capture_requeue no_result rs) \<longleftrightarrow> (\<exists>resp \<in> set rs. asks_requeue resp)"
  unfolding capture_requeue_foldl by (auto simp: no_result_def filter_empty_conv)

lemma requeue_le:
  assumes "resp \<in> set rs" and "asks_requeue resp"
  shows "RequeueAfter (foldl capture_requeue no_result rs) \<le> rr_RequeueAfter resp"
  using assms by (auto simp: capture_requeue_foldl filter_empty_conv intro!: Min_le)

lemma requeue_attained:
  assumes "\<exists>resp \<in> set rs. asks_requeue resp"
  shows "\<exists>resp \<in> set rs. asks_requeue resp \<and>
           RequeueAfter (foldl capture_requeue no_result rs) = rr_RequeueAfter resp"
proof -
  let ?A = "rr_RequeueAfter ` set (filter asks_requeue rs)"
  have "Min ?A \<in> ?A" using assms by (intro Min_in) auto
  moreover have "RequeueAfter (foldl capture_requeue no_result rs) = Min ?A"
    using assms by (auto simp: capture_requeue_foldl filter_empty_conv)
  ultimately show ?thesis by auto
qed

text \<open>C37: the answer asks for a requeue exactly if some approver sets \<^verbatim>\<open>Requeue\<close> or a positive
  \<^verbatim>\<open>RequeueAfter\<close>, and then after the smallest delay that any of those approvers gave. Where the
  approvers keep to the documentation, which has \<^verbatim>\<open>RequeueAfter\<close> count only beside \<^verbatim>\<open>Requeue\<close>, that is: if
  some approver sets \<^verbatim>\<open>Requeue\<close>. The code itself does not ignore a delay without \<^verbatim>\<open>Requeue\<close>, as the
  documentation says it does: such a response makes the answer ask for a requeue, no later than
  its delay.\<close>

theorem requeue_smallest:
  "(Requeue (foldl capture_requeue no_result rs) \<longleftrightarrow>
      (\<exists>resp \<in> set rs. rr_Requeue resp \<or> rr_RequeueAfter resp > 0)) \<and>
   (\<forall>resp \<in> set rs. asks_requeue resp \<longrightarrow>
      RequeueAfter (foldl capture_requeue no_result rs) \<le> rr_RequeueAfter resp) \<and>
   ((\<exists>resp \<in> set rs. asks_requeue resp) \<longrightarrow>
      (\<exists>resp \<in> set rs. asks_requeue resp \<and>
         RequeueAfter (foldl capture_requeue no_result rs) = rr_RequeueAfter resp)) \<and>
   ((\<forall>resp \<in> set rs. rr_RequeueAfter resp > 0 \<longrightarrow> rr_Requeue resp) \<longrightarrow>
      (Requeue (foldl capture_requeue no_result rs) \<longleftrightarrow> (\<exists>resp \<in> set rs. rr_Requeue resp))) \<and>
   (\<forall>resp \<in> set rs. \<not> rr_Requeue resp \<and> rr_RequeueAfter resp > 0 \<longrightarrow>
      Requeue (foldl capture_requeue no_result rs) \<and>
      RequeueAfter (foldl capture_requeue no_result rs) \<le> rr_RequeueAfter resp)"
  using requeue_asked [of rs] requeue_le [of _ rs] requeue_attained [of rs]
  by (intro conjI) (auto simp: asks_requeue_def)

theorem requeue_smallest_witness:
  "RequeueAfter (foldl capture_requeue no_result
     [\<lparr>rr_Ready = True, rr_Errors = [], rr_Requeue = False, rr_RequeueAfter = 9\<rparr>,
      \<lparr>rr_Ready = True, rr_Errors = [], rr_Requeue = True, rr_RequeueAfter = 5\<rparr>]) \<le> 5 \<and>
   Requeue (foldl capture_requeue no_result
     [\<lparr>rr_Ready = True, rr_Errors = [], rr_Requeue = False, rr_RequeueAfter = 9\<rparr>])"
proof
  let ?late = "\<lparr>rr_Ready = True, rr_Errors = [], rr_Requeue = False, rr_RequeueAfter = 9\<rparr>"
    and ?soon = "\<lparr>rr_Ready = True, rr_Errors = [], rr_Requeue = True, rr_RequeueAfter = 5\<rparr>"
  have "?soon \<in> set [?late, ?soon]" "asks_requeue ?soon" by (simp_all add: asks_requeue_def)
  with requeue_smallest [of "[?late, ?soon]"]
  have "RequeueAfter (foldl capture_requeue no_result [?late, ?soon]) \<le> rr_RequeueAfter ?soon" by blast
  then show "RequeueAfter (foldl capture_requeue no_result [?late, ?soon]) \<le> 5" by simp
  have "?late \<in> set [?late]" "\<not> rr_Requeue ?late \<and> rr_RequeueAfter ?late > 0" by simp_all
  with requeue_smallest [of "[?late]"] show "Requeue (foldl capture_requeue no_result [?late])" by blast
qed

lemma readiness_condition_again:
  "readiness_condition x later
     (policy\<lparr>p_Status := \<lparr>p_Conditions = [readiness_condition x now policy rs]\<rparr>\<rparr>) rs =
   readiness_condition x now policy rs"
  by (simp add: readiness_condition_def keep_policy_time_eq same_policy_state_def Let_def)

definition sample_policy_controller :: "string cache certificaterequestpolicies" where
  "sample_policy_controller =
     \<lparr>pol_Get = (\<lambda>_. Inr sample_policy), pol_Now = 5,
      pol_reconcilers = map a_Ready (Reconcilers (builtin_registry sample_extern)),
      pol_Marshal = (\<lambda>_. Inr ''patch''), pol_Patch = (\<lambda>_ _. None)\<rparr>"

theorem policy_Reconcile_records_readiness_witness:
  "\<exists>result msg. crp_Reconcile sample_extern sample_policy_controller ''web'' (NewCache, []) =
     Returns ((result, None), (NewCache, [RecordEvent ''Normal'' ''Ready'' msg,
       ApplyPatch \<lparr>pt_Name = ''web'', pt_Namespace = ''''\<rparr> ''patch'']))"
proof -
  let ?rs = "[\<lparr>rr_Ready = True, rr_Errors = [], rr_Requeue = False, rr_RequeueAfter = 0\<rparr>,
              \<lparr>rr_Ready = True, rr_Errors = [], rr_Requeue = False, rr_RequeueAfter = 0\<rparr>]"
  have get: "pol_Get sample_policy_controller ''web'' = Inr sample_policy"
    and others: "pol_Marshal sample_policy_controller = (\<lambda>_. Inr ''patch'')"
      "pol_Patch sample_policy_controller = (\<lambda>_ _. None)"
    by (simp_all add: sample_policy_controller_def)
  have "go_collect (map (\<lambda>f. f sample_policy) (pol_reconcilers sample_policy_controller)) NewCache =
      Returns (Inr ?rs, NewCache)"
    by (simp add: sample_policy_controller_def Reconcilers_def builtin_registry_def
        allowed_Approver_def constraints_Approver_def go_bind_def go_ret_def keep_def go_map_def)
  from policy_Reconcile_records_readiness [OF sample_extern_doc(2) get this, of "[]"] others
  show ?thesis by (auto simp: Let_def readiness_event_def)
qed

text \<open>C38: repeating a reconcile changes nothing. If the status of a reconcile has been stored and
  the approvers answer as before, a later reconcile at any time computes the identical status,
  transition time included.\<close>

theorem readiness_stable:
  assumes "pol_Get c name = Inr policy"
    and "go_collect (map (\<lambda>f. f policy) (pol_reconcilers c)) s = Returns (Inr rs, s1)"
    and "crp_reconcileStatusPatch x c name (s, log) = Returns ((result, Some status, err), w)"
    and "pol_Get c' name = Inr (policy\<lparr>p_Status := status\<rparr>)"
    and "go_collect (map (\<lambda>f. f (policy\<lparr>p_Status := status\<rparr>)) (pol_reconcilers c')) s1 =
           Returns (Inr rs, s2)"
  shows "\<exists>w'. crp_reconcileStatusPatch x c' name (s1, log') = Returns ((result, Some status, None), w')"
  using crp_reconcileStatusPatch_responses [OF assms(1,2), of x log]
    crp_reconcileStatusPatch_responses [OF assms(4,5), of x log'] assms(3)
  by (auto simp: readiness_condition_again)

theorem readiness_stable_witness:
  "\<exists>result status w w'.
     crp_reconcileStatusPatch sample_extern sample_policy_controller ''web'' (NewCache, []) =
       Returns ((result, Some status, None), w) \<and>
     crp_reconcileStatusPatch sample_extern (sample_policy_controller\<lparr>
         pol_Get := (\<lambda>_. Inr (sample_policy\<lparr>p_Status := status\<rparr>)), pol_Now := 99\<rparr>) ''web''
       (NewCache, []) = Returns ((result, Some status, None), w')"
proof -
  let ?rs = "[\<lparr>rr_Ready = True, rr_Errors = [], rr_Requeue = False, rr_RequeueAfter = 0\<rparr>,
              \<lparr>rr_Ready = True, rr_Errors = [], rr_Requeue = False, rr_RequeueAfter = 0\<rparr>]"
  have get: "pol_Get sample_policy_controller ''web'' = Inr sample_policy"
    by (simp add: sample_policy_controller_def)
  have rs: "go_collect (map (\<lambda>f. f p) (pol_reconcilers sample_policy_controller)) NewCache =
      Returns (Inr ?rs, NewCache)" for p
    by (simp add: sample_policy_controller_def Reconcilers_def builtin_registry_def
        allowed_Approver_def constraints_Approver_def go_bind_def go_ret_def keep_def go_map_def)
  obtain result status w where first:
    "crp_reconcileStatusPatch sample_extern sample_policy_controller ''web'' (NewCache, []) =
       Returns ((result, Some status, None), w)"
    using crp_reconcileStatusPatch_responses [OF get rs] by blast
  let ?c' = "sample_policy_controller\<lparr>pol_Get := (\<lambda>_. Inr (sample_policy\<lparr>p_Status := status\<rparr>)), pol_Now := 99\<rparr>"
  have "\<exists>w'. crp_reconcileStatusPatch sample_extern ?c' ''web'' (NewCache, []) =
       Returns ((result, Some status, None), w')"
    by (rule readiness_stable [OF get rs first]) (simp_all add: rs)
  with first show ?thesis by blast
qed

end
