(* ===== verification/AP_Watcher.thy ===== *)
theory AP_Watcher
  imports AP_PolicyController "HOL-Library.Sublist"
begin

text \<open>
  The goroutine in \<^verbatim>\<open>addCertificateRequestPolicyController\<close> that forwards the re-sync messages of
  the approvers: it selects over the channels of all approvers that have one and the context's
  done channel, forwards each message to the controller's event channel, and drops a channel that
  is closed. Senders and the context are the environment; its moves interleave with the
  goroutine's. Next to the channels the state keeps two histories, what was put into each channel
  and what was forwarded from it.
\<close>

section \<open>The goroutine\<close>

text \<open>The cases of the select statement, one per approver with a channel. The context's done channel
  is the case after the last one.\<close>

definition enqueueListSelect :: "'s approver list \<Rightarrow> nat option list" where
  "enqueueListSelect reconcilers =
     map (\<lambda>r. a_EnqueueChan r) (filter (\<lambda>r. a_EnqueueChan r \<noteq> None) reconcilers)"

datatype watcher_pc = Selecting | Sending nat string | Stopped

record watcher =
  w_select :: "nat option list"
  w_pc :: watcher_pc
  w_cancelled :: bool
  w_queue :: "nat \<Rightarrow> string list"
  w_closed :: "nat \<Rightarrow> bool"
  w_pushed :: "nat \<Rightarrow> string list"
  w_sent :: "(nat \<times> string) list"

text \<open>The runnable is only added to the manager if there is a channel.\<close>

definition start_watcher :: "'s approver list \<Rightarrow> watcher option" where
  "start_watcher reconcilers =
     (if length (enqueueListSelect reconcilers) > 0 then
        Some \<lparr>w_select = enqueueListSelect reconcilers, w_pc = Selecting, w_cancelled = False,
              w_queue = (\<lambda>_. []), w_closed = (\<lambda>_. False), w_pushed = (\<lambda>_. []), w_sent = []\<rparr>
      else None)"

inductive watch_step :: "watcher \<Rightarrow> watcher \<Rightarrow> bool" where
  recv: "w_pc s = Selecting \<Longrightarrow> i < length (w_select s) \<Longrightarrow> w_select s ! i = Some ch \<Longrightarrow>
    w_queue s ch = v # q \<Longrightarrow>
    watch_step s (s\<lparr>w_pc := Sending ch v, w_queue := (w_queue s)(ch := q)\<rparr>)"
| drop_closed: "w_pc s = Selecting \<Longrightarrow> i < length (w_select s) \<Longrightarrow> w_select s ! i = Some ch \<Longrightarrow>
    w_queue s ch = [] \<Longrightarrow> w_closed s ch \<Longrightarrow>
    watch_step s (s\<lparr>w_select := (w_select s)[i := None]\<rparr>)"
| done_selecting: "w_pc s = Selecting \<Longrightarrow> w_cancelled s \<Longrightarrow> watch_step s (s\<lparr>w_pc := Stopped\<rparr>)"
| send: "w_pc s = Sending ch v \<Longrightarrow>
    watch_step s (s\<lparr>w_pc := Selecting, w_sent := w_sent s @ [(ch, v)]\<rparr>)"
| done_sending: "w_pc s = Sending ch v \<Longrightarrow> w_cancelled s \<Longrightarrow> watch_step s (s\<lparr>w_pc := Stopped\<rparr>)"

inductive env_step :: "watcher \<Rightarrow> watcher \<Rightarrow> bool" where
  push: "\<not> w_closed s ch \<Longrightarrow>
    env_step s (s\<lparr>w_queue := (w_queue s)(ch := w_queue s ch @ [v]),
                 w_pushed := (w_pushed s)(ch := w_pushed s ch @ [v])\<rparr>)"
| close: "env_step s (s\<lparr>w_closed := (w_closed s)(ch := True)\<rparr>)"
| cancel: "env_step s (s\<lparr>w_cancelled := True\<rparr>)"

inductive watch_reachable :: "'s approver list \<Rightarrow> watcher \<Rightarrow> bool" for rs where
  start: "start_watcher rs = Some s \<Longrightarrow> watch_reachable rs s"
| own: "watch_reachable rs s \<Longrightarrow> watch_step s t \<Longrightarrow> watch_reachable rs t"
| other: "watch_reachable rs s \<Longrightarrow> env_step s t \<Longrightarrow> watch_reachable rs t"

inductive_cases watch_stepE: "watch_step s t"
inductive_cases env_stepE: "env_step s t"

section \<open>Invariants\<close>

definition forwarded :: "watcher \<Rightarrow> nat \<Rightarrow> string list" where
  "forwarded s ch = map snd (filter (\<lambda>m. fst m = ch) (w_sent s))"

definition in_flight :: "watcher \<Rightarrow> nat \<Rightarrow> string list" where
  "in_flight s ch = (case w_pc s of Sending c v \<Rightarrow> if c = ch then [v] else [] | _ \<Rightarrow> [])"

definition watch_inv :: "watcher \<Rightarrow> bool" where
  "watch_inv s \<longleftrightarrow>
     (w_pc s \<noteq> Stopped \<longrightarrow> (\<forall>ch. w_pushed s ch = forwarded s ch @ in_flight s ch @ w_queue s ch)) \<and>
     (\<forall>ch. prefix (forwarded s ch) (w_pushed s ch)) \<and>
     (w_pc s = Stopped \<longrightarrow> w_cancelled s)"

lemma watch_inv_start: "start_watcher rs = Some s \<Longrightarrow> watch_inv s"
  by (auto simp: start_watcher_def watch_inv_def forwarded_def in_flight_def split: if_splits)

lemma watch_inv_own: "watch_step s t \<Longrightarrow> watch_inv s \<Longrightarrow> watch_inv t"
  by (erule watch_stepE) (auto simp: watch_inv_def forwarded_def in_flight_def prefix_def)

lemma watch_inv_other: "env_step s t \<Longrightarrow> watch_inv s \<Longrightarrow> watch_inv t"
  by (erule env_stepE)
    (auto simp: watch_inv_def forwarded_def in_flight_def prefix_append split: watcher_pc.splits)

lemma watch_reachable_inv: "watch_reachable rs s \<Longrightarrow> watch_inv s"
  by (induction rule: watch_reachable.induct)
    (auto intro: watch_inv_start watch_inv_own watch_inv_other)

section \<open>Progress\<close>

definition selected_channels :: "watcher \<Rightarrow> nat set" where
  "selected_channels s = {ch. Some ch \<in> set (w_select s)}"

definition watch_measure :: "watcher \<Rightarrow> nat" where
  "watch_measure s =
     2 * (\<Sum>ch \<in> selected_channels s. length (w_queue s ch)) +
     length (filter (\<lambda>c. c \<noteq> None) (w_select s)) +
     (case w_pc s of Selecting \<Rightarrow> 1 | Sending _ _ \<Rightarrow> 2 | Stopped \<Rightarrow> 0)"

lemma finite_selected: "finite (selected_channels s)"
proof -
  have "selected_channels s \<subseteq> the ` set (w_select s)"
    by (force simp: selected_channels_def)
  then show ?thesis by (rule finite_subset) simp
qed

lemma length_filter_update_less:
  "i < length xs \<Longrightarrow> xs ! i = Some a \<Longrightarrow>
   length (filter (\<lambda>c. c \<noteq> None) (xs[i := None])) < length (filter (\<lambda>c. c \<noteq> None) xs)"
proof (induction xs arbitrary: i)
  case (Cons y ys)
  then show ?case by (cases i) auto
qed simp

lemma recv_decreases:
  assumes "Some ch \<in> set (w_select s)" and "w_queue s ch = v # q" and "w_pc s = Selecting"
  shows "watch_measure (s\<lparr>w_pc := Sending ch v, w_queue := (w_queue s)(ch := q)\<rparr>) < watch_measure s"
proof -
  let ?C = "selected_channels s"
  have ch: "ch \<in> ?C" using assms(1) by (simp add: selected_channels_def)
  have "(\<Sum>c \<in> ?C. length (((w_queue s)(ch := q)) c)) <
        (\<Sum>c \<in> ?C. length (w_queue s c))"
    using ch assms(2) by (intro sum_strict_mono_ex1 finite_selected) auto
  then show ?thesis
    using assms(3) by (simp add: watch_measure_def selected_channels_def)
qed

lemma drop_decreases:
  assumes "i < length (w_select s)" and "w_select s ! i = Some ch"
  shows "watch_measure (s\<lparr>w_select := (w_select s)[i := None]\<rparr>) < watch_measure s"
proof -
  let ?t = "s\<lparr>w_select := (w_select s)[i := None]\<rparr>"
  have "selected_channels ?t \<subseteq> selected_channels s"
    by (auto simp: selected_channels_def dest: set_update_subset_insert [THEN subsetD])
  then have "(\<Sum>c \<in> selected_channels ?t. length (w_queue s c)) \<le>
      (\<Sum>c \<in> selected_channels s. length (w_queue s c))"
    by (intro sum_mono2 finite_selected) auto
  then show ?thesis
    using length_filter_update_less [OF assms] by (simp add: watch_measure_def)
qed

lemma watch_step_decreases: "watch_step s t \<Longrightarrow> watch_measure t < watch_measure s"
proof (induction rule: watch_step.induct)
  case (recv s i ch v q)
  then have "Some ch \<in> set (w_select s)" by (metis nth_mem)
  with recv show ?case by (intro recv_decreases)
next
  case (drop_closed s i ch)
  then show ?case by (intro drop_decreases)
qed (auto simp: watch_measure_def selected_channels_def)

section \<open>Properties\<close>

text \<open>C14: the forwarder loses, repeats and reorders nothing. As long as it runs, the messages put
  into a channel are those it forwarded from that channel, in order, then the one it is about to
  forward, then those that wait; and also after it stopped, what it forwarded is a prefix of what
  was put in. It stops only when the context is cancelled.\<close>

theorem watcher_forwards_in_order:
  assumes "watch_reachable rs s"
  shows "(w_pc s \<noteq> Stopped \<longrightarrow> w_pushed s ch = forwarded s ch @ in_flight s ch @ w_queue s ch) \<and>
         prefix (forwarded s ch) (w_pushed s ch) \<and> (w_pc s = Stopped \<longrightarrow> w_cancelled s)"
  using watch_reachable_inv [OF assms] by (simp add: watch_inv_def)

definition sample_plugin :: "unit approver" where
  "sample_plugin = \<lparr>a_Name = ''plugin'', a_Prepare = go_ret None,
     a_Evaluate = (\<lambda>_ _. go_ret (Inr \<lparr>er_Result = True, er_Message = ''''\<rparr>)),
     a_Validate = (\<lambda>_. go_ret (Inr \<lparr>wv_Allowed = True, wv_Errors = [], wv_Warnings = []\<rparr>)),
     a_Ready = (\<lambda>_. go_ret (Inr \<lparr>rr_Ready = True, rr_Errors = [], rr_Requeue = False,
                                 rr_RequeueAfter = 0\<rparr>)),
     a_EnqueueChan = Some 3\<rparr>"

lemma sample_watcher:
  "\<exists>s. watch_reachable [sample_plugin] s \<and> w_pc s = Selecting \<and> w_queue s 3 = [''web''] \<and>
       w_select s = [Some 3] \<and> w_pushed s 3 = [''web'']"
proof -
  obtain s where s: "start_watcher [sample_plugin] = Some s" "w_pc s = Selecting" "\<not> w_closed s 3"
    "w_queue s 3 = []" "w_select s = [Some 3]" "w_pushed s 3 = []"
    by (simp add: start_watcher_def enqueueListSelect_def sample_plugin_def)
  have "watch_reachable [sample_plugin] (s\<lparr>w_queue := (w_queue s)(3 := w_queue s 3 @ [''web'']),
      w_pushed := (w_pushed s)(3 := w_pushed s 3 @ [''web''])\<rparr>)"
    by (rule other [OF start [OF s(1)] push [OF s(3)]])
  with s show ?thesis by (intro exI conjI) (assumption, simp_all)
qed

theorem watcher_forwards_in_order_witness:
  "\<exists>s. watch_reachable [sample_plugin] s \<and> w_pushed s 3 = [''web''] \<and>
       forwarded s 3 @ in_flight s 3 @ w_queue s 3 = [''web'']"
proof -
  obtain s where s: "watch_reachable [sample_plugin] s" "w_pc s = Selecting" "w_pushed s 3 = [''web'']"
    using sample_watcher by blast
  from watcher_forwards_in_order [OF s(1), of 3] s show ?thesis by auto
qed

text \<open>C39: the forwarder neither hangs nor spins. It can move whenever a selected channel holds a
  message or is closed, whenever it holds a message (which the controller receives), and whenever
  the context is cancelled; and
  each of its moves decreases a measure, so that without new messages it comes to rest after
  finitely many moves, closed channels included.\<close>

theorem watcher_progress:
  "(watch_step s t \<longrightarrow> watch_measure t < watch_measure s) \<and>
   (w_pc s = Selecting \<and> (w_cancelled s \<or>
      (\<exists>ch \<in> selected_channels s. w_queue s ch \<noteq> [] \<or> w_closed s ch)) \<longrightarrow> (\<exists>t. watch_step s t)) \<and>
   (w_pc s = Sending ch v \<longrightarrow> (\<exists>t. watch_step s t))"
proof (intro conjI impI)
  assume "w_pc s = Selecting \<and> (w_cancelled s \<or>
      (\<exists>ch \<in> selected_channels s. w_queue s ch \<noteq> [] \<or> w_closed s ch))"
  then consider (cancelled) "w_pc s = Selecting" "w_cancelled s"
    | (chan) ch i where "w_pc s = Selecting" "i < length (w_select s)" "w_select s ! i = Some ch"
        "w_queue s ch \<noteq> [] \<or> w_closed s ch"
    by (auto simp: selected_channels_def in_set_conv_nth)
  then show "\<exists>t. watch_step s t"
  proof cases
    case cancelled
    then show ?thesis by (blast intro: done_selecting)
  next
    case chan
    then show ?thesis by (cases "w_queue s ch") (auto intro: recv drop_closed)
  qed
qed (auto intro: watch_step_decreases send)

theorem watcher_progress_witness:
  "\<exists>s. watch_reachable [sample_plugin] s \<and> (\<exists>t. watch_step s t)"
proof -
  obtain s where s: "watch_reachable [sample_plugin] s" "w_pc s = Selecting" "w_queue s 3 = [''web'']"
    "w_select s = [Some 3]" using sample_watcher by blast
  with watcher_progress [of s s 3 "''web''"] show ?thesis
    by (auto simp: selected_channels_def)
qed

end
