(* ===== verification/AP_Metrics.thy ===== *)
theory AP_Metrics
  imports AP_Watcher
begin

text \<open>
  The Prometheus collector (\<^verbatim>\<open>pkg/internal/metrics/metrics.go\<close>): on every scrape it counts per
  namespace the requests that are approved, denied, and neither. The cache is a parameter: whether
  it is in sync, and what each of the three calls of \<^verbatim>\<open>List\<close> answers. The counts are reported as
  \<^verbatim>\<open>float64\<close>, which is exact for the length of any list that fits into memory.
\<close>

section \<open>The collector\<close>

datatype metric_desc = approvedCount | deniedCount | unmatchedCount

datatype metric_out =
    LogInfo string
  | LogError goerr string
  | Metric metric_desc int string   \<comment> \<open>description, value, namespace\<close>

text \<open>\<open>mc_WaitForCacheSync\<close> answers for a time limit in nanoseconds, \<open>mc_List\<close> for the number of
  the call.\<close>

record collector =
  mc_WaitForCacheSync :: "int \<Rightarrow> bool"
  mc_List :: "nat \<Rightarrow> goerr + CertificateRequest list"

definition hasSynced :: "collector \<Rightarrow> bool" where
  "hasSynced cc = mc_WaitForCacheSync cc (10 * 1000000)"

abbreviation ConditionUnknown :: string where
  "ConditionUnknown \<equiv> ''Unknown''"

primrec getStatus :: "string \<Rightarrow> CRCondition list \<Rightarrow> string" where
  "getStatus condTyp [] = ConditionUnknown"
| "getStatus condTyp (cond # conditions) =
     (if cc_Type cond = condTyp then cc_Status cond else getStatus condTyp conditions)"

text \<open>The body of the loops for a request that counts: the labels in the order of their first
  occurrence, and the map of counts.\<close>

fun count_label :: "string list \<times> (string \<rightharpoonup> int) \<Rightarrow> string \<Rightarrow> string list \<times> (string \<rightharpoonup> int)" where
  "count_label (labels, counts) k =
     (if counts k = None then labels @ [k] else labels,
      counts(k \<mapsto> (case counts k of None \<Rightarrow> 0 | Some n \<Rightarrow> n) + 1))"

definition send_metrics :: "metric_desc \<Rightarrow> string list \<times> (string \<rightharpoonup> int) \<Rightarrow> metric_out list" where
  "send_metrics desc st =
     map (\<lambda>key. Metric desc (case snd st key of None \<Rightarrow> 0 | Some n \<Rightarrow> n) key) (fst st)"

definition collectCRsApproved :: "goerr + CertificateRequest list \<Rightarrow> metric_out list" where
  "collectCRsApproved listed =
     (case listed of
        Inl err \<Rightarrow> [LogError err ''unable to list CertificateRequests'']
      | Inr items \<Rightarrow> send_metrics approvedCount (foldl (\<lambda>st cr.
          let approvedStatus = getStatus ConditionApproved (cr_Conditions cr)
          in if approvedStatus \<noteq> ConditionTrue then st else count_label st (cr_Namespace cr))
          ([], Map.empty) items))"

definition collectCRsDenied :: "goerr + CertificateRequest list \<Rightarrow> metric_out list" where
  "collectCRsDenied listed =
     (case listed of
        Inl err \<Rightarrow> [LogError err ''unable to list CertificateRequests'']
      | Inr items \<Rightarrow> send_metrics deniedCount (foldl (\<lambda>st cr.
          let deniedStatus = getStatus ConditionDenied (cr_Conditions cr)
          in if deniedStatus \<noteq> ConditionTrue then st else count_label st (cr_Namespace cr))
          ([], Map.empty) items))"

definition collectCRsUnmatched :: "goerr + CertificateRequest list \<Rightarrow> metric_out list" where
  "collectCRsUnmatched listed =
     (case listed of
        Inl err \<Rightarrow> [LogError err ''unable to list CertificateRequests'']
      | Inr items \<Rightarrow> send_metrics unmatchedCount (foldl (\<lambda>st cr.
          let approvedStatus = getStatus ConditionApproved (cr_Conditions cr);
              deniedStatus = getStatus ConditionDenied (cr_Conditions cr)
          in if approvedStatus = ConditionTrue \<or> deniedStatus = ConditionTrue then st
             else count_label st (cr_Namespace cr))
          ([], Map.empty) items))"

definition Collect_metrics :: "collector \<Rightarrow> metric_out list" where
  "Collect_metrics cc =
     (if \<not> hasSynced cc then
        [LogInfo ''cache not synced yet, skipping metrics approverpolicy_certificaterequest_*'']
      else collectCRsApproved (mc_List cc 0) @ collectCRsDenied (mc_List cc 1) @
        collectCRsUnmatched (mc_List cc 2))"

section \<open>Facts\<close>

text \<open>What the three loops share: they tally the namespaces of the requests that count.\<close>

definition tally :: "string list \<Rightarrow> string list \<times> (string \<rightharpoonup> int)" where
  "tally ks = foldl count_label ([], Map.empty) ks"

lemma foldl_skip:
  "foldl (\<lambda>st a. if P a then st else f st a) st xs = foldl f st (filter (\<lambda>a. \<not> P a) xs)"
  by (induction xs arbitrary: st) auto

lemma tally_snoc: "tally (ks @ [k]) = count_label (tally ks) k"
  by (simp add: tally_def)

lemma tally_counts:
  "snd (tally ks) k = (if k \<in> set ks then Some (int (count_list ks k)) else None)"
proof (induction ks rule: rev_induct)
  case (snoc k' ks)
  then show ?case
    by (cases "tally ks"; cases "k' \<in> set ks") (auto simp: tally_snoc count_list_append)
qed (simp add: tally_def)

lemma tally_labels: "set (fst (tally ks)) = set ks \<and> distinct (fst (tally ks))"
proof (induction ks rule: rev_induct)
  case (snoc k ks)
  with tally_counts [of ks k] show ?case
    by (cases "tally ks") (auto simp: tally_snoc)
qed (simp add: tally_def)

text \<open>The labels come in the order of first occurrence.\<close>

lemma tally_order: "fst (tally ks) = rev (remdups (rev ks))"
proof (induction ks rule: rev_induct)
  case (snoc k ks)
  with tally_counts [of ks k] show ?case
    by (cases "tally ks") (auto simp: tally_snoc)
qed (simp add: tally_def)

definition approved_status :: "CertificateRequest \<Rightarrow> bool" where
  "approved_status cr \<longleftrightarrow> getStatus ConditionApproved (cr_Conditions cr) = ConditionTrue"

definition denied_status :: "CertificateRequest \<Rightarrow> bool" where
  "denied_status cr \<longleftrightarrow> getStatus ConditionDenied (cr_Conditions cr) = ConditionTrue"

lemma collect_tally:
  "collectCRsApproved (Inr items) =
     send_metrics approvedCount (tally (map cr_Namespace (filter approved_status items)))"
  "collectCRsDenied (Inr items) =
     send_metrics deniedCount (tally (map cr_Namespace (filter denied_status items)))"
  "collectCRsUnmatched (Inr items) = send_metrics unmatchedCount
     (tally (map cr_Namespace (filter (\<lambda>cr. \<not> (approved_status cr \<or> denied_status cr)) items)))"
  unfolding collectCRsApproved_def collectCRsDenied_def collectCRsUnmatched_def tally_def
    approved_status_def denied_status_def Let_def
  by (simp_all only: sum.case foldl_skip foldl_map not_not)

lemma send_metrics_tally:
  "Metric desc n ns \<in> set (send_metrics desc' (tally ks)) \<longleftrightarrow>
     desc = desc' \<and> ns \<in> set ks \<and> n = int (count_list ks ns)"
  using tally_labels [of ks] tally_counts [of ks] by (auto simp: send_metrics_def)

lemma send_metrics_distinct: "distinct (send_metrics desc (tally ks))"
  using tally_labels [of ks] by (auto simp: send_metrics_def distinct_map inj_on_def)

lemma getStatus_True:
  assumes "distinct (map cc_Type conds)"
  shows "getStatus t conds = ConditionTrue \<longleftrightarrow>
     (\<exists>c \<in> set conds. cc_Type c = t \<and> cc_Status c = ConditionTrue)"
  using assms by (induction conds) (force simp: image_iff)+

lemma count_list_map_filter:
  "count_list (map g (filter P xs)) k = length (filter (\<lambda>a. P a \<and> g a = k) xs)"
  by (induction xs) auto

lemma filter_partition3:
  assumes "\<And>a. a \<in> set xs \<Longrightarrow> \<not> (P a \<and> Q a)"
  shows "length (filter (\<lambda>a. P a \<and> R a) xs) + length (filter (\<lambda>a. Q a \<and> R a) xs) +
         length (filter (\<lambda>a. \<not> (P a \<or> Q a) \<and> R a) xs) = length (filter R xs)"
  using assms by (induction xs) auto

section \<open>Properties\<close>

text \<open>Which requests a metric is about, by cert-manager's own reading of the conditions.\<close>

definition counted :: "('u, 'e, 'a, 'p) extern \<Rightarrow> metric_desc \<Rightarrow> CertificateRequest \<Rightarrow> bool" where
  "counted x desc cr =
     (case desc of
        approvedCount \<Rightarrow> x_IsApproved x cr
      | deniedCount \<Rightarrow> x_IsDenied x cr
      | unmatchedCount \<Rightarrow> \<not> x_IsApproved x cr \<and> \<not> x_IsDenied x cr)"

text \<open>The value a scrape shows for a series; 0 if the series is absent.\<close>

definition reported :: "metric_out list \<Rightarrow> metric_desc \<Rightarrow> string \<Rightarrow> int" where
  "reported out desc ns =
     sum_list (map (\<lambda>m. case m of Metric desc' n ns' \<Rightarrow> if desc' = desc \<and> ns' = ns then n else 0
                              | _ \<Rightarrow> 0) out)"

lemma reported_append: "reported (xs @ ys) desc ns = reported xs desc ns + reported ys desc ns"
  by (simp add: reported_def)

lemma sum_list_none:
  "a \<notin> set xs \<Longrightarrow> sum_list (map (\<lambda>b. if b = a then f b else 0) xs) = (0 :: int)"
  by (induction xs) auto

lemma sum_list_single:
  assumes "distinct xs" and "a \<notin> set xs \<Longrightarrow> f a = 0"
  shows "sum_list (map (\<lambda>b. if b = a then f b else 0) xs) = (f a :: int)"
  using assms by (induction xs) (auto simp: sum_list_none)

lemma reported_send:
  "reported (send_metrics desc' (tally ks)) desc ns =
     (if desc' = desc then int (count_list ks ns) else 0)"
proof -
  let ?f = "\<lambda>k. case snd (tally ks) k of None \<Rightarrow> 0 | Some n \<Rightarrow> n"
  have f: "?f ns = int (count_list ks ns)" by (simp add: tally_counts count_list_0_iff)
  have "reported (send_metrics desc' (tally ks)) desc ns =
      sum_list (map (\<lambda>k. if desc' = desc \<and> k = ns then ?f k else 0) (fst (tally ks)))"
    by (simp add: reported_def send_metrics_def comp_def)
  also have "\<dots> = (if desc' = desc then ?f ns else 0)"
    using sum_list_single [of "fst (tally ks)" ns ?f] tally_labels [of ks] tally_counts [of ks ns]
    by auto
  finally show ?thesis using f by simp
qed

lemma status_decided:
  assumes "decided_doc x" and "distinct (map cc_Type (cr_Conditions cr))"
  shows "approved_status cr \<longleftrightarrow> x_IsApproved x cr" and "denied_status cr \<longleftrightarrow> x_IsDenied x cr"
  using assms getStatus_True [OF assms(2)]
  by (simp_all add: decided_doc_def approved_status_def denied_status_def)

lemma reported_Collect:
  assumes "decided_doc x" and "hasSynced cc" and "\<And>i. mc_List cc i = Inr items"
    and "\<And>cr. cr \<in> set items \<Longrightarrow> distinct (map cc_Type (cr_Conditions cr))"
  shows "reported (Collect_metrics cc) desc ns =
     int (length (filter (\<lambda>cr. counted x desc cr \<and> cr_Namespace cr = ns) items))"
proof -
  have "filter approved_status items = filter (x_IsApproved x) items"
    "filter denied_status items = filter (x_IsDenied x) items"
    "filter (\<lambda>cr. \<not> (approved_status cr \<or> denied_status cr)) items =
     filter (\<lambda>cr. \<not> x_IsApproved x cr \<and> \<not> x_IsDenied x cr) items"
    using status_decided [OF assms(1) assms(4)] by (auto intro: filter_cong)
  then show ?thesis
    using assms(2,3)
    by (cases desc) (simp_all add: Collect_metrics_def collect_tally reported_append reported_send
        count_list_map_filter counted_def)
qed

text \<open>C19: a scrape is exact. If the cache is in sync and holds the same requests throughout, each
  with at most one condition of a type and none both approved and denied, then for every namespace
  the scrape reports the number of approved, of denied and of undecided requests, these add up to
  all requests of the namespace, no series is reported twice, and no value is zero. So a denied
  request counts as denied only: the approved count does not include it, and neither does the
  unmatched count although the request has no \<^verbatim>\<open>Approved\<close> condition, as the help texts of the metrics
  say and the comments above them do not. If the cache is not in sync, no series is reported.\<close>

theorem Collect_exact:
  assumes "decided_doc x" and "\<And>i. mc_List cc i = Inr items"
    and "\<And>cr. cr \<in> set items \<Longrightarrow>
           distinct (map cc_Type (cr_Conditions cr)) \<and> \<not> (x_IsApproved x cr \<and> x_IsDenied x cr)"
  shows "(hasSynced cc \<longrightarrow>
            (\<forall>desc ns. reported (Collect_metrics cc) desc ns =
               int (length (filter (\<lambda>cr. counted x desc cr \<and> cr_Namespace cr = ns) items))) \<and>
            (\<forall>ns. reported (Collect_metrics cc) approvedCount ns +
               reported (Collect_metrics cc) deniedCount ns +
               reported (Collect_metrics cc) unmatchedCount ns =
               int (length (filter (\<lambda>cr. cr_Namespace cr = ns) items))) \<and>
            distinct (map (\<lambda>m. case m of Metric desc n ns \<Rightarrow> (desc, ns)) (Collect_metrics cc)) \<and>
            (\<forall>m \<in> set (Collect_metrics cc). \<exists>desc n ns. m = Metric desc n ns \<and> n > 0)) \<and>
         (\<not> hasSynced cc \<longrightarrow> (\<forall>desc n ns. Metric desc n ns \<notin> set (Collect_metrics cc)))"
proof (intro conjI impI allI)
  assume synced: "hasSynced cc"
  let ?Q = "\<lambda>P desc ns. int (length (filter (\<lambda>cr. P x desc cr \<and> cr_Namespace cr = ns) items))"
  have "reported (Collect_metrics cc) desc ns = ?Q counted desc ns" for desc ns
    using reported_Collect [OF assms(1) synced assms(2)] assms(3) by blast
  note rep = this
  show "reported (Collect_metrics cc) desc ns = ?Q counted desc ns" for desc ns by (rule rep)
  show "reported (Collect_metrics cc) approvedCount ns + reported (Collect_metrics cc) deniedCount ns +
      reported (Collect_metrics cc) unmatchedCount ns =
      int (length (filter (\<lambda>cr. cr_Namespace cr = ns) items))" for ns
    using filter_partition3 [of items "x_IsApproved x" "x_IsDenied x" "\<lambda>cr. cr_Namespace cr = ns"]
      assms(3) by (simp add: rep counted_def)
  have parts: "Collect_metrics cc =
      collectCRsApproved (Inr items) @ collectCRsDenied (Inr items) @ collectCRsUnmatched (Inr items)"
    using synced assms(2) by (simp add: Collect_metrics_def)
  show "distinct (map (\<lambda>m. case m of Metric desc n ns \<Rightarrow> (desc, ns)) (Collect_metrics cc))"
    unfolding parts collect_tally
    by (auto simp: send_metrics_def comp_def distinct_map inj_on_def tally_labels)
  show "\<forall>m \<in> set (Collect_metrics cc). \<exists>desc n ns. m = Metric desc n ns \<and> n > 0"
    unfolding parts collect_tally using tally_labels
    by (auto simp: send_metrics_def tally_counts count_list_0_iff intro!: gr0I)
qed (auto simp: Collect_metrics_def)

definition sample_scrape :: "bool \<Rightarrow> collector" where
  "sample_scrape synced = \<lparr>mc_WaitForCacheSync = (\<lambda>_. synced), mc_List = (\<lambda>_. Inr
     [sample_request, sample_request\<lparr>cr_Conditions := [decision_condition 5 ConditionApproved ''ok'']\<rparr>])\<rparr>"

theorem Collect_exact_witness:
  "reported (Collect_metrics (sample_scrape True)) approvedCount ''ns'' = 1 \<and>
   reported (Collect_metrics (sample_scrape True)) unmatchedCount ''ns'' = 1 \<and>
   Metric approvedCount 1 ''ns'' \<notin> set (Collect_metrics (sample_scrape False))"
proof -
  let ?items = "[sample_request,
    sample_request\<lparr>cr_Conditions := [decision_condition 5 ConditionApproved ''ok'']\<rparr>]"
  have items: "mc_List (sample_scrape b) i = Inr ?items" for b i by (simp add: sample_scrape_def)
  have ok: "cr \<in> set ?items \<Longrightarrow> distinct (map cc_Type (cr_Conditions cr)) \<and>
      \<not> (x_IsApproved sample_extern cr \<and> x_IsDenied sample_extern cr)" for cr
    by (auto simp: sample_extern_def sample_request_def decision_condition_def)
  have synced: "hasSynced (sample_scrape True)" "\<not> hasSynced (sample_scrape False)"
    by (simp_all add: hasSynced_def sample_scrape_def)
  from Collect_exact [OF sample_decided_doc items ok] synced show ?thesis
    by (simp add: counted_def sample_extern_def sample_request_def decision_condition_def)
qed

end
