(* ===== verification/AP_Options.thy ===== *)
theory AP_Options
  imports AP_Metrics "HOL-Library.Word"
begin

text \<open>
  The command line options (\<^verbatim>\<open>pkg/internal/cmd/options/options.go\<close>): the flags with their defaults,
  the flag value \<^verbatim>\<open>logFormat\<close>, and the completion of the options after parsing. Flag sets come from
  pflag; a flag set is the list of the flags declared in it, and what pflag answers to
  \<^verbatim>\<open>MarkDeprecated\<close>, the flags of client-go's \<^verbatim>\<open>ConfigFlags\<close> and its REST config are parameters. Go's
  \<^verbatim>\<open>int\<close> has 64 bits.
\<close>

section \<open>Log formats\<close>

type_synonym logFormat = string

abbreviation logFormatText :: logFormat where
  "logFormatText \<equiv> ''text''"

abbreviation logFormatJSON :: logFormat where
  "logFormatJSON \<equiv> ''json''"

definition logFormat_String :: "logFormat \<Rightarrow> string" where
  "logFormat_String e = (if length e = 0 then logFormatText else e)"

text \<open>\<open>Set\<close> has a pointer receiver: the new value and the error.\<close>

definition logFormat_Set :: "logFormat \<Rightarrow> string \<Rightarrow> logFormat \<times> goerr option" where
  "logFormat_Set e v =
     (if v = ''text'' \<or> v = ''json'' then (v, None)
      else (e, Some (ErrNew (''must be one of '' @ [CHR 0x22] @ ''text'' @ [CHR 0x22] @ '' or '' @
              [CHR 0x22] @ ''json'' @ [CHR 0x22]))))"

definition logFormat_Type :: "logFormat \<Rightarrow> string" where
  "logFormat_Type e = ''string''"

section \<open>Options\<close>

record logOptions =
  lo_format :: logFormat
  lo_level :: "64 word"

record Webhook =
  Host :: string
  Port :: "64 word"
  ServiceName :: string
  CASecretNamespace :: string
  CASecretName :: string
  CADuration :: int
  LeafDuration :: int

datatype slog_handler = TextHandler "64 word" | JSONHandler "64 word"   \<comment> \<open>the level\<close>

record ('kube, 'cfg) Options =
  o_kubeConfigFlags :: "'kube option"
  o_MetricsAddress :: string
  o_LeaderElectionNamespace :: string
  o_ReadyzAddress :: string
  o_RestConfig :: "'cfg option"
  o_log :: logOptions
  o_Webhook :: Webhook
  o_Logr :: "slog_handler option"

text \<open>The zero value.\<close>

definition Options_New :: "('kube, 'cfg) Options" where
  "Options_New =
     \<lparr>o_kubeConfigFlags = None, o_MetricsAddress = '''', o_LeaderElectionNamespace = '''',
      o_ReadyzAddress = '''', o_RestConfig = None, o_log = \<lparr>lo_format = '''', lo_level = 0\<rparr>,
      o_Webhook = \<lparr>Host = '''', Port = 0, ServiceName = '''', CASecretNamespace = '''',
        CASecretName = '''', CADuration = 0, LeafDuration = 0\<rparr>,
      o_Logr = None\<rparr>"

section \<open>Flags\<close>

text \<open>A declared flag: its name, its shorthand (empty if it has none) and the type of its value.
  Declaring a flag for a variable stores the default in the variable.\<close>

record flag =
  fl_name :: string
  fl_short :: string
  fl_type :: string

type_synonym flagset = "flag list"

abbreviation stringVar :: "string \<Rightarrow> flag" where
  "stringVar name \<equiv> \<lparr>fl_name = name, fl_short = '''', fl_type = ''string''\<rparr>"

abbreviation intVarP :: "string \<Rightarrow> string \<Rightarrow> flag" where
  "intVarP name short \<equiv> \<lparr>fl_name = name, fl_short = short, fl_type = ''int''\<rparr>"

abbreviation durationVar :: "string \<Rightarrow> flag" where
  "durationVar name \<equiv> \<lparr>fl_name = name, fl_short = '''', fl_type = ''duration''\<rparr>"

abbreviation hour :: int where
  "hour \<equiv> 3600 * 1000000000"

definition addAppFlags :: "('kube, 'cfg) Options \<Rightarrow> ('kube, 'cfg) Options \<times> flagset" where
  "addAppFlags opts =
     (opts\<lparr>o_LeaderElectionNamespace := '''', o_MetricsAddress := '':9402'', o_ReadyzAddress := '':6060''\<rparr>,
      [stringVar ''leader-election-namespace'', stringVar ''metrics-bind-address'',
       stringVar ''readiness-probe-bind-address''])"

definition addLoggingFlags :: "('kube, 'cfg) Options \<Rightarrow> ('kube, 'cfg) Options \<times> flagset" where
  "addLoggingFlags opts =
     (opts\<lparr>o_log := (o_log opts)\<lparr>lo_level := 1\<rparr>\<rparr>,
      [\<lparr>fl_name = ''log-format'', fl_short = '''', fl_type = logFormat_Type (lo_format (o_log opts))\<rparr>,
       intVarP ''log-level'' ''v''])"

definition webhook_flags :: flagset where
  "webhook_flags =
     [stringVar ''webhook-host'', intVarP ''webhook-port'' '''', stringVar ''webhook-service-name'',
      stringVar ''webhook-ca-secret-namespace'', stringVar ''webhook-ca-secret-name'',
      durationVar ''webhook-ca-duration'', durationVar ''webhook-leaf-cert-duration'',
      stringVar ''webhook-certificate-dir'']"

text \<open>What pflag and cliflag do: \<^verbatim>\<open>MarkDeprecated\<close>, \<^verbatim>\<open>AddFlagSet\<close> (which may panic), the order in which Go
  iterates over the map of the named flag sets, and the text of \<^verbatim>\<open>PrintSections\<close>.\<close>

record pflag =
  pf_MarkDeprecated :: "flagset \<Rightarrow> string \<Rightarrow> string \<Rightarrow> goerr option"
  pf_AddFlagSet :: "flagset \<Rightarrow> flagset \<Rightarrow> flagset outcome"
  pf_range :: "(string \<times> flagset) list \<Rightarrow> (string \<times> flagset) list"
  pf_PrintSections :: "(string \<times> flagset) list \<Rightarrow> string"

definition addWebhookFlags ::
  "pflag \<Rightarrow> ('kube, 'cfg) Options \<Rightarrow> (('kube, 'cfg) Options \<times> flagset) outcome" where
  "addWebhookFlags pf opts =
     (let opts' = opts\<lparr>o_Webhook := \<lparr>Host = ''0.0.0.0'', Port = 6443,
            ServiceName = ''cert-manager-approver-policy'', CASecretNamespace = ''cert-manager'',
            CASecretName = ''cert-manager-approver-policy-tls'', CADuration = hour * 24 * 365,
            LeafDuration = hour * 24 * 7\<rparr>\<rparr>
      in case pf_MarkDeprecated pf webhook_flags ''webhook-certificate-dir''
                ''webhook-certificate-dir is deprecated'' of
           Some err \<Rightarrow> Panics (errText err)
         | None \<Rightarrow> Returns (opts', webhook_flags))"

text \<open>The named flag sets in the order of their creation; the flags of an approver go to the set
  with its name. \<open>kube\<close> are \<^verbatim>\<open>NewConfigFlags(true)\<close> and its flags, \<open>registerFlags\<close> the approvers'
  \<^verbatim>\<open>RegisterFlags\<close>.\<close>

definition add_to_set :: "string \<Rightarrow> flagset \<Rightarrow> (string \<times> flagset) list \<Rightarrow> (string \<times> flagset) list" where
  "add_to_set name fs nfs =
     (if name \<in> fst ` set nfs
      then map (\<lambda>(n, gs). if n = name then (n, gs @ fs) else (n, gs)) nfs
      else nfs @ [(name, fs)])"

text \<open>What \<^verbatim>\<open>addFlags\<close> gives the command: the named flag sets in the order of their creation, the flags of
  the command itself, and its usage and help texts, for the command's use line and description.\<close>

record command_flags =
  cf_sections :: "(string \<times> flagset) list"
  cf_flags :: flagset
  cf_Usage :: "string \<Rightarrow> string"
  cf_Help :: "string \<Rightarrow> string \<Rightarrow> string"

definition usage_text :: "pflag \<Rightarrow> (string \<times> flagset) list \<Rightarrow> string \<Rightarrow> string" where
  "usage_text pf nfs useLine =
     ''Usage:'' @ [CHR 0x0A] @ ''  '' @ useLine @ [CHR 0x0A] @ pf_PrintSections pf nfs"

definition help_text :: "pflag \<Rightarrow> (string \<times> flagset) list \<Rightarrow> string \<Rightarrow> string \<Rightarrow> string" where
  "help_text pf nfs long useLine =
     long @ [CHR 0x0A, CHR 0x0A] @ ''Usage:'' @ [CHR 0x0A] @ ''  '' @ useLine @ [CHR 0x0A] @ pf_PrintSections pf nfs"

primrec merge_flags :: "pflag \<Rightarrow> (string \<times> flagset) list \<Rightarrow> flagset \<Rightarrow> flagset outcome" where
  "merge_flags pf [] fs = Returns fs"
| "merge_flags pf (f # nfs) fs = out_bind (pf_AddFlagSet pf fs (snd f)) (merge_flags pf nfs)"

definition addFlags ::
  "pflag \<Rightarrow> 'kube \<times> flagset \<Rightarrow> ('s approver \<Rightarrow> flagset) \<Rightarrow> 's approver list \<Rightarrow> ('kube, 'cfg) Options \<Rightarrow>
   (('kube, 'cfg) Options \<times> command_flags) outcome" where
  "addFlags pf kube registerFlags approvers opts =
     (let (opts1, app) = addAppFlags opts;
          (opts2, logging) = addLoggingFlags opts1
      in out_bind (addWebhookFlags pf opts2) (\<lambda>(opts3, webhook).
           let nfs = foldl (\<lambda>nfs approver. add_to_set (a_Name approver) (registerFlags approver) nfs)
                 [(''App'', app), (''Logging'', logging), (''Webhook'', webhook), (''Kubernetes'', snd kube)]
                 approvers
           in out_bind (merge_flags pf (pf_range pf nfs) []) (\<lambda>flags.
                Returns (opts3\<lparr>o_kubeConfigFlags := Some (fst kube)\<rparr>,
                  \<lparr>cf_sections = nfs, cf_flags = flags, cf_Usage = usage_text pf nfs, cf_Help = help_text pf nfs\<rparr>))))"

definition Options_Prepare ::
  "pflag \<Rightarrow> 'kube \<times> flagset \<Rightarrow> ('s approver \<Rightarrow> flagset) \<Rightarrow> 's approver list \<Rightarrow> ('kube, 'cfg) Options \<Rightarrow>
   (('kube, 'cfg) Options \<times> command_flags) outcome" where
  "Options_Prepare pf kube registerFlags approvers opts = addFlags pf kube registerFlags approvers opts"

section \<open>Completion\<close>

text \<open>The handler is also installed as the default of slog and klog. \<open>toREST\<close> is
  \<^verbatim>\<open>ConfigFlags.ToRESTConfig\<close>.\<close>

definition Options_Complete ::
  "('kube option \<Rightarrow> 'cfg option \<times> goerr option) \<Rightarrow> ('kube, 'cfg) Options \<Rightarrow>
   goerr option \<times> ('kube, 'cfg) Options" where
  "Options_Complete toREST opts =
     (let level = - lo_level (o_log opts);
          handler = (if lo_format (o_log opts) = logFormatJSON then JSONHandler level else TextHandler level);
          (cfg, err) = toREST (o_kubeConfigFlags opts);
          opts' = opts\<lparr>o_RestConfig := cfg, o_Logr := Some handler\<rparr>
      in case err of
           Some e \<Rightarrow> (Some (ErrNew (''failed to build kubernetes rest config: '' @ errText e)), opts')
         | None \<Rightarrow> (None, opts'))"

section \<open>Properties\<close>

text \<open>Flags that can live in one set: no name and no shorthand is taken twice.\<close>

definition shorthands :: "flagset \<Rightarrow> string list" where
  "shorthands fs = filter (\<lambda>s. s \<noteq> []) (map fl_short fs)"

definition compatible :: "flagset \<Rightarrow> bool" where
  "compatible fs \<longleftrightarrow> distinct (map fl_name fs) \<and> distinct (shorthands fs)"

text \<open>pflag: marking a declared flag as deprecated with a message succeeds, and a set of compatible flags
  can be added to another. A map is iterated over in some order.\<close>

definition pflag_doc :: "pflag \<Rightarrow> bool" where
  "pflag_doc pf \<longleftrightarrow>
     (\<forall>fs name msg. name \<in> fl_name ` set fs \<and> msg \<noteq> [] \<longrightarrow> pf_MarkDeprecated pf fs name msg = None) \<and>
     (\<forall>fs gs. compatible (fs @ gs) \<longrightarrow>
        (\<exists>hs. pf_AddFlagSet pf fs gs = Returns hs \<and> mset hs = mset fs + mset gs)) \<and>
     (\<forall>nfs. mset (pf_range pf nfs) = mset nfs)"

lemma compatible_perm: "mset fs = mset gs \<Longrightarrow> compatible fs = compatible gs"
proof -
  assume eq: "mset fs = mset gs"
  then have "mset (map fl_name fs) = mset (map fl_name gs)" "mset (shorthands fs) = mset (shorthands gs)"
    by (simp_all add: shorthands_def)
  then show ?thesis unfolding compatible_def by (metis mset_eq_imp_distinct_iff)
qed

lemma compatible_append: "compatible (fs @ gs) \<Longrightarrow> compatible fs"
  by (simp add: compatible_def shorthands_def)

lemma merge_flags_ok:
  assumes "pflag_doc pf" and "compatible (fs @ concat (map snd nfs))"
  shows "\<exists>hs. merge_flags pf nfs fs = Returns hs \<and> mset hs = mset fs + mset (concat (map snd nfs))"
  using assms(2)
proof (induction nfs arbitrary: fs)
  case (Cons f nfs)
  have "compatible (fs @ snd f)"
    by (rule compatible_append [of _ "concat (map snd nfs)"]) (use Cons.prems in simp)
  then obtain hs where hs: "pf_AddFlagSet pf fs (snd f) = Returns hs" "mset hs = mset fs + mset (snd f)"
    using assms(1) unfolding pflag_doc_def by blast
  then have "compatible (hs @ concat (map snd nfs))"
    using Cons.prems compatible_perm [of "hs @ concat (map snd nfs)" "fs @ concat (map snd (f # nfs))"] by simp
  from Cons.IH [OF this] hs show ?case by (auto simp: ac_simps)
qed simp

definition extend_set :: "string \<Rightarrow> flagset \<Rightarrow> string \<times> flagset \<Rightarrow> string \<times> flagset" where
  "extend_set name fs f = (if fst f = name then (fst f, snd f @ fs) else f)"

lemma extend_set_other: "name \<notin> fst ` set nfs \<Longrightarrow> map (extend_set name fs) nfs = nfs"
  by (intro map_idI) (auto simp: extend_set_def)

lemma extend_set_flags:
  assumes "distinct (map fst nfs)" and "name \<in> fst ` set nfs"
  shows "mset (concat (map snd (map (extend_set name fs) nfs))) = mset (concat (map snd nfs)) + mset fs"
  using assms
proof (induction nfs)
  case (Cons f nfs)
  show ?case
  proof (cases "fst f = name")
    case True
    with Cons.prems(1) have "map (extend_set name fs) nfs = nfs" by (intro extend_set_other) auto
    moreover have "extend_set name fs f = (name, snd f @ fs)" using True by (simp add: extend_set_def)
    ultimately show ?thesis by (simp del: map_map)
  next
    case False
    with Cons.prems have "name \<in> fst ` set nfs" "distinct (map fst nfs)" by auto
    moreover have "extend_set name fs f = f" using False by (simp add: extend_set_def)
    ultimately show ?thesis using Cons.IH by (simp del: map_map)
  qed
qed simp

lemma add_to_set_flags:
  assumes "distinct (map fst nfs)"
  shows "mset (concat (map snd (add_to_set name fs nfs))) = mset (concat (map snd nfs)) + mset fs"
    and "distinct (map fst (add_to_set name fs nfs))"
proof -
  have eq: "add_to_set name fs nfs = (if name \<in> fst ` set nfs then map (extend_set name fs) nfs else nfs @ [(name, fs)])"
    by (simp add: add_to_set_def extend_set_def case_prod_unfold)
  have keys: "map fst (map (extend_set name fs) nfs) = map fst nfs"
    by (simp add: extend_set_def)
  then have "distinct (map fst (map (extend_set name fs) nfs))" using assms by (simp only:)
  moreover have "distinct (map fst (nfs @ [(name, fs)]))" if "name \<notin> fst ` set nfs"
    using assms that by simp
  ultimately show "distinct (map fst (add_to_set name fs nfs))"
    unfolding eq by (simp only: split: if_split) blast
  show "mset (concat (map snd (add_to_set name fs nfs))) = mset (concat (map snd nfs)) + mset fs"
    unfolding eq using extend_set_flags [OF assms, of name fs] by (cases "name \<in> fst ` set nfs") (simp_all del: map_map)
qed

lemma approver_flags:
  assumes "distinct (map fst nfs)"
  shows "mset (concat (map snd (foldl (\<lambda>nfs a. add_to_set (a_Name a) (reg a) nfs) nfs approvers))) =
    mset (concat (map snd nfs)) + mset (concat (map reg approvers))"
  using assms
proof (induction approvers arbitrary: nfs)
  case (Cons a approvers)
  from Cons.IH [OF add_to_set_flags(2) [OF Cons.prems]] add_to_set_flags(1) [OF Cons.prems] show ?case
    by (simp add: ac_simps)
qed simp

lemma add_to_set_keeps:
  "(n, fs) \<in> set nfs \<Longrightarrow> n \<noteq> name \<Longrightarrow> (n, fs) \<in> set (add_to_set name gs nfs)"
  by (force simp: add_to_set_def)

lemma approver_sets_keep:
  "(n, fs) \<in> set nfs \<Longrightarrow> n \<notin> a_Name ` set approvers \<Longrightarrow>
   (n, fs) \<in> set (foldl (\<lambda>nfs a. add_to_set (a_Name a) (reg a) nfs) nfs approvers)"
  by (induction approvers arbitrary: nfs) (simp_all add: add_to_set_keeps)

text \<open>The flags of the program itself, by section.\<close>

definition app_flags :: flagset where
  "app_flags = [stringVar ''leader-election-namespace'', stringVar ''metrics-bind-address'',
     stringVar ''readiness-probe-bind-address'']"

definition logging_flags :: flagset where
  "logging_flags = [\<lparr>fl_name = ''log-format'', fl_short = '''', fl_type = ''string''\<rparr>, intVarP ''log-level'' ''v'']"

abbreviation own_flags :: flagset where
  "own_flags \<equiv> app_flags @ logging_flags @ webhook_flags"

lemma own_flags_compatible: "compatible own_flags"
  by (simp add: compatible_def shorthands_def app_flags_def logging_flags_def webhook_flags_def)

text \<open>The program's flags do not clash with others that clash neither among themselves nor with their
  names, and do not use the shorthand \<^verbatim>\<open>v\<close>.\<close>

lemma own_flags_extended:
  assumes "compatible fs" and "fl_name ` set own_flags \<inter> fl_name ` set fs = {}" and "''v'' \<notin> fl_short ` set fs"
  shows "compatible (own_flags @ fs)"
proof -
  have "shorthands own_flags = [''v'']"
    by (simp add: shorthands_def app_flags_def logging_flags_def webhook_flags_def)
  then have "shorthands (own_flags @ fs) = ''v'' # shorthands fs" by (simp add: shorthands_def)
  moreover have "''v'' \<notin> set (shorthands fs)" using assms(3) by (auto simp: shorthands_def)
  ultimately have "distinct (shorthands (own_flags @ fs))" using assms(1) by (simp add: compatible_def)
  moreover have "distinct (map fl_name (own_flags @ fs))"
    using assms(1,2) own_flags_compatible unfolding compatible_def map_append [of _ own_flags fs] distinct_append by (simp add: image_Un)
  ultimately show ?thesis by (simp add: compatible_def)
qed

lemma mset_concat_map_perm:
  assumes "mset xs = mset ys"
  shows "mset (concat (map f xs)) = mset (concat (map f ys))"
proof -
  have "mset (map (\<lambda>a. mset (f a)) xs) = mset (map (\<lambda>a. mset (f a)) ys)"
    by (simp only: mset_map assms)
  then have "sum_list (map (\<lambda>a. mset (f a)) xs) = sum_list (map (\<lambda>a. mset (f a)) ys)"
    by (simp only: sum_mset_sum_list [symmetric])
  then show ?thesis by (simp only: mset_concat map_map comp_def)
qed

lemma Options_Prepare_ok:
  assumes "pflag_doc pf" and "compatible (own_flags @ snd kube @ concat (map reg approvers))"
  shows "\<exists>opts cf. Options_Prepare pf kube reg approvers (Options_New :: ('kube, 'cfg) Options) = Returns (opts, cf) \<and>
    cf_sections cf = foldl (\<lambda>nfs a. add_to_set (a_Name a) (reg a) nfs)
      [(''App'', app_flags), (''Logging'', logging_flags), (''Webhook'', webhook_flags), (''Kubernetes'', snd kube)]
      approvers \<and>
    mset (cf_flags cf) = mset (own_flags @ snd kube @ concat (map reg approvers)) \<and>
    cf_Usage cf = usage_text pf (cf_sections cf) \<and> cf_Help cf = help_text pf (cf_sections cf) \<and>
    o_kubeConfigFlags opts = Some (fst kube) \<and> lo_level (o_log opts) = 1 \<and> lo_format (o_log opts) = ''''"
proof -
  let ?first = "[(''App'', app_flags), (''Logging'', logging_flags), (''Webhook'', webhook_flags),
    (''Kubernetes'', snd kube)]"
  let ?nfs = "foldl (\<lambda>nfs a. add_to_set (a_Name a) (reg a) nfs) ?first approvers"
  have deprecated: "pf_MarkDeprecated pf webhook_flags ''webhook-certificate-dir''
      ''webhook-certificate-dir is deprecated'' = None"
    using assms(1) by (simp add: pflag_doc_def webhook_flags_def)
  have "mset (concat (map snd ?nfs)) = mset (own_flags @ snd kube @ concat (map reg approvers))"
    by (subst approver_flags) simp_all
  moreover have "mset (concat (map snd (pf_range pf ?nfs))) = mset (concat (map snd ?nfs))"
    by (rule mset_concat_map_perm) (use assms(1) in \<open>simp add: pflag_doc_def\<close>)
  ultimately have all: "mset (concat (map snd (pf_range pf ?nfs))) =
      mset (own_flags @ snd kube @ concat (map reg approvers))" by simp
  have "compatible ([] @ concat (map snd (pf_range pf ?nfs)))"
    unfolding append_Nil compatible_perm [OF all] by (rule assms(2))
  from merge_flags_ok [OF assms(1) this] all obtain flags
    where "merge_flags pf (pf_range pf ?nfs) [] = Returns flags"
      "mset flags = mset (own_flags @ snd kube @ concat (map reg approvers))" by auto
  moreover have "snd (addAppFlags opts) = app_flags" "snd (addLoggingFlags opts) = logging_flags"
    for opts :: "('kube, 'cfg) Options"
    by (simp_all add: addAppFlags_def addLoggingFlags_def app_flags_def logging_flags_def logFormat_Type_def)
  ultimately show ?thesis
    using deprecated
    by (simp add: Options_Prepare_def addFlags_def addWebhookFlags_def Let_def case_prod_unfold)
      (simp add: addAppFlags_def addLoggingFlags_def Options_New_def)
qed

text \<open>The options start and complete as documented. If the flags of client-go and of the approvers do
  not clash among themselves, do not have the names of the program's own flags and do not use the
  shorthand \<^verbatim>\<open>v\<close>, preparing fresh options does not panic, whatever the order of Go's map of flag sets,
  and the command gets all flags of the program, of client-go and of the approvers, with distinct
  names and shorthands, the program's own in sections that no approver of another name disturbs; its help is its description and its usage. The log format accepts exactly
  \<^verbatim>\<open>text\<close> and \<^verbatim>\<open>json\<close>, keeps its value on anything else, prints what was set, and prints \<^verbatim>\<open>text\<close> while
  unset. Completing installs the handler of the format that is printed, with the negated verbosity as
  its level, and returns an error exactly if there is no REST config.\<close>

theorem options_lifecycle:
  assumes "pflag_doc pf" and "compatible (snd kube @ concat (map reg approvers))"
    and "fl_name ` set own_flags \<inter> fl_name ` set (snd kube @ concat (map reg approvers)) = {}"
    and "''v'' \<notin> fl_short ` set (snd kube @ concat (map reg approvers))"
    and "{''App'', ''Logging'', ''Webhook''} \<inter> a_Name ` set approvers = {}"
  shows "\<exists>opts cf.
     Options_Prepare pf kube reg approvers (Options_New :: ('kube, 'cfg) Options) = Returns (opts, cf) \<and>
     mset (cf_flags cf) = mset (own_flags @ snd kube @ concat (map reg approvers)) \<and> compatible (cf_flags cf) \<and>
     {(''App'', app_flags), (''Logging'', logging_flags), (''Webhook'', webhook_flags)} \<subseteq> set (cf_sections cf) \<and>
     (\<forall>long useLine. cf_Help cf long useLine = long @ [CHR 0x0A, CHR 0x0A] @ cf_Usage cf useLine) \<and>
     o_kubeConfigFlags opts = Some (fst kube) \<and> lo_level (o_log opts) = 1 \<and>
     logFormat_String (lo_format (o_log opts)) = ''text'' \<and>
     (\<forall>e v. logFormat_Set e v = (v, None) \<and> logFormat_String v = v \<or>
            fst (logFormat_Set e v) = e \<and> snd (logFormat_Set e v) \<noteq> None) \<and>
     (\<forall>e v. snd (logFormat_Set e v) = None \<longleftrightarrow> v \<in> {''text'', ''json''}) \<and>
     (\<forall>fmt level toREST.
        let (err, completed) = Options_Complete toREST (opts\<lparr>o_log := \<lparr>lo_format = fmt, lo_level = level\<rparr>\<rparr>)
        in o_Logr completed = Some (if logFormat_String fmt = ''json'' then JSONHandler (- level)
                                    else TextHandler (- level)) \<and>
           (err = None \<longleftrightarrow> snd (toREST (Some (fst kube))) = None) \<and>
           o_RestConfig completed = fst (toREST (Some (fst kube))))"
proof -
  note all = own_flags_extended [OF assms(2-4)]
  from Options_Prepare_ok [OF assms(1) all, where ?'cfg = 'cfg] obtain opts cf where prep:
    "Options_Prepare pf kube reg approvers (Options_New :: ('kube, 'cfg) Options) = Returns (opts, cf)"
    "cf_sections cf = foldl (\<lambda>nfs a. add_to_set (a_Name a) (reg a) nfs)
       [(''App'', app_flags), (''Logging'', logging_flags), (''Webhook'', webhook_flags), (''Kubernetes'', snd kube)]
       approvers"
    "mset (cf_flags cf) = mset (own_flags @ snd kube @ concat (map reg approvers))"
    "cf_Usage cf = usage_text pf (cf_sections cf)" "cf_Help cf = help_text pf (cf_sections cf)"
    "o_kubeConfigFlags opts = Some (fst kube)" "lo_level (o_log opts) = 1" "lo_format (o_log opts) = ''''"
    by blast
  have "{(''App'', app_flags), (''Logging'', logging_flags), (''Webhook'', webhook_flags)} \<subseteq> set (cf_sections cf)"
    unfolding prep(2) using assms(5) by (auto intro!: approver_sets_keep)
  moreover have "compatible (cf_flags cf)" unfolding compatible_perm [OF prep(3)] by (rule all)
  moreover have "let (err, completed) = Options_Complete toREST (opts\<lparr>o_log := \<lparr>lo_format = fmt, lo_level = level\<rparr>\<rparr>)
        in o_Logr completed = Some (if logFormat_String fmt = ''json'' then JSONHandler (- level)
                                    else TextHandler (- level)) \<and>
           (err = None \<longleftrightarrow> snd (toREST (Some (fst kube))) = None) \<and>
           o_RestConfig completed = fst (toREST (Some (fst kube)))" for fmt level toREST
    using prep(6) by (auto simp: Options_Complete_def Let_def logFormat_String_def split: prod.splits option.splits)
  moreover have "cf_Help cf long useLine = long @ [CHR 0x0A, CHR 0x0A] @ cf_Usage cf useLine" for long useLine
    by (simp add: prep(4,5) usage_text_def help_text_def)
  moreover have "logFormat_Set e v = (v, None) \<and> logFormat_String v = v \<or>
      fst (logFormat_Set e v) = e \<and> snd (logFormat_Set e v) \<noteq> None"
    "snd (logFormat_Set e v) = None \<longleftrightarrow> v \<in> {''text'', ''json''}" for e v
    by (auto simp: logFormat_String_def logFormat_Set_def)
  moreover have "logFormat_String (lo_format (o_log opts)) = ''text''"
    by (simp add: prep(8) logFormat_String_def)
  ultimately show ?thesis using prep(1,3,6,7) by (intro exI [of _ opts] exI [of _ cf] conjI allI)
qed

definition sample_pflag :: pflag where
  "sample_pflag = \<lparr>pf_MarkDeprecated = (\<lambda>fs name msg.
       if name \<in> fl_name ` set fs \<and> msg \<noteq> [] then None else Some (ErrLib ''flag does not exist'')),
     pf_AddFlagSet = (\<lambda>fs gs. if compatible (fs @ gs) then Returns (fs @ gs) else Panics ''flag redefined''),
     pf_range = rev, pf_PrintSections = (\<lambda>nfs. concat (map fst nfs))\<rparr>"

lemma sample_pflag_doc: "pflag_doc sample_pflag"
  by (auto simp: pflag_doc_def sample_pflag_def)

theorem options_lifecycle_witness:
  "\<exists>opts cf. Options_Prepare sample_pflag ((), [\<lparr>fl_name = ''server'', fl_short = ''s'', fl_type = ''string''\<rparr>])
       (\<lambda>a. [stringVar (a_Name a @ ''-dir'')]) (builtin_registry sample_extern)
       (Options_New :: (unit, string) Options) = Returns (opts, cf) \<and>
     logFormat_String (lo_format (o_log opts)) = ''text'' \<and> compatible (cf_flags cf)"
proof -
  let ?kube = "((), [\<lparr>fl_name = ''server'', fl_short = ''s'', fl_type = ''string''\<rparr>])"
    and ?reg = "\<lambda>a. [stringVar (a_Name a @ ''-dir'')]" and ?as = "builtin_registry sample_extern"
  let ?foreign = "snd ?kube @ concat (map ?reg ?as)"
  have names: "{''App'', ''Logging'', ''Webhook''} \<inter> a_Name ` set ?as = {}"
    by (simp add: builtin_registry_def allowed_Approver_def constraints_Approver_def)
  have foreign: "?foreign = [\<lparr>fl_name = ''server'', fl_short = ''s'', fl_type = ''string''\<rparr>,
      stringVar ''allowed-dir'', stringVar ''constraints-dir'']"
    by (simp add: builtin_registry_def allowed_Approver_def constraints_Approver_def)
  have "compatible ?foreign" "fl_name ` set own_flags \<inter> fl_name ` set ?foreign = {}"
    "''v'' \<notin> fl_short ` set ?foreign"
    unfolding foreign by (simp_all add: compatible_def shorthands_def app_flags_def logging_flags_def webhook_flags_def)
  from options_lifecycle [OF sample_pflag_doc this names, where ?'cfg = string] show ?thesis
    by (elim exE conjE) (intro exI conjI, assumption+)
qed

end
