(* ===== verification/AP_Command.thy ===== *)
theory AP_Command
  imports AP_Options
begin

text \<open>
  The command (\<^verbatim>\<open>pkg/internal/cmd/cmd.go\<close>) and how it adds the controllers
  (\<^verbatim>\<open>pkg/internal/controllers/controllers.go\<close> and the two \<^verbatim>\<open>add...Controller\<close> functions): it creates the
  controller manager, registers the metrics and the webhook, prepares the approvers of the shared
  registry, adds the controllers and starts the manager. What the calls into controller-runtime
  answer are parameters; the calls are logged in their order, so that one can say which of them
  happen before the manager starts.
\<close>

section \<open>Calls into controller-runtime\<close>

record 'cfg manager_options =
  mo_RestConfig :: "'cfg option"
  mo_LeaderElection :: bool
  mo_LeaderElectionID :: string
  mo_LeaderElectionReleaseOnCancel :: bool
  mo_LeaderElectionResourceLock :: string
  mo_LeaderElectionNamespace :: string
  mo_ReadinessEndpointName :: string
  mo_HealthProbeBindAddress :: string
  mo_MetricsBindAddress :: string
  mo_WebhookHost :: string
  mo_WebhookPort :: "64 word"

record 'cfg certificate_source =
  cs_DNSNames :: "string list"
  cs_SecretNamespace :: string
  cs_SecretName :: string
  cs_RESTConfig :: "'cfg option"
  cs_CADuration :: int
  cs_LeafDuration :: int

datatype ('s, 'cfg) mgr_call =
    NewManager "'cfg manager_options"
  | AddSource "'cfg certificate_source"
  | RegisterMetrics
  | RegisterWebhook "string list" "'s validate_fn list"   \<comment> \<open>plugins, webhooks\<close>
  | PrepareApprover string
  | BuildRequestController "'s evaluate_fn list"
  | AddWatcher "nat option list"
  | BuildPolicyController "'s approver list"
  | StartManager

text \<open>What the calls answer. \<open>env_MustRegister\<close> is the error on which \<^verbatim>\<open>MustRegister\<close> panics.\<close>

record ('s, 'cfg) mgr_env =
  env_NewManager :: "'cfg manager_options \<Rightarrow> goerr option"
  env_AddSource :: "'cfg certificate_source \<Rightarrow> goerr option"
  env_MustRegister :: "goerr option"
  env_WebhookComplete :: "'s webhook_validator \<Rightarrow> goerr option"
  env_AddReadyzCheck :: "goerr option"
  env_BuildRequestController :: "goerr option"
  env_AddWatcher :: "goerr option"
  env_BuildPolicyController :: "goerr option"
  env_Start :: "goerr option"

type_synonym ('s, 'cfg) cmd = "('s \<times> ('s, 'cfg) mgr_call list, goerr option) go"

text \<open>A call, and \<open>if err != nil { return ... }\<close> after it.\<close>

definition attempt :: "('s, 'cfg) mgr_call \<Rightarrow> goerr option \<Rightarrow> (goerr \<Rightarrow> goerr) \<Rightarrow> ('s, 'cfg) cmd \<Rightarrow> ('s, 'cfg) cmd" where
  "attempt call err wrap next s =
     (let s' = (fst s, snd s @ [call])
      in case err of Some e \<Rightarrow> Returns (Some (wrap e), s') | None \<Rightarrow> next s')"

section \<open>The controllers\<close>

text \<open>\<open>addCertificateRequestController\<close> hands the evaluators to the approver manager;
  \<open>addCertificateRequestPolicyController\<close> adds the forwarder of the enqueue channels, if there is
  one, and hands the reconcilers to its controller.\<close>

definition addCertificateRequestController ::
  "('s, 'cfg) mgr_env \<Rightarrow> 's evaluate_fn list \<Rightarrow> (goerr \<Rightarrow> goerr) \<Rightarrow> ('s, 'cfg) cmd \<Rightarrow> ('s, 'cfg) cmd" where
  "addCertificateRequestController env evaluators wrap =
     attempt (BuildRequestController evaluators) (env_BuildRequestController env) wrap"

definition addCertificateRequestPolicyController ::
  "('s, 'cfg) mgr_env \<Rightarrow> 's approver list \<Rightarrow> (goerr \<Rightarrow> goerr) \<Rightarrow> ('s, 'cfg) cmd \<Rightarrow> ('s, 'cfg) cmd" where
  "addCertificateRequestPolicyController env reconcilers wrap next =
     (let build = attempt (BuildPolicyController reconcilers) (env_BuildPolicyController env) wrap next
      in if length (enqueueListSelect reconcilers) > 0 then
           attempt (AddWatcher (enqueueListSelect reconcilers)) (env_AddWatcher env)
             (\<lambda>e. wrap (ErrWrap ''failed to add CertificateRequestPolicy generic event watcher'' e)) build
         else build)"

definition AddControllers ::
  "('s, 'cfg) mgr_env \<Rightarrow> 's evaluate_fn list \<Rightarrow> 's approver list \<Rightarrow> (goerr \<Rightarrow> goerr) \<Rightarrow> ('s, 'cfg) cmd \<Rightarrow> ('s, 'cfg) cmd" where
  "AddControllers env evaluators reconcilers wrap next =
     addCertificateRequestController env evaluators
       (\<lambda>e. wrap (ErrWrap ''failed to add certificaterequest controller'' e))
       (addCertificateRequestPolicyController env reconcilers
         (\<lambda>e. wrap (ErrWrap ''failed to add certificaterequestpolicy controller'' e)) next)"

section \<open>The command\<close>

definition certificateSource :: "('kube, 'cfg) Options \<Rightarrow> 'cfg certificate_source" where
  "certificateSource opts =
     (let w = o_Webhook opts
      in \<lparr>cs_DNSNames = [ServiceName w @ ''.'' @ CASecretNamespace w @ ''.svc''],
          cs_SecretNamespace = CASecretNamespace w, cs_SecretName = CASecretName w,
          cs_RESTConfig = o_RestConfig opts,
          cs_CADuration = CADuration w, cs_LeafDuration = LeafDuration w\<rparr>)"

definition managerOptions :: "('kube, 'cfg) Options \<Rightarrow> 'cfg manager_options" where
  "managerOptions opts =
     \<lparr>mo_RestConfig = o_RestConfig opts, mo_LeaderElection = True,
      mo_LeaderElectionID = ''policy.cert-manager.io'', mo_LeaderElectionReleaseOnCancel = True,
      mo_LeaderElectionResourceLock = ''leases'',
      mo_LeaderElectionNamespace = o_LeaderElectionNamespace opts,
      mo_ReadinessEndpointName = ''/readyz'', mo_HealthProbeBindAddress = o_ReadyzAddress opts,
      mo_MetricsBindAddress = o_MetricsAddress opts,
      mo_WebhookHost = Host (o_Webhook opts), mo_WebhookPort = Port (o_Webhook opts)\<rparr>"

primrec prepare_approvers ::
  "('u, 'e, 'a, 'p) extern \<Rightarrow> 's approver list \<Rightarrow> ('s, 'cfg) cmd \<Rightarrow> ('s, 'cfg) cmd" where
  "prepare_approvers x [] next = next"
| "prepare_approvers x (a # as) next =
     go_bind (go_fst (a_Prepare a)) (\<lambda>err.
       attempt (PrepareApprover (a_Name a)) err
         (ErrWrap (''failed to prepare approver '' @ x_Quote x (a_Name a)))
         (prepare_approvers x as next))"

definition must_register :: "('s, 'cfg) mgr_env \<Rightarrow> ('s, 'cfg) cmd \<Rightarrow> ('s, 'cfg) cmd" where
  "must_register env next s =
     (case env_MustRegister env of
        Some e \<Rightarrow> Panics (errText e)
      | None \<Rightarrow> next (fst s, snd s @ [RegisterMetrics]))"

definition start_manager :: "('s, 'cfg) mgr_env \<Rightarrow> ('s, 'cfg) cmd" where
  "start_manager env = attempt StartManager (env_Start env) (\<lambda>e. e) (go_ret None)"

definition RunE ::
  "('u, 'e, 'a, 'p) extern \<Rightarrow> ('s, 'cfg) mgr_env \<Rightarrow> 's registry \<Rightarrow> ('kube, 'cfg) Options \<Rightarrow> ('s, 'cfg) cmd" where
  "RunE x env shared opts =
     attempt (NewManager (managerOptions opts)) (env_NewManager env (managerOptions opts))
       (ErrWrap ''unable to create controller manager'')
     (attempt (AddSource (certificateSource opts)) (env_AddSource env (certificateSource opts)) (\<lambda>e. e)
     (must_register env
     (attempt (RegisterWebhook (registeredPlugins shared) (Webhooks shared))
       (case Register shared (Webhooks shared) (env_WebhookComplete env) (env_AddReadyzCheck env) of
          Inl e \<Rightarrow> Some e | Inr _ \<Rightarrow> None)
       (ErrWrap ''failed to register webhook'')
     (prepare_approvers x (Approvers shared)
     (AddControllers env (Evaluators shared) (Reconcilers shared) (ErrWrap ''failed to add controllers'')
     (start_manager env))))))"

text \<open>\<open>NewCommand\<close> prepares the options; the command completes them in \<^verbatim>\<open>PreRunE\<close>.\<close>

abbreviation helpOutput :: string where
  "helpOutput \<equiv> ''A cert-manager CertificateRequest approver that bases decisions on CertificateRequestPolicies''"

record ('s, 'kube, 'cfg) command =
  cmd_Use :: string
  cmd_Short :: string
  cmd_Long :: string
  cmd_flags :: command_flags
  cmd_PreRunE :: "('kube, 'cfg) Options \<Rightarrow> goerr option \<times> ('kube, 'cfg) Options"
  cmd_RunE :: "('kube, 'cfg) Options \<Rightarrow> ('s, 'cfg) cmd"

definition NewCommand ::
  "('u, 'e, 'a, 'p) extern \<Rightarrow> ('s, 'cfg) mgr_env \<Rightarrow> 's registry \<Rightarrow>
   pflag \<Rightarrow> 'kube \<times> flagset \<Rightarrow> ('s approver \<Rightarrow> flagset) \<Rightarrow>
   ('kube option \<Rightarrow> 'cfg option \<times> goerr option) \<Rightarrow>
   (('s, 'kube, 'cfg) command \<times> ('kube, 'cfg) Options) outcome" where
  "NewCommand x env shared pf kube registerFlags toREST =
     out_bind (Options_Prepare pf kube registerFlags (Approvers shared) Options_New)
       (\<lambda>(opts, flags). Returns
          (\<lparr>cmd_Use = ''approver-policy'', cmd_Short = helpOutput, cmd_Long = helpOutput, cmd_flags = flags,
            cmd_PreRunE = Options_Complete toREST, cmd_RunE = RunE x env shared\<rparr>, opts))"

section \<open>Sequences of calls\<close>

text \<open>A computation follows a sequence of calls if what it logs is a beginning of it, and it returns
  an error unless it got to the end.\<close>

definition follows :: "('s, 'cfg) mgr_call list \<Rightarrow> ('s, 'cfg) cmd \<Rightarrow> bool" where
  "follows calls m \<longleftrightarrow> (\<forall>s log r s' log'. m (s, log) = Returns (r, (s', log')) \<longrightarrow>
     (\<exists>made. log' = log @ made \<and> prefix made calls \<and> (made \<noteq> calls \<longrightarrow> r \<noteq> None)))"

lemma followsI:
  assumes "\<And>s log r s' log'. m (s, log) = Returns (r, (s', log')) \<Longrightarrow>
     \<exists>made. log' = log @ made \<and> prefix made calls \<and> (made \<noteq> calls \<longrightarrow> r \<noteq> None)"
  shows "follows calls m"
  using assms unfolding follows_def by blast

lemma follows_call:
  assumes "follows calls next" and "next (s, log @ [call]) = Returns (r, (s', log'))"
  shows "\<exists>made. log' = log @ made \<and> prefix made (call # calls) \<and> (made \<noteq> call # calls \<longrightarrow> r \<noteq> None)"
proof -
  from assms obtain made where "log' = (log @ [call]) @ made" "prefix made calls"
    "made \<noteq> calls \<longrightarrow> r \<noteq> None"
    unfolding follows_def by blast
  then show ?thesis by (intro exI [of _ "call # made"]) auto
qed

lemma follows_attempt:
  assumes "follows calls next"
  shows "follows (call # calls) (attempt call err wrap next)"
proof (rule followsI)
  fix s log r s' log'
  assume run: "attempt call err wrap next (s, log) = Returns (r, (s', log'))"
  show "\<exists>made. log' = log @ made \<and> prefix made (call # calls) \<and> (made \<noteq> call # calls \<longrightarrow> r \<noteq> None)"
  proof (cases err)
    case None
    with run show ?thesis by (intro follows_call [OF assms]) (simp add: attempt_def)
  next
    case (Some e)
    with run show ?thesis by (intro exI [of _ "[call]"]) (auto simp: attempt_def)
  qed
qed

lemma follows_must_register:
  "follows calls next \<Longrightarrow> follows (RegisterMetrics # calls) (must_register env next)"
  by (rule followsI, rule follows_call, assumption)
    (simp add: must_register_def split: option.splits)

lemma follows_done: "follows [] (go_ret r)"
  by (simp add: follows_def go_ret_def)

lemma follows_start: "follows [StartManager] (start_manager env)"
  unfolding start_manager_def by (intro follows_attempt follows_done)

lemma follows_prepare:
  "follows calls next \<Longrightarrow>
   follows (map (\<lambda>a. PrepareApprover (a_Name a)) as @ calls) (prepare_approvers x as next)"
proof (induction as)
  case (Cons a as)
  show ?case
  proof (rule followsI)
    fix s log r s' log'
    assume run: "prepare_approvers x (a # as) next (s, log) = Returns (r, (s', log'))"
    then obtain err s1 where "attempt (PrepareApprover (a_Name a)) err
        (ErrWrap (''failed to prepare approver '' @ x_Quote x (a_Name a)))
        (prepare_approvers x as next) (s1, log) = Returns (r, (s', log'))"
      by (auto simp: go_bind_def go_fst_def split: outcome.splits prod.splits)
    with follows_attempt [OF Cons.IH [OF Cons.prems]]
    show "\<exists>made. log' = log @ made \<and>
        prefix made (map (\<lambda>a. PrepareApprover (a_Name a)) (a # as) @ calls) \<and>
        (made \<noteq> map (\<lambda>a. PrepareApprover (a_Name a)) (a # as) @ calls \<longrightarrow> r \<noteq> None)"
      unfolding follows_def by (simp only: list.map append_Cons)
  qed
qed simp

text \<open>The calls of a complete start.\<close>

definition controller_calls :: "'s registry \<Rightarrow> ('s, 'cfg) mgr_call list" where
  "controller_calls shared =
     [BuildRequestController (map a_Evaluate shared)] @
     (if \<forall>a \<in> set shared. a_EnqueueChan a = None then []
      else [AddWatcher (filter (\<lambda>c. c \<noteq> None) (map a_EnqueueChan shared))]) @
     [BuildPolicyController shared]"

definition startup_calls :: "'s registry \<Rightarrow> ('kube, 'cfg) Options \<Rightarrow> ('s, 'cfg) mgr_call list" where
  "startup_calls shared opts =
     [NewManager (managerOptions opts), AddSource (certificateSource opts), RegisterMetrics,
      RegisterWebhook (registeredPlugins shared) (map a_Validate shared)] @
     map (\<lambda>a. PrepareApprover (a_Name a)) shared @ controller_calls shared @ [StartManager]"

lemma enqueueListSelect_channels:
  "enqueueListSelect shared = filter (\<lambda>c. c \<noteq> None) (map a_EnqueueChan shared)"
  by (simp add: enqueueListSelect_def filter_map comp_def)

lemma follows_controllers:
  assumes "follows calls next"
  shows "follows (controller_calls shared @ calls)
           (AddControllers env (Evaluators shared) (Reconcilers shared) wrap next)"
proof -
  have "length (enqueueListSelect shared) > 0 \<longleftrightarrow> \<not> (\<forall>a \<in> set shared. a_EnqueueChan a = None)"
    by (auto simp: enqueueListSelect_def filter_empty_conv)
  then show ?thesis
    unfolding AddControllers_def addCertificateRequestController_def
      addCertificateRequestPolicyController_def controller_calls_def Evaluators_def Reconcilers_def Let_def
    by (simp add: enqueueListSelect_channels follows_attempt assms)
qed

lemma RunE_follows: "follows (startup_calls shared opts) (RunE x env shared opts)"
  unfolding RunE_def startup_calls_def Approvers_def Webhooks_def append_Cons append_Nil
  by (intro follows_attempt follows_must_register follows_prepare follows_controllers follows_start)

lemma attempt_ok: "attempt call None wrap next (s, log) = next (s, log @ [call])"
  by (simp add: attempt_def)

lemma prepare_ok:
  assumes "\<And>a s. a \<in> set as \<Longrightarrow> \<exists>s'. a_Prepare a s = Returns (None, s')"
  shows "\<exists>s'. prepare_approvers x as next (s, log) =
           next (s', log @ map (\<lambda>a. PrepareApprover (a_Name a)) as)"
  using assms
proof (induction as arbitrary: s log)
  case (Cons a as)
  from Cons.prems [of a s] obtain s1 where s1: "a_Prepare a s = Returns (None, s1)" by auto
  from Cons.IH [of s1 "log @ [PrepareApprover (a_Name a)]"] Cons.prems obtain s' where
    "prepare_approvers x as next (s1, log @ [PrepareApprover (a_Name a)]) =
       next (s', (log @ [PrepareApprover (a_Name a)]) @ map (\<lambda>a. PrepareApprover (a_Name a)) as)"
    by auto
  with s1 show ?case by (auto simp: go_bind_def go_fst_def attempt_ok)
qed auto

lemma controllers_ok:
  assumes "env_BuildRequestController env = None" "env_AddWatcher env = None"
    "env_BuildPolicyController env = None"
  shows "AddControllers env (Evaluators shared) (Reconcilers shared) wrap next (s, log) =
           next (s, log @ controller_calls shared)"
  using assms
  by (auto simp: AddControllers_def addCertificateRequestController_def Let_def
      addCertificateRequestPolicyController_def controller_calls_def Evaluators_def Reconcilers_def
      enqueueListSelect_channels attempt_ok filter_empty_conv)

text \<open>The answers with which a start succeeds.\<close>

definition env_ready :: "('s, 'cfg) mgr_env \<Rightarrow> bool" where
  "env_ready env \<longleftrightarrow> (\<forall>mo. env_NewManager env mo = None) \<and> (\<forall>cs. env_AddSource env cs = None) \<and>
     env_MustRegister env = None \<and> (\<forall>v. env_WebhookComplete env v = None) \<and>
     env_AddReadyzCheck env = None \<and> env_BuildRequestController env = None \<and>
     env_AddWatcher env = None \<and> env_BuildPolicyController env = None"

lemma RunE_ok:
  assumes "env_ready env" and "\<And>a s. a \<in> set shared \<Longrightarrow> \<exists>s'. a_Prepare a s = Returns (None, s')"
  shows "\<exists>s'. RunE x env shared opts (s, []) = Returns (env_Start env, (s', startup_calls shared opts))"
proof -
  let ?next = "AddControllers env (Evaluators shared) (Reconcilers shared)
    (ErrWrap ''failed to add controllers'') (start_manager env)"
  let ?log = "[NewManager (managerOptions opts), AddSource (certificateSource opts), RegisterMetrics,
      RegisterWebhook (registeredPlugins shared) (map a_Validate shared)]"
  have "RunE x env shared opts (s, []) = prepare_approvers x shared ?next (s, ?log)"
    using assms(1)
    by (simp add: RunE_def env_ready_def attempt_ok must_register_def Register_def Let_def Approvers_def
        Webhooks_def)
  moreover obtain s' where "prepare_approvers x shared ?next (s, ?log) =
      ?next (s', ?log @ map (\<lambda>a. PrepareApprover (a_Name a)) shared)"
    using prepare_ok [of shared x ?next s ?log] assms(2) by blast
  moreover have "?next (s', log) = Returns (env_Start env, (s', log @ controller_calls shared @ [StartManager]))"
    for log
    using assms(1)
    by (simp add: env_ready_def controllers_ok start_manager_def attempt_def go_ret_def Let_def
        split: option.splits)
  ultimately show ?thesis by (simp add: startup_calls_def)
qed

section \<open>Properties\<close>

lemma started_last:
  assumes "prefix log (startup_calls shared opts)" and "log \<noteq> startup_calls shared opts"
  shows "StartManager \<notin> set log"
proof -
  obtain calls where calls: "startup_calls shared opts = calls @ [StartManager]" "StartManager \<notin> set calls"
    by (simp add: startup_calls_def controller_calls_def image_iff split: if_splits)
  with assms have "prefix log calls" by (auto simp: prefix_snoc)
  with calls(2) show ?thesis using set_mono_prefix by blast
qed

text \<open>C18: the start of the program. The manager is started only after the metrics and the webhook
  (with every registered plugin and every webhook) are registered, every approver of the registry
  has been prepared, in the order of registration, and both controllers have been added, with all
  evaluators and reconcilers of the registry, and with the forwarder if an approver has a channel.
  A start that does not get that far returns an error and the manager is not started; and if no
  call fails it does get that far.\<close>

theorem RunE_starts_last:
  "(RunE x env shared opts (s, []) = Returns (r, (s', log)) \<longrightarrow>
      prefix log (startup_calls shared opts) \<and>
      (log \<noteq> startup_calls shared opts \<longrightarrow> r \<noteq> None \<and> StartManager \<notin> set log)) \<and>
   (env_ready env \<and> (\<forall>a \<in> set shared. \<forall>s. \<exists>s'. a_Prepare a s = Returns (None, s')) \<longrightarrow>
      (\<exists>s'. RunE x env shared opts (s, []) = Returns (env_Start env, (s', startup_calls shared opts))))"
proof (intro conjI impI)
  assume run: "RunE x env shared opts (s, []) = Returns (r, (s', log))"
  from RunE_follows [of shared opts x env, unfolded follows_def, rule_format, OF run] have
    log: "prefix log (startup_calls shared opts)" "log \<noteq> startup_calls shared opts \<longrightarrow> r \<noteq> None"
    by auto
  show "prefix log (startup_calls shared opts)" by (fact log(1))
  show "r \<noteq> None" if "log \<noteq> startup_calls shared opts" using log(2) that ..
  show "StartManager \<notin> set log" if "log \<noteq> startup_calls shared opts"
    using started_last [OF log(1) that] .
qed (blast intro: RunE_ok)

definition sample_env :: "('s, 'cfg) mgr_env" where
  "sample_env = \<lparr>env_NewManager = (\<lambda>_. None), env_AddSource = (\<lambda>_. None), env_MustRegister = None,
     env_WebhookComplete = (\<lambda>_. None), env_AddReadyzCheck = None, env_BuildRequestController = None,
     env_AddWatcher = None, env_BuildPolicyController = None, env_Start = None\<rparr>"

theorem RunE_starts_last_witness:
  "\<exists>s' log. RunE sample_extern sample_env (builtin_registry sample_extern)
      (Options_New :: (unit, unit) Options) (NewCache, []) = Returns (None, (s', log)) \<and>
     StartManager \<in> set log \<and> PrepareApprover ''constraints'' \<in> set log"
proof -
  have env: "env_ready (sample_env :: (string cache, unit) mgr_env)" "env_Start (sample_env :: (string cache, unit) mgr_env) = None"
    by (simp_all add: env_ready_def sample_env_def)
  have prep: "\<forall>a \<in> set (builtin_registry sample_extern). \<forall>s. \<exists>s'. a_Prepare a s = Returns (None, s')"
    by (simp add: builtin_registry_def allowed_Approver_def constraints_Approver_def go_ret_def)
  have "StartManager \<in> set (startup_calls (builtin_registry sample_extern) (Options_New :: (unit, unit) Options))"
    "PrepareApprover ''constraints'' \<in>
       set (startup_calls (builtin_registry sample_extern) (Options_New :: (unit, unit) Options))"
    by (simp_all add: startup_calls_def builtin_registry_def constraints_Approver_def)
  with RunE_starts_last [of sample_extern sample_env "builtin_registry sample_extern"
      "Options_New :: (unit, unit) Options" NewCache] env prep show ?thesis
    by (metis (no_types, lifting))
qed

end
