(* ===== verification/AP_Program.thy ===== *)
theory AP_Program
  imports AP_Command
begin

text \<open>
  The program as a process: the packages initialise themselves (\<^verbatim>\<open>register.go\<close> builds the scheme of
  API types, the approvers store themselves in the shared registry), then \<^verbatim>\<open>main\<close> calls
  \<^verbatim>\<open>ExecutePolicyApprover\<close> (\<^verbatim>\<open>pkg/cmd/cmd.go\<close>), which builds the command, lets cobra execute it, and
  turns an error into a line on the standard error and exit status 1.
\<close>

section \<open>The scheme of API types\<close>

record GroupVersion =
  gv_Group :: string
  gv_Version :: string

abbreviation GroupName :: string where
  "GroupName \<equiv> ''policy.cert-manager.io''"

definition SchemeGroupVersion :: GroupVersion where
  "SchemeGroupVersion = \<lparr>gv_Group = GroupName, gv_Version = ''v1alpha1''\<rparr>"

text \<open>apimachinery's scheme and the functions of other packages that fill it. The scheme is changed
  through a pointer, so that it is the state of these calls; types are given by their kinds.\<close>

record 'sch scheme_lib =
  sl_NewScheme :: 'sch
  sl_k8s_AddToScheme :: "('sch, goerr option) go"
  sl_cmapi_AddToScheme :: "('sch, goerr option) go"
  sl_AddKnownTypes :: "GroupVersion \<Rightarrow> string list \<Rightarrow> ('sch, unit) go"
  sl_AddToGroupVersion :: "GroupVersion \<Rightarrow> ('sch, unit) go"
  sl_Builder_AddToScheme :: "('sch, goerr option) go list \<Rightarrow> ('sch, goerr option) go"

definition addKnownTypes :: "'sch scheme_lib \<Rightarrow> ('sch, goerr option) go" where
  "addKnownTypes lib =
     go_bind (sl_AddKnownTypes lib SchemeGroupVersion
       [''CertificateRequestPolicy'', ''CertificateRequestPolicyList'']) (\<lambda>_.
     go_bind (sl_AddToGroupVersion lib SchemeGroupVersion) (\<lambda>_.
     go_ret None))"

definition add_or_panic :: "string \<Rightarrow> ('sch, goerr option) go \<Rightarrow> ('sch, unit) go" where
  "add_or_panic what m =
     go_bind m (\<lambda>err. case err of
       Some e \<Rightarrow> go_lift (Panics (''failed to add '' @ what @ '' scheme: '' @ errText e))
     | None \<Rightarrow> go_ret ())"

definition register_init :: "'sch scheme_lib \<Rightarrow> (unit \<times> 'sch) outcome" where
  "register_init lib =
     (let SchemeBuilder = [addKnownTypes lib]
      in go_bind (add_or_panic ''k8s.io'' (sl_k8s_AddToScheme lib)) (\<lambda>_.
         go_bind (add_or_panic ''cert-manager.io'' (sl_cmapi_AddToScheme lib)) (\<lambda>_.
         add_or_panic GroupName (sl_Builder_AddToScheme lib SchemeBuilder))) (sl_NewScheme lib))"

section \<open>The approvers\<close>

text \<open>\<^verbatim>\<open>registry.Shared\<close> starts empty; the two packages are initialised in the order of their paths.\<close>

definition allowed_init :: "('u, 'e, 'a, 'p) extern \<Rightarrow> 'p cache registry \<Rightarrow> 'p cache registry outcome" where
  "allowed_init x shared = Store [allowed_Approver x] shared"

definition constraints_init :: "('u, 'e, 'a, 'p) extern \<Rightarrow> 'p cache registry \<Rightarrow> 'p cache registry outcome" where
  "constraints_init x shared = Store [constraints_Approver x] shared"

section \<open>The process\<close>

text \<open>\<open>execute\<close> is cobra's \<^verbatim>\<open>Execute\<close>. The answer is the exit status and what is printed to the standard
  error.\<close>

definition error_line :: "goerr \<Rightarrow> string" where
  "error_line err = ''error: '' @ errText err @ [CHR 0x0A]"

definition exit_status :: "goerr option \<Rightarrow> int \<times> string" where
  "exit_status err = (case err of None \<Rightarrow> (0, []) | Some e \<Rightarrow> (1, error_line e))"

lemma exit_status_simps [simp]: "exit_status None = (0, [])" "exit_status (Some e) = (1, error_line e)"
  by (simp_all add: exit_status_def)

definition ExecutePolicyApprover ::
  "(('s, 'kube, 'cfg) command \<Rightarrow> ('kube, 'cfg) Options \<Rightarrow> ('s, 'cfg) cmd) \<Rightarrow>
   (('s, 'kube, 'cfg) command \<times> ('kube, 'cfg) Options) outcome \<Rightarrow>
   ('s \<times> ('s, 'cfg) mgr_call list, int \<times> string) go" where
  "ExecutePolicyApprover execute newCommand =
     go_bind (go_lift newCommand) (\<lambda>(cmd, opts).
     go_bind (execute cmd opts) (\<lambda>err.
       go_ret (exit_status err)))"

definition program_main ::
  "'sch scheme_lib \<Rightarrow> (('p cache, 'kube, 'cfg) command \<Rightarrow> ('kube, 'cfg) Options \<Rightarrow> ('p cache, 'cfg) cmd) \<Rightarrow>
   ('u, 'e, 'a, 'p) extern \<Rightarrow> ('p cache, 'cfg) mgr_env \<Rightarrow>
   pflag \<Rightarrow> 'kube \<times> flagset \<Rightarrow> ('p cache approver \<Rightarrow> flagset) \<Rightarrow>
   ('kube option \<Rightarrow> 'cfg option \<times> goerr option) \<Rightarrow>
   ('p cache \<times> ('p cache, 'cfg) mgr_call list, int \<times> string) go" where
  "program_main lib execute x env pf kube reg toREST =
     go_bind (go_lift (register_init lib)) (\<lambda>_.
     go_bind (go_lift (out_bind (allowed_init x []) (constraints_init x))) (\<lambda>shared.
     ExecutePolicyApprover execute (NewCommand x env shared pf kube reg toREST)))"

section \<open>What is relied on\<close>

text \<open>apimachinery: the types of Kubernetes and cert-manager can be added to a new scheme, which then
  has no type of this group; new types are added unless their kinds are taken, and then known; the
  builder applies the functions that were registered with it. \<open>known\<close> says which kinds a scheme knows.\<close>

definition scheme_doc :: "'sch scheme_lib \<Rightarrow> ('sch \<Rightarrow> GroupVersion \<Rightarrow> string \<Rightarrow> bool) \<Rightarrow> bool" where
  "scheme_doc lib known \<longleftrightarrow>
     (\<exists>s1 s2. sl_k8s_AddToScheme lib (sl_NewScheme lib) = Returns (None, s1) \<and>
        sl_cmapi_AddToScheme lib s1 = Returns (None, s2) \<and> (\<forall>k. \<not> known s2 SchemeGroupVersion k)) \<and>
     (\<forall>s gv ks. (\<forall>k \<in> set ks. \<not> known s gv k) \<longrightarrow>
        (\<exists>s1. sl_AddKnownTypes lib gv ks s = Returns ((), s1) \<and> (\<forall>k \<in> set ks. known s1 gv k))) \<and>
     (\<forall>s gv. \<exists>s1. sl_AddToGroupVersion lib gv s = Returns ((), s1) \<and>
        (\<forall>gv' k. known s gv' k \<longrightarrow> known s1 gv' k)) \<and>
     (\<forall>f. sl_Builder_AddToScheme lib [f] = f)"

text \<open>cobra: \<open>parse\<close> is what the arguments of the process do to the options: an error, nothing but a
  help text, or the parsed options. Then \<^verbatim>\<open>PreRunE\<close> and \<^verbatim>\<open>RunE\<close> run; the first error is returned.\<close>

definition execute_doc ::
  "(('kube, 'cfg) Options \<Rightarrow> goerr + ('kube, 'cfg) Options option) \<Rightarrow>
   (('s, 'kube, 'cfg) command \<Rightarrow> ('kube, 'cfg) Options \<Rightarrow> ('s, 'cfg) cmd) \<Rightarrow> bool" where
  "execute_doc parse execute \<longleftrightarrow>
     (\<forall>cmd opts. execute cmd opts =
        (case parse opts of
           Inl err \<Rightarrow> go_ret (Some err)
         | Inr None \<Rightarrow> go_ret None
         | Inr (Some parsed) \<Rightarrow>
             (case cmd_PreRunE cmd parsed of
                (Some err, completed) \<Rightarrow> go_ret (Some err)
              | (None, completed) \<Rightarrow> cmd_RunE cmd completed)))"

section \<open>Initialisation\<close>

lemma register_init_ok:
  assumes "scheme_doc lib known"
  shows "\<exists>scheme. register_init lib = Returns ((), scheme) \<and>
    known scheme SchemeGroupVersion ''CertificateRequestPolicy'' \<and>
    known scheme SchemeGroupVersion ''CertificateRequestPolicyList''"
proof -
  define kinds where "kinds = [''CertificateRequestPolicy'', ''CertificateRequestPolicyList'']"
  obtain s1 s2 where s: "sl_k8s_AddToScheme lib (sl_NewScheme lib) = Returns (None, s1)"
    "sl_cmapi_AddToScheme lib s1 = Returns (None, s2)" "\<forall>k. \<not> known s2 SchemeGroupVersion k"
    using assms unfolding scheme_doc_def by (elim exE conjE)
  obtain s3 where s3: "sl_AddKnownTypes lib SchemeGroupVersion kinds s2 = Returns ((), s3)"
    "\<forall>k \<in> set kinds. known s3 SchemeGroupVersion k"
    using assms s(3) unfolding scheme_doc_def by blast
  obtain s4 where s4: "sl_AddToGroupVersion lib SchemeGroupVersion s3 = Returns ((), s4)"
    "\<forall>gv k. known s3 gv k \<longrightarrow> known s4 gv k"
    using assms unfolding scheme_doc_def by blast
  have "sl_Builder_AddToScheme lib [addKnownTypes lib] = addKnownTypes lib"
    using assms unfolding scheme_doc_def by blast
  then have "register_init lib = Returns ((), s4)"
    using s s3 s4 by (simp add: register_init_def add_or_panic_def addKnownTypes_def kinds_def go_simps)
  with s3(2) s4(2) show ?thesis by (simp add: kinds_def)
qed

lemma init_approvers: "out_bind (allowed_init x []) (constraints_init x) = Returns (builtin_registry x)"
  by (simp add: allowed_init_def constraints_init_def Store_def builtin_registry_def allowed_Approver_def
      constraints_Approver_def)

text \<open>The process runs the command with the built-in approvers.\<close>

lemma program_runs_command:
  assumes "scheme_doc lib known" and "execute_doc parse execute"
    and "Options_Prepare pf kube reg (builtin_registry x) Options_New = Returns (opts, cf)"
  shows "program_main lib execute x env pf kube reg toREST =
    go_bind (case parse opts of
        Inl err \<Rightarrow> go_ret (Some err)
      | Inr None \<Rightarrow> go_ret None
      | Inr (Some parsed) \<Rightarrow>
          (case Options_Complete toREST parsed of
             (Some err, completed) \<Rightarrow> go_ret (Some err)
           | (None, completed) \<Rightarrow> RunE x env (builtin_registry x) completed))
      (\<lambda>err. go_ret (exit_status err))"
proof -
  obtain scheme where init: "register_init lib = Returns ((), scheme)"
    using register_init_ok [OF assms(1)] by blast
  define cmd where "cmd = \<lparr>cmd_Use = ''approver-policy'', cmd_Short = helpOutput, cmd_Long = helpOutput,
    cmd_flags = cf, cmd_PreRunE = Options_Complete toREST, cmd_RunE = RunE x env (builtin_registry x)\<rparr>"
  have "NewCommand x env (builtin_registry x) pf kube reg toREST = Returns (cmd, opts)"
    using assms(3) by (simp add: NewCommand_def Approvers_def cmd_def)
  then have "program_main lib execute x env pf kube reg toREST =
      go_bind (execute cmd opts) (\<lambda>err. go_ret (exit_status err))"
    by (intro ext) (simp add: program_main_def ExecutePolicyApprover_def init init_approvers go_lift_def go_bind_def)
  moreover have fields: "cmd_PreRunE cmd = Options_Complete toREST" "cmd_RunE cmd = RunE x env (builtin_registry x)"
    by (simp_all add: cmd_def)
  moreover note execute = assms(2) [unfolded execute_doc_def, rule_format, of cmd opts]
  have "execute cmd opts = (case parse opts of
        Inl err \<Rightarrow> go_ret (Some err)
      | Inr None \<Rightarrow> go_ret None
      | Inr (Some parsed) \<Rightarrow>
          (case Options_Complete toREST parsed of
             (Some err, completed) \<Rightarrow> go_ret (Some err)
           | (None, completed) \<Rightarrow> RunE x env (builtin_registry x) completed))"
    using execute unfolding fields .
  ultimately show ?thesis by (simp only:)
qed

lemma builtin_Prepare: "a \<in> set (builtin_registry x) \<Longrightarrow> \<exists>s'. a_Prepare a s = Returns (None, s')"
  by (auto simp: builtin_registry_def allowed_Approver_def constraints_Approver_def go_ret_def)

text \<open>What a run of the command makes of the process.\<close>

lemma command_exits:
  assumes "go_bind (RunE x env shared opts) (\<lambda>err. go_ret (exit_status err)) (s, []) = Returns ((status, out), (s', log))"
  shows "prefix log (startup_calls shared opts)"
    and "status = 0 \<and> out = [] \<and> log = startup_calls shared opts \<or> status = 1 \<and> (\<exists>err. out = error_line err)"
    and "log \<noteq> startup_calls shared opts \<Longrightarrow> StartManager \<notin> set log"
proof -
  from assms obtain err where run: "RunE x env shared opts (s, []) = Returns (err, (s', log))"
    and status: "(status, out) = exit_status err"
    by (auto simp: go_bind_def go_ret_def split: outcome.splits prod.splits)
  from RunE_follows [of shared opts x env, unfolded follows_def, rule_format, OF run] have
    log: "prefix log (startup_calls shared opts)" "log \<noteq> startup_calls shared opts \<longrightarrow> err \<noteq> None"
    by auto
  show "prefix log (startup_calls shared opts)" by (fact log(1))
  show "status = 0 \<and> out = [] \<and> log = startup_calls shared opts \<or> status = 1 \<and> (\<exists>err. out = error_line err)"
    using log(2) status by (cases err) auto
  show "StartManager \<notin> set log" if "log \<noteq> startup_calls shared opts"
    using started_last [OF log(1) that] .
qed

lemma command_starts:
  assumes "env_ready env"
  shows "\<exists>s'. go_bind (RunE x env (builtin_registry x) opts) (\<lambda>err. go_ret (exit_status err)) (s, []) =
    Returns (exit_status (env_Start env), (s', startup_calls (builtin_registry x) opts))"
proof -
  obtain s' where "RunE x env (builtin_registry x) opts (s, []) =
      Returns (env_Start env, (s', startup_calls (builtin_registry x) opts))"
    using RunE_ok [OF assms] builtin_Prepare by metis
  then show ?thesis by (simp add: go_bind_def go_ret_def)
qed

lemma program_outcome:
  assumes "scheme_doc lib known" and "execute_doc parse execute"
    and "Options_Prepare pf kube reg (builtin_registry x) Options_New = Returns (opts, cf)"
    and "run = program_main lib execute x env pf kube reg toREST (s, [])"
  shows "case parse opts of
       Inl err \<Rightarrow> run = Returns ((1, error_line err), (s, []))
     | Inr None \<Rightarrow> run = Returns ((0, ''''), (s, []))
     | Inr (Some parsed) \<Rightarrow>
         (case Options_Complete toREST parsed of
            (Some err, completed) \<Rightarrow> run = Returns ((1, error_line err), (s, []))
          | (None, completed) \<Rightarrow>
              (\<forall>status out s' log. run = Returns ((status, out), (s', log)) \<longrightarrow>
                 prefix log (startup_calls (builtin_registry x) completed) \<and>
                 (status = 0 \<and> out = '''' \<and> log = startup_calls (builtin_registry x) completed \<or>
                  status = 1 \<and> (\<exists>err. out = error_line err)) \<and>
                 (log \<noteq> startup_calls (builtin_registry x) completed \<longrightarrow> StartManager \<notin> set log)) \<and>
              (env_ready env \<longrightarrow>
                 (\<exists>s'. run = Returns (exit_status (env_Start env),
                    (s', startup_calls (builtin_registry x) completed)))))"
proof -
  have run: "run = go_bind (case parse opts of
        Inl err \<Rightarrow> go_ret (Some err)
      | Inr None \<Rightarrow> go_ret None
      | Inr (Some parsed) \<Rightarrow>
          (case Options_Complete toREST parsed of
             (Some err, completed) \<Rightarrow> go_ret (Some err)
           | (None, completed) \<Rightarrow> RunE x env (builtin_registry x) completed))
      (\<lambda>err. go_ret (exit_status err)) (s, [])"
    unfolding assms(4) program_runs_command [OF assms(1,2,3)] ..
  have started: "(\<forall>status out s' log. run = Returns ((status, out), (s', log)) \<longrightarrow>
        prefix log (startup_calls (builtin_registry x) completed) \<and>
        (status = 0 \<and> out = '''' \<and> log = startup_calls (builtin_registry x) completed \<or>
         status = 1 \<and> (\<exists>err. out = error_line err)) \<and>
        (log \<noteq> startup_calls (builtin_registry x) completed \<longrightarrow> StartManager \<notin> set log)) \<and>
      (env_ready env \<longrightarrow>
        (\<exists>s'. run = Returns (exit_status (env_Start env), (s', startup_calls (builtin_registry x) completed))))"
    if "parse opts = Inr (Some parsed)" "Options_Complete toREST parsed = (None, completed)" for parsed completed
  proof -
    from that have "run = go_bind (RunE x env (builtin_registry x) completed) (\<lambda>err. go_ret (exit_status err)) (s, [])"
      by (simp add: run)
    with command_exits [of x env "builtin_registry x" completed s] command_starts [of env x completed s]
    show ?thesis by (simp only:) blast
  qed
  show ?thesis
  proof (cases "parse opts")
    case (Inr wanted)
    show ?thesis
    proof (cases wanted)
      case (Some parsed)
      with Inr started [of parsed] show ?thesis
        by (cases "Options_Complete toREST parsed"; cases "fst (Options_Complete toREST parsed)")
          (simp_all add: run go_simps)
    qed (simp add: Inr run go_simps)
  qed (simp add: run go_simps)
qed

section \<open>Properties\<close>

text \<open>C17: the process from its start to its exit status, for flags that do not clash. Initialising the packages never panics: the
  scheme knows the policy types and the shared registry holds the two built-in approvers, \<^verbatim>\<open>allowed\<close>
  first. Arguments that cannot be parsed and options that cannot be completed end the process with status 1 and the
  error, before anything is started; a call for help ends it with 0. Otherwise it makes the calls of
  a start in their order; it exits with 0 only if all of them were made, the start of the manager
  last, and otherwise with 1 and a message, and if none of the calls fails the status tells whether
  the manager ended with an error.\<close>

theorem program_exit_status:
  assumes "scheme_doc lib known" and "execute_doc parse (execute :: ('p cache, 'kube, 'cfg) command \<Rightarrow> _)" and "pflag_doc pf"
    and "compatible (own_flags @ snd kube @ concat (map reg (builtin_registry x)))"
    and "run = program_main lib execute x env pf kube reg toREST (s, [])"
  shows "\<exists>opts cf scheme.
    register_init lib = Returns ((), scheme) \<and> known scheme SchemeGroupVersion ''CertificateRequestPolicy'' \<and>
    Options_Prepare pf kube reg (builtin_registry x) Options_New = Returns (opts, cf) \<and>
    (case parse opts of
       Inl err \<Rightarrow> run = Returns ((1, error_line err), (s, []))
     | Inr None \<Rightarrow> run = Returns ((0, ''''), (s, []))
     | Inr (Some parsed) \<Rightarrow>
         (case Options_Complete toREST parsed of
            (Some err, completed) \<Rightarrow> run = Returns ((1, error_line err), (s, []))
          | (None, completed) \<Rightarrow>
              (\<forall>status out s' log. run = Returns ((status, out), (s', log)) \<longrightarrow>
                 prefix log (startup_calls (builtin_registry x) completed) \<and>
                 (status = 0 \<and> out = '''' \<and> log = startup_calls (builtin_registry x) completed \<or>
                  status = 1 \<and> (\<exists>err. out = error_line err)) \<and>
                 (log \<noteq> startup_calls (builtin_registry x) completed \<longrightarrow> StartManager \<notin> set log)) \<and>
              (env_ready env \<longrightarrow>
                 (\<exists>s'. run = Returns (exit_status (env_Start env),
                    (s', startup_calls (builtin_registry x) completed))))))"
proof -
  obtain opts :: "('kube, 'cfg) Options" and cf
    where opts: "Options_Prepare pf kube reg (builtin_registry x) Options_New = Returns (opts, cf)"
    using Options_Prepare_ok [OF assms(3,4), where ?'cfg = 'cfg] by blast
  obtain scheme where scheme: "register_init lib = Returns ((), scheme)"
    "known scheme SchemeGroupVersion ''CertificateRequestPolicy''"
    using register_init_ok [OF assms(1)] by blast
  show ?thesis
    by (intro exI conjI) (rule scheme opts program_outcome [OF assms(1,2) opts assms(5)])+
qed

text \<open>A concrete scheme, as the list of the kinds it knows, and a concrete cobra.\<close>

primrec run_builder :: "('sch, goerr option) go list \<Rightarrow> ('sch, goerr option) go" where
  "run_builder [] = go_ret None"
| "run_builder (f # fs) =
     go_bind f (\<lambda>err. case err of Some e \<Rightarrow> go_ret (Some e) | None \<Rightarrow> run_builder fs)"

definition sample_scheme_lib :: "(GroupVersion \<times> string) list scheme_lib" where
  "sample_scheme_lib = \<lparr>sl_NewScheme = [],
     sl_k8s_AddToScheme = (\<lambda>s. Returns (None, s @ [(\<lparr>gv_Group = '''', gv_Version = ''v1''\<rparr>, ''Namespace'')])),
     sl_cmapi_AddToScheme =
       (\<lambda>s. Returns (None, s @ [(\<lparr>gv_Group = ''cert-manager.io'', gv_Version = ''v1''\<rparr>, ''CertificateRequest'')])),
     sl_AddKnownTypes = (\<lambda>gv ks s. Returns ((), s @ map (Pair gv) ks)),
     sl_AddToGroupVersion = (\<lambda>gv s. Returns ((), s @ [(gv, ''WatchEvent'')])),
     sl_Builder_AddToScheme = run_builder\<rparr>"

lemma sample_scheme_doc: "scheme_doc sample_scheme_lib (\<lambda>s gv k. (gv, k) \<in> set s)"
proof -
  have "run_builder [f] = f" for f :: "((GroupVersion \<times> string) list, goerr option) go"
    by (rule ext) (simp add: go_bind_def go_ret_def split: outcome.splits prod.splits option.splits)
  then show ?thesis
    by (simp add: scheme_doc_def sample_scheme_lib_def SchemeGroupVersion_def del: run_builder.simps)
qed

definition sample_execute ::
  "('s, 'kube, 'cfg) command \<Rightarrow> ('kube, 'cfg) Options \<Rightarrow> ('s, 'cfg) cmd" where
  "sample_execute cmd opts =
     (case cmd_PreRunE cmd opts of
        (Some err, completed) \<Rightarrow> go_ret (Some err) | (None, completed) \<Rightarrow> cmd_RunE cmd completed)"

theorem program_exit_status_witness:
  "\<exists>s' log. program_main sample_scheme_lib sample_execute sample_extern sample_env sample_pflag
      ((), []) (\<lambda>_. []) (\<lambda>_. (Some (), None)) (NewCache, []) = Returns ((0, ''''), (s', log)) \<and>
    StartManager \<in> set log"
proof -
  have cobra: "execute_doc (\<lambda>opts. Inr (Some opts)) sample_execute"
    by (simp add: execute_doc_def sample_execute_def)
  have flags: "compatible (own_flags @ snd ((), [] :: flagset) @ concat (map (\<lambda>_. []) (builtin_registry sample_extern)))"
    using own_flags_compatible by (simp add: builtin_registry_def)
  have complete: "Options_Complete (\<lambda>_. (Some (), None)) opts = (None, snd (Options_Complete (\<lambda>_. (Some (), None)) opts))"
    for opts :: "(unit, unit) Options"
    by (simp add: Options_Complete_def Let_def)
  have env: "env_ready (sample_env :: (string cache, unit) mgr_env)" "env_Start (sample_env :: (string cache, unit) mgr_env) = None"
    by (simp_all add: env_ready_def sample_env_def)
  have started: "StartManager \<in> set (startup_calls shared opts)" for shared and opts :: "(unit, unit) Options"
    by (simp add: startup_calls_def)
  from program_exit_status [OF sample_scheme_doc cobra sample_pflag_doc flags refl, where env = sample_env and toREST = "\<lambda>_. (Some (), None)" and s = NewCache]
  show ?thesis
    using env started by (subst (asm) complete) auto
qed

end
