(* ===== verification/AP_LiveCluster.thy ===== *)
theory AP_LiveCluster
  imports AP_System
begin

text \<open>
  The request controller in a cluster in which its informer cache lags behind and others decide
  requests too. A reconcile may have read any version that a request of its key ever had, also one
  of a request that was deleted since: the status patch names its target by key only. The API
  server may refuse a patch for any reason, and may answer differently each time.

  The API server gives each created request a UID (here a number it counts up) and keeps its
  specification unchanged. Others may put, change and remove any condition; but they do not write
  approvals in the program's name, with its reason \<^verbatim>\<open>policy.cert-manager.io\<close>.

  Nothing is claimed here about decisions being final: the program skips requests that it sees
  decided (\<open>AP_RequestController\<close>), and after a stale read it rests on cert-manager's own admission
  webhook to refuse a second decision.
\<close>

section \<open>The cluster\<close>

record 'p live =
  lv_requests :: "req_key \<rightharpoonup> nat \<times> CertificateRequest"
  lv_versions :: "(nat \<times> CertificateRequest) set"
  lv_next :: nat
  lv_mgr :: "'p cache \<times> api_call list"

abbreviation key_of :: "CertificateRequest \<Rightarrow> req_key" where
  "key_of cr \<equiv> (cr_Namespace cr, cr_Name cr)"

definition put_request :: "nat \<Rightarrow> CertificateRequest \<Rightarrow> 'p live \<Rightarrow> 'p live" where
  "put_request u cr s = s\<lparr>lv_requests := (lv_requests s)(key_of cr \<mapsto> (u, cr)),
                          lv_versions := insert (u, cr) (lv_versions s)\<rparr>"

text \<open>An approval in the program's name.\<close>

definition own_approval :: "CRCondition \<Rightarrow> bool" where
  "own_approval c \<longleftrightarrow> cc_Type c = ConditionApproved \<and> cc_Reason c = ''policy.cert-manager.io''"

text \<open>The stored requests after the patches of a reconcile, with their UIDs.\<close>

definition stored_requests :: "'p live \<Rightarrow> (req_key \<rightharpoonup> CertificateRequest)" where
  "stored_requests s k = map_option snd (lv_requests s k)"

definition with_requests :: "(req_key \<rightharpoonup> CertificateRequest) \<Rightarrow> 'p live \<Rightarrow> 'p live" where
  "with_requests rs s =
     (let new = (\<lambda>k. case (lv_requests s k, rs k) of (Some (u, _), Some cr) \<Rightarrow> Some (u, cr) | _ \<Rightarrow> None)
      in s\<lparr>lv_requests := new, lv_versions := lv_versions s \<union> ran new\<rparr>)"

inductive live_step ::
  "('u, 'e, 'a, 'p) extern \<Rightarrow> cluster_env \<Rightarrow> 'p live \<Rightarrow> 'p live \<Rightarrow> bool" for x env where
  create: "lv_requests s (key_of cr) = None \<Longrightarrow> cr_Conditions cr = [] \<Longrightarrow>
    live_step x env s (put_request (lv_next s) cr (s\<lparr>lv_next := Suc (lv_next s)\<rparr>))"
| delete: "live_step x env s (s\<lparr>lv_requests := (lv_requests s)(k := None)\<rparr>)"
| others: "lv_requests s k = Some (u, cr) \<Longrightarrow> set (filter own_approval cs) \<subseteq> set (cr_Conditions cr) \<Longrightarrow>
    live_step x env s (put_request u (cr\<lparr>cr_Conditions := cs\<rparr>) s)"
| reconcile: "(\<And>j cr. get j = Inr cr \<Longrightarrow> key_of cr = j \<and> cr \<in> snd ` lv_versions s) \<Longrightarrow>
    Reconcile x (builtin_controller x (env_api env) get now (env_Marshal env) patch) k (lv_mgr s, []) =
      Returns (answer, (m, log)) \<Longrightarrow>
    live_step x env s (with_requests
      (foldl (\<lambda>rs call. apply_call (env\<lparr>env_Patch := patch\<rparr>) call rs) (stored_requests s) log)
      (s\<lparr>lv_mgr := m\<rparr>))"

definition live_init :: "'p live" where
  "live_init = \<lparr>lv_requests = Map.empty, lv_versions = {}, lv_next = 0, lv_mgr = (NewCache, [])\<rparr>"

inductive live_reachable ::
  "('u, 'e, 'a, 'p) extern \<Rightarrow> cluster_env \<Rightarrow> 'p live \<Rightarrow> bool" for x env where
  init: "live_reachable x env live_init"
| step: "live_reachable x env s \<Longrightarrow> live_step x env s t \<Longrightarrow> live_reachable x env t"

section \<open>The invariant\<close>

text \<open>Versions with the same UID differ in their conditions only; an approval in the program's name
  comes from the review of a version of the same key.\<close>

definition same_request :: "CertificateRequest \<Rightarrow> CertificateRequest \<Rightarrow> bool" where
  "same_request v w \<longleftrightarrow> v\<lparr>cr_Conditions := []\<rparr> = w\<lparr>cr_Conditions := []\<rparr>"

definition vouched ::
  "('u, 'e, 'a, 'p) extern \<Rightarrow> api \<Rightarrow> 'p live \<Rightarrow> req_key \<Rightarrow> bool" where
  "vouched x a s k \<longleftrightarrow>
     (\<exists>w v. (w, v) \<in> lv_versions s \<and> key_of v = k \<and> undecided_predicate x v \<and> justified x a v (snd (lv_mgr s)))"

definition live_inv :: "('u, 'e, 'a, 'p) extern \<Rightarrow> cluster_env \<Rightarrow> 'p live \<Rightarrow> bool" where
  "live_inv x env s \<longleftrightarrow> cache_ok x (fst (lv_mgr s)) \<and>
     (\<forall>k u cr. lv_requests s k = Some (u, cr) \<longrightarrow> key_of cr = k \<and> (u, cr) \<in> lv_versions s) \<and>
     (\<forall>(u, v) \<in> lv_versions s. u < lv_next s \<and>
        (\<forall>c \<in> set (cr_Conditions v). own_approval c \<longrightarrow> vouched x (env_api env) s (key_of v))) \<and>
     (\<forall>(u, v) \<in> lv_versions s. \<forall>(w, v') \<in> lv_versions s. u = w \<longrightarrow> same_request v v')"

lemma live_invD:
  assumes "live_inv x env s"
  shows "cache_ok x (fst (lv_mgr s))"
    and "lv_requests s k = Some (u, cr) \<Longrightarrow> key_of cr = k"
    and "lv_requests s k = Some (u, cr) \<Longrightarrow> (u, cr) \<in> lv_versions s"
    and "(u, v) \<in> lv_versions s \<Longrightarrow> u < lv_next s"
    and "(u, v) \<in> lv_versions s \<Longrightarrow> c \<in> set (cr_Conditions v) \<Longrightarrow> own_approval c \<Longrightarrow>
      vouched x (env_api env) s (key_of v)"
    and "(u, v) \<in> lv_versions s \<Longrightarrow> (u, v') \<in> lv_versions s \<Longrightarrow> same_request v v'"
  using assms unfolding live_inv_def by blast+

lemma live_invI:
  assumes "cache_ok x (fst (lv_mgr s))"
    and "\<And>k u cr. lv_requests s k = Some (u, cr) \<Longrightarrow> key_of cr = k \<and> (u, cr) \<in> lv_versions s"
    and "\<And>u v. (u, v) \<in> lv_versions s \<Longrightarrow> u < lv_next s"
    and "\<And>u v c. (u, v) \<in> lv_versions s \<Longrightarrow> c \<in> set (cr_Conditions v) \<Longrightarrow> own_approval c \<Longrightarrow>
      vouched x (env_api env) s (key_of v)"
    and "\<And>u v v'. (u, v) \<in> lv_versions s \<Longrightarrow> (u, v') \<in> lv_versions s \<Longrightarrow> same_request v v'"
  shows "live_inv x env s"
  using assms unfolding live_inv_def by blast

lemma same_request_refl [simp]: "same_request v v"
  by (simp add: same_request_def)

lemma same_request_sym: "same_request v w \<Longrightarrow> same_request w v"
  by (simp add: same_request_def)

lemma same_request_trans: "same_request u v \<Longrightarrow> same_request v w \<Longrightarrow> same_request u w"
  by (simp add: same_request_def)

lemma same_request_conditions [simp]: "same_request (v\<lparr>cr_Conditions := cs\<rparr>) v"
  by (simp add: same_request_def)

lemma same_request_key: "same_request v w \<Longrightarrow> key_of v = key_of w"
  unfolding same_request_def by (drule arg_cong [of _ _ key_of]) simp

lemma same_request_justified:
  assumes "same_request v w"
  shows "justified x a v l = justified x a w l"
proof -
  have "justified x a (v\<lparr>cr_Conditions := []\<rparr>) l = justified x a (w\<lparr>cr_Conditions := []\<rparr>) l"
    using assms by (simp add: same_request_def)
  then show ?thesis by simp
qed

lemma vouched_mono:
  assumes "vouched x a s k" and "lv_versions s \<subseteq> lv_versions t" and "snd (lv_mgr t) = snd (lv_mgr s) @ l"
  shows "vouched x a t k"
  using assms justified_append unfolding vouched_def by fastforce

text \<open>The invariant survives every change that keeps the manager and adds versions of stored requests
  whose own approvals are vouched for.\<close>

lemma live_inv_extend:
  assumes inv: "live_inv x env s" and cache: "cache_ok x (fst (lv_mgr t))"
    and mgr: "snd (lv_mgr t) = snd (lv_mgr s) @ l" and "next": "lv_next t = lv_next s"
    and vers: "lv_versions s \<subseteq> lv_versions t"
    and reqs: "\<And>k u cr. lv_requests t k = Some (u, cr) \<Longrightarrow> key_of cr = k \<and> (u, cr) \<in> lv_versions t"
    and new: "\<And>u v. (u, v) \<in> lv_versions t \<Longrightarrow> (u, v) \<notin> lv_versions s \<Longrightarrow>
      \<exists>old. (u, old) \<in> lv_versions s \<and> same_request v old \<and>
        (\<forall>c \<in> set (cr_Conditions v). own_approval c \<longrightarrow>
           c \<in> set (cr_Conditions old) \<or> vouched x (env_api env) t (key_of v))"
  shows "live_inv x env t"
proof -
  have old: "\<exists>old. (u, old) \<in> lv_versions s \<and> same_request v old \<and>
      (\<forall>c \<in> set (cr_Conditions v). own_approval c \<longrightarrow>
         c \<in> set (cr_Conditions old) \<or> vouched x (env_api env) t (key_of v))"
    if "(u, v) \<in> lv_versions t" for u v
    using new [OF that] by (cases "(u, v) \<in> lv_versions s") auto
  show ?thesis
  proof (rule live_invI)
    show "u < lv_next t" if "(u, v) \<in> lv_versions t" for u v
      using old [OF that] live_invD(4) [OF inv] "next" by auto
    show "vouched x (env_api env) t (key_of v)"
      if v: "(u, v) \<in> lv_versions t" "c \<in> set (cr_Conditions v)" "own_approval c" for u v c
    proof -
      obtain v' where v': "(u, v') \<in> lv_versions s" "same_request v v'"
        "c \<in> set (cr_Conditions v') \<or> vouched x (env_api env) t (key_of v)"
        using old [OF v(1)] v(2,3) by blast
      have "vouched x (env_api env) t (key_of v)" if "c \<in> set (cr_Conditions v')"
        using vouched_mono [OF live_invD(5) [OF inv v'(1) that v(3)] vers mgr]
        unfolding same_request_key [OF v'(2)] .
      with v'(3) show ?thesis by blast
    qed
    show "same_request v v'" if "(u, v) \<in> lv_versions t" "(u, v') \<in> lv_versions t" for u v v'
      using old [OF that(1)] old [OF that(2)] live_invD(6) [OF inv]
      by (meson same_request_sym same_request_trans)
  qed (use cache reqs in auto)
qed

lemma put_request_simps [simp]:
  "lv_requests (put_request u cr s) = (lv_requests s)(key_of cr \<mapsto> (u, cr))"
  "lv_versions (put_request u cr s) = insert (u, cr) (lv_versions s)"
  "lv_next (put_request u cr s) = lv_next s" "lv_mgr (put_request u cr s) = lv_mgr s"
  by (simp_all add: put_request_def)

lemma live_inv_init: "live_inv x env live_init"
  by (simp add: live_inv_def live_init_def cache_ok_empty)

lemma live_inv_create:
  assumes inv: "live_inv x env s" and "cr_Conditions cr = []"
  shows "live_inv x env (put_request (lv_next s) cr (s\<lparr>lv_next := Suc (lv_next s)\<rparr>))" (is "live_inv x env ?t")
proof (rule live_invI)
  have fresh: "(lv_next s, v) \<notin> lv_versions s" for v using live_invD(4) [OF inv] by blast
  show "cache_ok x (fst (lv_mgr ?t))" using live_invD(1) [OF inv] by simp
  show "key_of r = k \<and> (u, r) \<in> lv_versions ?t" if "lv_requests ?t k = Some (u, r)" for k u r
    using that live_invD(2,3) [OF inv] by (auto split: if_splits)
  show "u < lv_next ?t" if "(u, v) \<in> lv_versions ?t" for u v
    using that live_invD(4) [OF inv] by (auto intro: less_SucI)
  show "vouched x (env_api env) ?t (key_of v)"
    if "(u, v) \<in> lv_versions ?t" "c \<in> set (cr_Conditions v)" "own_approval c" for u v c
  proof (rule vouched_mono [where s = s and l = "[]"])
    show "vouched x (env_api env) s (key_of v)" using that live_invD(5) [OF inv] assms(2) by auto
  qed auto
  show "same_request v v'" if "(u, v) \<in> lv_versions ?t" "(u, v') \<in> lv_versions ?t" for u v v'
    using that fresh live_invD(6) [OF inv] by auto
qed

lemma live_inv_others:
  assumes inv: "live_inv x env s" and req: "lv_requests s k = Some (u, cr)"
    and "set (filter own_approval cs) \<subseteq> set (cr_Conditions cr)"
  shows "live_inv x env (put_request u (cr\<lparr>cr_Conditions := cs\<rparr>) s)" (is "live_inv x env ?t")
proof (rule live_inv_extend [OF inv])
  show "cache_ok x (fst (lv_mgr ?t))" using live_invD(1) [OF inv] by simp
  show "key_of r = j \<and> (w, r) \<in> lv_versions ?t" if "lv_requests ?t j = Some (w, r)" for j w r
    using that live_invD(2,3) [OF inv] by (auto split: if_splits)
  show "\<exists>old. (w, old) \<in> lv_versions s \<and> same_request v old \<and> (\<forall>c \<in> set (cr_Conditions v). own_approval c \<longrightarrow>
      c \<in> set (cr_Conditions old) \<or> vouched x (env_api env) ?t (key_of v))"
    if "(w, v) \<in> lv_versions ?t" "(w, v) \<notin> lv_versions s" for w v
    using that assms(3) live_invD(3) [OF inv req] by (intro exI [of _ cr]) auto
qed auto

section \<open>Reconciling on a stale read\<close>

lemma with_requests_same:
  assumes "lv_versions s \<supseteq> ran (lv_requests s)"
  shows "with_requests (stored_requests s) s = s"
proof -
  have "(\<lambda>k. case (lv_requests s k, stored_requests s k) of (Some (u, _), Some cr) \<Rightarrow> Some (u, cr) | _ \<Rightarrow> None) =
      lv_requests s"
    by (auto simp: stored_requests_def fun_eq_iff split: option.splits)
  with assms show ?thesis by (simp add: with_requests_def Let_def sup_absorb1)
qed

lemma with_requests_one:
  assumes "lv_versions s \<supseteq> ran (lv_requests s)" and "lv_requests s k = Some (u, cr)" and "key_of cr' = k"
  shows "with_requests ((stored_requests s)(k \<mapsto> cr')) s = put_request u cr' s"
proof -
  let ?new = "\<lambda>j. case (lv_requests s j, ((stored_requests s)(k \<mapsto> cr')) j) of
    (Some (u, _), Some cr) \<Rightarrow> Some (u, cr) | _ \<Rightarrow> None"
  have new: "?new = (lv_requests s)(k \<mapsto> (u, cr'))"
    using assms(2) by (auto simp: stored_requests_def fun_eq_iff split: option.splits)
  moreover have "lv_versions s \<union> ran ((lv_requests s)(k \<mapsto> (u, cr'))) = insert (u, cr') (lv_versions s)"
  proof -
    have "(u, cr') \<in> ran ((lv_requests s)(k \<mapsto> (u, cr')))" by (rule ranI [of _ k]) simp
    moreover have "ran ((lv_requests s)(k \<mapsto> (u, cr'))) \<subseteq> insert (u, cr') (ran (lv_requests s))"
      by (auto simp: ran_def)
    ultimately show ?thesis using assms(1) by blast
  qed
  ultimately show ?thesis
    using assms(3) unfolding with_requests_def Let_def put_request_def new by simp
qed

text \<open>What a reconcile does: nothing to the requests, or it records the decision of the review of the
  version it read on the request that is stored under the key now.\<close>

lemma live_reconcile:
  assumes docs: "decided_doc x" "json_roundtrip env" and inv: "live_inv x env s"
    and run: "Reconcile x (builtin_controller x (env_api env) get now (env_Marshal env) patch) k (lv_mgr s, []) =
      Returns (answer, (m, log))"
  obtains (none) "with_requests (foldl (\<lambda>rs call. apply_call (env\<lparr>env_Patch := patch\<rparr>) call rs)
      (stored_requests s) log) (s\<lparr>lv_mgr := m\<rparr>) = s\<lparr>lv_mgr := m\<rparr>"
  | (decided) v resp ctype c u cr where "get k = Inr v" "undecided_predicate x v"
      "Review x (New x (env_api env) (Evaluators (builtin_registry x))) v (lv_mgr s) = Returns (Inr resp, m)"
      "decision_of resp = Some ctype" "recorded ctype c" "lv_requests s k = Some (u, cr)"
      "with_requests (foldl (\<lambda>rs call. apply_call (env\<lparr>env_Patch := patch\<rparr>) call rs) (stored_requests s) log)
         (s\<lparr>lv_mgr := m\<rparr>) = put_request u (record_decision c cr) (s\<lparr>lv_mgr := m\<rparr>)"
proof -
  let ?t = "s\<lparr>lv_mgr := m\<rparr>"
  have ran: "ran (lv_requests ?t) \<subseteq> lv_versions ?t"
    using live_invD(3) [OF inv] by (auto simp: ran_def)
  have same: "stored_requests s = stored_requests ?t" by (simp add: stored_requests_def fun_eq_iff)
  have json: "json_roundtrip (env\<lparr>env_Patch := patch\<rparr>)" using docs(2) by (simp add: json_roundtrip_def)
  have run': "Reconcile x (builtin_controller x (env_api (env\<lparr>env_Patch := patch\<rparr>)) get now
      (env_Marshal (env\<lparr>env_Patch := patch\<rparr>)) (env_Patch (env\<lparr>env_Patch := patch\<rparr>))) k (lv_mgr s, []) =
      Returns (answer, (m, log))" using run by simp
  show thesis
    using docs(1) json run'
  proof (cases rule: reconcile_patches)
    case none
    then show thesis by (intro that(1)) (simp add: same with_requests_same [OF ran])
  next
    case (decided v resp ctype c)
    show thesis
    proof (cases "lv_requests s k")
      case None
      with decided(6) show thesis
        by (intro that(1)) (simp add: same with_requests_same [OF ran] stored_requests_def)
    next
      case (Some p)
      then obtain u cr where req: "lv_requests s k = Some (u, cr)" by (cases p) simp
      then have key: "key_of (record_decision c cr) = k" using live_invD(2) [OF inv] by (simp add: record_decision_def)
      have "with_requests ((stored_requests ?t)(k \<mapsto> record_decision c cr)) ?t =
          put_request u (record_decision c cr) ?t"
        by (rule with_requests_one [OF ran _ key]) (use req in simp)
      with decided req show thesis
        by (intro that(2) [of v resp ctype c u cr]) (simp_all add: same [symmetric] stored_requests_def)
    qed
  qed
qed

lemma put_condition_set: "set (put_condition c cs) \<subseteq> insert c (set cs)"
  by (induction cs) auto

lemma live_inv_reconcile:
  assumes docs: "cel_type_sound x" "ToAggregate_doc x" "decided_doc x" "json_roundtrip env"
    and inv: "live_inv x env s"
    and get: "\<And>j cr. get j = Inr cr \<Longrightarrow> key_of cr = j \<and> cr \<in> snd ` lv_versions s"
    and run: "Reconcile x (builtin_controller x (env_api env) get now (env_Marshal env) patch) k (lv_mgr s, []) =
      Returns (answer, (m, log))"
  shows "live_inv x env (with_requests (foldl (\<lambda>rs call. apply_call (env\<lparr>env_Patch := patch\<rparr>) call rs)
      (stored_requests s) log) (s\<lparr>lv_mgr := m\<rparr>))"
proof -
  have good: "builtin_good x (fst (lv_mgr s))"
    using live_invD(1) [OF inv] docs(1,2) by (simp add: builtin_good_def)
  obtain l where mgr: "cache_ok x (fst m)" "snd m = snd (lv_mgr s) @ l"
    using builtin_manager [OF docs(3) good run] by (auto simp: builtin_good_def)
  have inv': "live_inv x env (s\<lparr>lv_mgr := m\<rparr>)"
    by (rule live_inv_extend [OF inv, where l = l]) (use mgr live_invD(2,3) [OF inv] in auto)
  show ?thesis
    using docs(3,4) inv run
  proof (cases rule: live_reconcile)
    case none
    with inv' show ?thesis by simp
  next
    case (decided v resp ctype c u cr)
    let ?t = "put_request u (record_decision c cr) (s\<lparr>lv_mgr := m\<rparr>)"
    have v: "key_of v = k" "v \<in> snd ` lv_versions s" using get [OF decided(1)] by auto
    have vouched: "vouched x (env_api env) ?t k" if "ctype = ConditionApproved"
    proof -
      have "justified x (env_api env) v (snd m)"
        using approval_justified [OF good decided(3)] decided(4) that by simp
      with v decided(2) show ?thesis unfolding vouched_def by force
    qed
    have "live_inv x env ?t"
    proof (rule live_inv_extend [OF inv', where l = "[]"])
      show "key_of r = j \<and> (w, r) \<in> lv_versions ?t" if "lv_requests ?t j = Some (w, r)" for j w r
        using that live_invD(2,3) [OF inv] by (auto split: if_splits)
      have old: "(u, cr) \<in> lv_versions s" "key_of cr = k"
        using live_invD(2,3) [OF inv decided(6)] by simp_all
      have "c' \<in> set (cr_Conditions cr) \<or> vouched x (env_api env) ?t k"
        if "c' \<in> set (cr_Conditions (record_decision c cr))" "own_approval c'" for c'
        using that vouched decided(5) put_condition_set [of c "cr_Conditions cr"]
        by (auto simp: record_decision_def own_approval_def recorded_def cr_condition_key_def)
      with old show "\<exists>old. (w, old) \<in> lv_versions (s\<lparr>lv_mgr := m\<rparr>) \<and> same_request r old \<and>
          (\<forall>c' \<in> set (cr_Conditions r). own_approval c' \<longrightarrow>
             c' \<in> set (cr_Conditions old) \<or> vouched x (env_api env) ?t (key_of r))"
        if "(w, r) \<in> lv_versions ?t" "(w, r) \<notin> lv_versions (s\<lparr>lv_mgr := m\<rparr>)" for w r
        using that by (intro exI [of _ cr]) (auto simp: record_decision_def)
    qed (use mgr in auto)
    with decided(7) show ?thesis by simp
  qed
qed

lemma live_reachable_inv:
  assumes docs: "cel_type_sound x" "ToAggregate_doc x" "decided_doc x" "json_roundtrip env"
    and "live_reachable x env s"
  shows "live_inv x env s"
  using assms(5)
proof (induction rule: live_reachable.induct)
  case init
  show ?case by (rule live_inv_init)
next
  case (step s t)
  from step(2) show ?case
  proof (cases rule: live_step.cases)
    case (create cr)
    with live_inv_create [OF step(3)] show ?thesis by simp
  next
    case (delete k)
    show ?thesis
      unfolding delete
      by (rule live_inv_extend [OF step(3), where l = "[]"])
        (use live_invD(1-3) [OF step(3)] in \<open>auto split: if_splits\<close>)
  next
    case (others k u cr cs)
    with live_inv_others [OF step(3)] show ?thesis by simp
  next
    case (reconcile get now patch k answer m log)
    show ?thesis unfolding reconcile(1) by (rule live_inv_reconcile [OF docs step(3) reconcile(2,3)])
  qed
qed

section \<open>The up-to-date cluster is a special case\<close>

lemma apply_calls_dom: "dom (foldl (\<lambda>rs call. apply_call env call rs) rs log) = dom rs"
proof (induction log arbitrary: rs)
  case (Cons call log)
  have "dom (apply_call env call rs) = dom rs"
    by (auto simp: apply_call_def split: ctl_call.splits option.splits)
  with Cons show ?case by simp
qed simp

lemma stored_with_requests:
  assumes "dom rs = dom (lv_requests s)"
  shows "stored_requests (with_requests rs s) = rs"
proof
  fix k
  show "stored_requests (with_requests rs s) k = rs k"
    using assms
    by (cases "lv_requests s k"; cases "rs k") (auto simp: stored_requests_def with_requests_def Let_def)
qed

text \<open>Every run in which the controller reads what is stored, and in which nobody else decides, is a
  run of the live cluster.\<close>

lemma cluster_is_live:
  assumes docs: "cel_type_sound x" "ToAggregate_doc x" "decided_doc x" "json_roundtrip env"
    and "cluster_reachable x env s"
  shows "\<exists>t. live_reachable x env t \<and> stored_requests t = cl_requests s \<and> lv_mgr t = cl_mgr s"
  using assms(5)
proof (induction rule: cluster_reachable.induct)
  case init
  show ?case
    by (intro exI [of _ live_init] conjI live_reachable.init)
      (simp_all add: live_init_def cluster_init_def stored_requests_def fun_eq_iff)
next
  case (step s s')
  then obtain t where t: "live_reachable x env t" "stored_requests t = cl_requests s" "lv_mgr t = cl_mgr s"
    by blast
  note inv = live_reachable_inv [OF docs t(1)]
  note next_state = live_reachable.step [OF t(1)]
  have req: "\<exists>u. lv_requests t k = Some (u, cr)" if "cl_requests s k = Some cr" for k cr
    using that unfolding t(2) [symmetric] by (auto simp: stored_requests_def)
  from step(2) show ?case
  proof (cases rule: cluster_step.cases)
    case (create cr)
    then have "lv_requests t (key_of cr) = None" unfolding t(2) [symmetric] by (simp add: stored_requests_def)
    then show ?thesis
      by (intro exI, rule conjI [OF next_state [OF live_step.create [OF _ create(3)]]])
        (use create(1) t(2,3) in \<open>auto simp: stored_requests_def fun_eq_iff\<close>)
  next
    case (delete k)
    show ?thesis
      by (intro exI, rule conjI [OF next_state [OF live_step.delete [of _ _ _ k]]])
        (use delete t(2,3) in \<open>auto simp: stored_requests_def fun_eq_iff\<close>)
  next
    case (others k cr c)
    obtain u where u: "lv_requests t k = Some (u, cr)" using req [OF others(2)] by blast
    have "set (filter own_approval (put_condition c (cr_Conditions cr))) \<subseteq> set (cr_Conditions cr)"
      using others(3) put_condition_set [of c "cr_Conditions cr"] by (auto simp: own_approval_def)
    then show ?thesis
      by (intro exI, rule conjI [OF next_state [OF live_step.others [OF u]]])
        (use others(1) t(2,3) live_invD(2) [OF inv u] in \<open>auto simp: stored_requests_def fun_eq_iff\<close>)
  next
    case (reconcile now k answer m log)
    have get: "key_of cr = j \<and> cr \<in> snd ` lv_versions t" if read: "read_request (cl_requests s) j = Inr cr" for j cr
    proof -
      obtain u where u: "lv_requests t j = Some (u, cr)" using req [of j cr] read by auto
      from live_invD(2) [OF inv u] imageI [OF live_invD(3) [OF inv u], of snd] show ?thesis by simp
    qed
    have run: "Reconcile x (builtin_controller x (env_api env) (read_request (cl_requests s)) now
        (env_Marshal env) (env_Patch env)) k (lv_mgr t, []) = Returns (answer, (m, log))"
      using reconcile(2) by (simp add: controller_at_def t(3))
    have "env\<lparr>env_Patch := env_Patch env\<rparr> = env" by (cases env) simp
    with next_state [OF live_step.reconcile [OF get run]] have "live_reachable x env
        (with_requests (foldl (\<lambda>rs call. apply_call env call rs) (cl_requests s) log) (t\<lparr>lv_mgr := m\<rparr>))"
      by (simp add: t(2))
    moreover have "dom (cl_requests s) = dom (lv_requests t)"
      unfolding t(2) [symmetric] by (auto simp: stored_requests_def dom_def)
    then have "stored_requests (with_requests (foldl (\<lambda>rs call. apply_call env call rs) (cl_requests s) log)
        (t\<lparr>lv_mgr := m\<rparr>)) = foldl (\<lambda>rs call. apply_call env call rs) (cl_requests s) log"
      by (intro stored_with_requests) (simp add: apply_calls_dom)
    ultimately show ?thesis
      using reconcile(1)
      by (intro exI [of _ "with_requests _ _"] conjI) (assumption, simp, simp add: with_requests_def Let_def)
  qed
qed

section \<open>Properties\<close>

text \<open>C7: approvals in a cluster with stale reads and other deciders. Whenever a stored request has an
  \<^verbatim>\<open>Approved\<close> condition with the program's reason, the program reviewed a version that a request of
  that name and namespace had, which it saw undecided, against a policy that was listed, ready,
  selecting, bound to the user by RBAC and permitting it. If that version belongs to this very
  request (the same UID), then the request that is stored is justified just so, whatever happened
  to its conditions meanwhile; if it does not, the request was deleted and created again.\<close>

theorem live_approvals_justified:
  assumes "cel_type_sound x" and "ToAggregate_doc x" and "decided_doc x" and "json_roundtrip env"
    and "live_reachable x env s" and "lv_requests s k = Some (u, cr)"
    and "c \<in> set (cr_Conditions cr)" and "own_approval c"
  shows "\<exists>w v. (w, v) \<in> lv_versions s \<and> key_of v = k \<and> undecided_predicate x v \<and>
     justified x (env_api env) v (snd (lv_mgr s)) \<and>
     (w = u \<longrightarrow> justified x (env_api env) cr (snd (lv_mgr s)))"
proof -
  have inv: "live_inv x env s" by (rule live_reachable_inv [OF assms(1-5)])
  have cr: "key_of cr = k" "(u, cr) \<in> lv_versions s" using live_invD(2,3) [OF inv assms(6)] by simp_all
  with live_invD(5) [OF inv cr(2) assms(7,8)] obtain w v where
    v: "(w, v) \<in> lv_versions s" "key_of v = k" "undecided_predicate x v"
      "justified x (env_api env) v (snd (lv_mgr s))"
    unfolding vouched_def by auto
  moreover have "justified x (env_api env) cr (snd (lv_mgr s))" if "w = u"
    using same_request_justified live_invD(6) [OF inv, of u v cr] v(1,4) cr(2) that by blast
  ultimately show ?thesis by blast
qed

text \<open>C40: the last case does occur. The patch names its target by key only, without the UID or the
  resource version of what was read. There is a reachable state, after one reconcile on a stale
  read, in which the approval that one request earned stands on another one that was created under
  the same name, and that no policy can permit.\<close>

theorem recreated_request_approved:
  "\<exists>(env :: cluster_env) s u cr c. json_roundtrip env \<and> live_reachable sample_extern env s \<and>
     lv_requests s (''ns'', ''req'') = Some (u, cr) \<and> c \<in> set (cr_Conditions cr) \<and> own_approval c \<and>
     (\<forall>a l. \<not> justified sample_extern a cr l)"
proof -
  let ?k = "(''ns'', ''req'')" and ?other = "sample_request\<lparr>cr_Request := ''other''\<rparr>"
  have key: "key_of sample_request = ?k" "key_of ?other = ?k" by (simp_all add: sample_request_def)
  obtain env :: cluster_env and m log c where e: "json_roundtrip env" "env_api env = sample_api"
    "recorded ConditionApproved c"
    "\<And>get. get ?k = Inr sample_request \<Longrightarrow> Reconcile sample_extern (builtin_controller sample_extern (env_api env)
        get 7 (env_Marshal env) (env_Patch env)) ?k ((NewCache, []), []) = Returns ((no_result, None), (m, log))"
    "\<And>rs. foldl (\<lambda>rs call. apply_call env call rs) rs log =
        (case rs ?k of Some stored \<Rightarrow> rs(?k \<mapsto> record_decision c stored) | None \<Rightarrow> rs)"
    by (rule sample_reconcile) blast
  let ?s1 = "put_request 0 sample_request ((live_init :: string live)\<lparr>lv_next := 1\<rparr>)"
  have "live_step sample_extern env live_init ?s1"
    using live_step.create [of live_init sample_request sample_extern env]
    by (simp add: live_init_def sample_request_def)
  then have r1: "live_reachable sample_extern env ?s1" by (rule live_reachable.step [OF live_reachable.init])
  let ?s2 = "?s1\<lparr>lv_requests := (lv_requests ?s1)(?k := None)\<rparr>"
  have r2: "live_reachable sample_extern env ?s2" by (rule live_reachable.step [OF r1 live_step.delete])
  let ?s3 = "put_request 1 ?other (?s2\<lparr>lv_next := 2\<rparr>)"
  have "live_step sample_extern env ?s2 ?s3"
    using live_step.create [of ?s2 ?other sample_extern env] key
    by (simp add: sample_request_def numeral_2_eq_2)
  with r2 have r3: "live_reachable sample_extern env ?s3" by (rule live_reachable.step)
  have mgr: "lv_mgr ?s3 = (NewCache, [])" by (simp add: live_init_def)
  let ?get = "\<lambda>j. if j = ?k then Inr sample_request else Inl (ErrLib ''not found'')"
  have get: "key_of cr = j \<and> cr \<in> snd ` lv_versions ?s3" if "?get j = Inr cr" for j cr
    using that key by (auto split: if_splits)
  have "Reconcile sample_extern (builtin_controller sample_extern (env_api env) ?get 7 (env_Marshal env)
      (env_Patch env)) ?k (lv_mgr ?s3, []) = Returns ((no_result, None), (m, log))"
    unfolding mgr by (rule e(4)) simp
  note step = live_step.reconcile [where get = ?get, OF get this]
  have same: "env\<lparr>env_Patch := env_Patch env\<rparr> = env" by (cases env) simp
  have stored: "stored_requests ?s3 ?k = Some ?other" using key by (simp add: stored_requests_def)
  let ?s4 = "with_requests ((stored_requests ?s3)(?k \<mapsto> record_decision c ?other)) (?s3\<lparr>lv_mgr := m\<rparr>)"
  have "live_reachable sample_extern env ?s4"
    using live_reachable.step [OF r3 step] unfolding same e(5) stored by simp
  moreover have "lv_requests ?s4 ?k = Some (1, record_decision c ?other)"
    using key by (simp add: with_requests_def Let_def)
  moreover have "c \<in> set (cr_Conditions (record_decision c ?other))"
    by (simp add: record_decision_def sample_request_def)
  moreover have "own_approval c" using e(3) by (simp add: own_approval_def recorded_def cr_condition_key_def)
  moreover have "\<not> justified sample_extern a (record_decision c ?other) l" for a l
    by (simp add: justified_def record_decision_def sample_extern_def)
  ultimately show ?thesis using e(1) by blast
qed

theorem live_approvals_justified_witness:
  "\<exists>(env :: cluster_env) s w v. live_reachable sample_extern env s \<and> (w, v) \<in> lv_versions s \<and>
     key_of v = (''ns'', ''req'') \<and> justified sample_extern sample_api v (snd (lv_mgr s))"
proof -
  obtain env :: cluster_env and s cr c where e: "json_roundtrip env" "env_api env = sample_api"
    "cluster_reachable sample_extern env s" "cl_requests s (''ns'', ''req'') = Some cr"
    "c \<in> set (cr_Conditions cr)" "cc_Type c = ConditionApproved" "cc_Reason c = ''policy.cert-manager.io''"
    using sample_cluster by blast
  note docs = sample_extern_doc(3,1) sample_decided_doc e(1)
  obtain t where t: "live_reachable sample_extern env t" "stored_requests t = cl_requests s"
    using cluster_is_live [OF docs e(3)] by blast
  obtain u where u: "lv_requests t (''ns'', ''req'') = Some (u, cr)"
    using e(4) unfolding t(2) [symmetric] by (auto simp: stored_requests_def)
  have "own_approval c" using e(6,7) by (simp add: own_approval_def)
  from live_approvals_justified [OF docs t(1) u e(5) this] e(2) t(1) show ?thesis by auto
qed

end
