(* ===== verification/AP_Heap.thy ===== *)
theory AP_Heap
  imports AP_Prelude
begin

text \<open>
  Go's heap, as far as deep copies are concerned: cells that hold the values pointers, slices and
  maps refer to, allocation, and reading through references. A \<^emph>\<open>view\<close> reads a value with all
  that is reachable from it: the deep value, in which \<^verbatim>\<open>reflect.DeepEqual\<close> compares (a nil slice
  differs from an empty one), and the set of cells it rests on. \<open>deep_copier\<close> is the contract of a
  copying function: it returns a value with an equal view that rests on newly allocated cells only.
  The contract is closed under the ways the generated code composes copies.
\<close>

section \<open>Cells and references\<close>

type_synonym addr = nat

text \<open>A pointer, slice or map: \<open>None\<close> is nil.\<close>

type_synonym ref = "addr option"

record 'c heap =
  h_cells :: "addr \<rightharpoonup> 'c"
  h_next :: addr

definition heap_ok :: "'c heap \<Rightarrow> bool" where
  "heap_ok h \<longleftrightarrow> (\<forall>a. h_cells h a \<noteq> None \<longrightarrow> a < h_next h)"

text \<open>How a type of values is stored in cells.\<close>

record ('c, 'a) kind =
  k_make :: "'a \<Rightarrow> 'c"
  k_is :: "'c \<Rightarrow> bool"
  k_get :: "'c \<Rightarrow> 'a"

definition kind_ok :: "('c, 'a) kind \<Rightarrow> bool" where
  "kind_ok k \<longleftrightarrow> (\<forall>x. k_is k (k_make k x) \<and> k_get k (k_make k x) = x)"

definition alloc :: "'c \<Rightarrow> ('c heap, addr) go" where
  "alloc c h = Returns (h_next h, h\<lparr>h_cells := (h_cells h)(h_next h \<mapsto> c), h_next := Suc (h_next h)\<rparr>)"

definition load :: "('c, 'a) kind \<Rightarrow> ref \<Rightarrow> ('c heap, 'a) go" where
  "load k p h =
     (case p of
        None \<Rightarrow> Panics ''invalid memory address or nil pointer dereference''
      | Some a \<Rightarrow>
          (case h_cells h a of
             Some c \<Rightarrow> if k_is k c then Returns (k_get k c, h) else Panics ''misread memory''
           | None \<Rightarrow> Panics ''invalid memory address or nil pointer dereference''))"

section \<open>Copying\<close>

text \<open>\<open>if in.F != nil { *out = new(T); copy **in into **out }\<close>, and the same with \<^verbatim>\<open>make\<close> for slices and
  maps: the new memory is filled before anything else can refer to it, so that it is allocated
  here with its final contents.\<close>

definition c_ref :: "('c, 'a) kind \<Rightarrow> ('a \<Rightarrow> ('c heap, 'a) go) \<Rightarrow> ref \<Rightarrow> ('c heap, ref) go" where
  "c_ref k f p =
     (case p of
        None \<Rightarrow> go_ret None
      | Some a \<Rightarrow> go_bind (load k p) (\<lambda>x. go_bind (f x) (\<lambda>y. go_bind (alloc (k_make k y)) (\<lambda>b.
          go_ret (Some b)))))"

text \<open>The loops over the elements of a slice and over the entries of a map.\<close>

primrec c_list :: "('a \<Rightarrow> ('c heap, 'a) go) \<Rightarrow> 'a list \<Rightarrow> ('c heap, 'a list) go" where
  "c_list f [] = go_ret []"
| "c_list f (x # xs) = go_bind (f x) (\<lambda>y. go_bind (c_list f xs) (\<lambda>ys. go_ret (y # ys)))"

definition c_entry :: "('a \<Rightarrow> ('c heap, 'a) go) \<Rightarrow> string \<times> 'a \<Rightarrow> ('c heap, string \<times> 'a) go" where
  "c_entry f kv = go_bind (f (snd kv)) (\<lambda>v. go_ret (fst kv, v))"

section \<open>Views\<close>

datatype deep =
    DNil | DString string | DBool bool | DInt int
  | DPtr deep | DSlice "deep list" | DEntry string deep | DStruct "deep list"

type_synonym 'c view = "'c heap \<Rightarrow> (deep \<times> addr set) option"

definition v_val :: "deep \<Rightarrow> 'c view" where
  "v_val d h = Some (d, {})"

primrec v_fields :: "'c view list \<Rightarrow> 'c heap \<Rightarrow> (deep list \<times> addr set) option" where
  "v_fields [] h = Some ([], {})"
| "v_fields (v # vs) h =
     (case v h of
        None \<Rightarrow> None
      | Some (d, A) \<Rightarrow> (case v_fields vs h of None \<Rightarrow> None | Some (ds, B) \<Rightarrow> Some (d # ds, A \<union> B)))"

definition v_struct :: "'c view list \<Rightarrow> 'c view" where
  "v_struct vs h = (case v_fields vs h of None \<Rightarrow> None | Some (ds, A) \<Rightarrow> Some (DStruct ds, A))"

text \<open>Elements of a slice; a map is the slice of its entries in one order of iteration.\<close>

definition v_list :: "('a \<Rightarrow> 'c view) \<Rightarrow> 'a list \<Rightarrow> 'c view" where
  "v_list view xs h =
     (case v_fields (map view xs) h of None \<Rightarrow> None | Some (ds, A) \<Rightarrow> Some (DSlice ds, A))"

definition v_entry :: "('a \<Rightarrow> 'c view) \<Rightarrow> string \<times> 'a \<Rightarrow> 'c view" where
  "v_entry view kv h =
     (case view (snd kv) h of None \<Rightarrow> None | Some (d, A) \<Rightarrow> Some (DEntry (fst kv) d, A))"

definition v_ref :: "('c, 'a) kind \<Rightarrow> ('a \<Rightarrow> 'c view) \<Rightarrow> ref \<Rightarrow> 'c view" where
  "v_ref k view p h =
     (case p of
        None \<Rightarrow> Some (DNil, {})
      | Some a \<Rightarrow>
          (case h_cells h a of
             None \<Rightarrow> None
           | Some c \<Rightarrow>
               if k_is k c then
                 (case view (k_get k c) h of None \<Rightarrow> None | Some (d, A) \<Rightarrow> Some (DPtr d, insert a A))
               else None))"

text \<open>A view rests on allocated cells, and depends on no others.\<close>

definition view_ok :: "'c view \<Rightarrow> bool" where
  "view_ok v \<longleftrightarrow> (\<forall>h d A. v h = Some (d, A) \<longrightarrow>
     A \<subseteq> dom (h_cells h) \<and>
     (\<forall>h'. (\<forall>a \<in> A. h_cells h' a = h_cells h a) \<longrightarrow> v h' = Some (d, A)))"

definition grows :: "'c heap \<Rightarrow> 'c heap \<Rightarrow> bool" where
  "grows h h' \<longleftrightarrow> heap_ok h' \<and> h_next h \<le> h_next h' \<and> (\<forall>a < h_next h. h_cells h' a = h_cells h a)"

section \<open>The contract of a deep copy\<close>

locale deep_copier =
  fixes view :: "'a \<Rightarrow> 'c view"
    and f :: "'a \<Rightarrow> ('c heap, 'a) go"
  assumes view: "view_ok (view x)"
    and copy: "heap_ok h \<Longrightarrow> view x h = Some (d, A) \<Longrightarrow>
      \<exists>y h' B. f x h = Returns (y, h') \<and> grows h h' \<and> view y h' = Some (d, B) \<and>
               B \<subseteq> {h_next h..<h_next h'}"

lemma heap_ok_below: "heap_ok h \<Longrightarrow> A \<subseteq> dom (h_cells h) \<Longrightarrow> a \<in> A \<Longrightarrow> a < h_next h"
  unfolding heap_ok_def by blast

lemma view_frame:
  "view_ok v \<Longrightarrow> v h = Some (d, A) \<Longrightarrow> \<forall>a \<in> A. h_cells h' a = h_cells h a \<Longrightarrow> v h' = Some (d, A)"
  unfolding view_ok_def by blast

lemma view_alloc: "view_ok v \<Longrightarrow> v h = Some (d, A) \<Longrightarrow> A \<subseteq> dom (h_cells h)"
  unfolding view_ok_def by blast

lemma view_grows:
  assumes "view_ok v" and "v h = Some (d, A)" and "heap_ok h" and "grows h h'"
  shows "v h' = Some (d, A)"
  using view_frame [OF assms(1,2)] heap_ok_below [OF assms(3) view_alloc [OF assms(1,2)]] assms(4)
  by (simp add: grows_def)

lemma grows_refl: "heap_ok h \<Longrightarrow> grows h h"
  by (simp add: grows_def)

lemma grows_trans: "grows h h' \<Longrightarrow> grows h' h'' \<Longrightarrow> grows h h''"
  by (auto simp: grows_def)

lemma grows_ok: "grows h h' \<Longrightarrow> heap_ok h'"
  by (simp add: grows_def)

text \<open>What a client gets: original and copy share no cell, so that no write to the one is seen
  through the other.\<close>

context deep_copier
begin

lemma copy_separate:
  assumes "heap_ok h" and "view x h = Some (d, A)"
  shows "\<exists>y h' B. f x h = Returns (y, h') \<and> grows h h' \<and> view x h' = Some (d, A) \<and>
    view y h' = Some (d, B) \<and> A \<inter> B = {} \<and>
    (\<forall>h''. (\<forall>a. a \<notin> B \<longrightarrow> h_cells h'' a = h_cells h' a) \<longrightarrow> view x h'' = Some (d, A)) \<and>
    (\<forall>h''. (\<forall>a. a \<notin> A \<longrightarrow> h_cells h'' a = h_cells h' a) \<longrightarrow> view y h'' = Some (d, B))"
proof -
  from copy [OF assms] obtain y h' B where run: "f x h = Returns (y, h')" "grows h h'"
    "view y h' = Some (d, B)" and fresh: "B \<subseteq> {h_next h..<h_next h'}" by blast
  have x: "view x h' = Some (d, A)" using view_grows [OF view assms(2,1) run(2)] .
  have old: "a < h_next h" if "a \<in> A" for a
    using heap_ok_below [OF assms(1) view_alloc [OF view assms(2)] that] .
  with fresh have disj: "A \<inter> B = {}" by fastforce
  have "view x h'' = Some (d, A)" if "\<forall>a. a \<notin> B \<longrightarrow> h_cells h'' a = h_cells h' a" for h''
    by (rule view_frame [OF view x]) (use that disj in blast)
  moreover have "view y h'' = Some (d, B)" if "\<forall>a. a \<notin> A \<longrightarrow> h_cells h'' a = h_cells h' a" for h''
    by (rule view_frame [OF view run(3)]) (use that disj in blast)
  ultimately show ?thesis using run x disj by blast
qed

end

section \<open>Views compose\<close>

named_theorems view_intros

lemma view_okI:
  assumes "\<And>h d A. v h = Some (d, A) \<Longrightarrow> A \<subseteq> dom (h_cells h)"
    and "\<And>h d A h'. v h = Some (d, A) \<Longrightarrow> \<forall>a \<in> A. h_cells h' a = h_cells h a \<Longrightarrow> v h' = Some (d, A)"
  shows "view_ok v"
  using assms unfolding view_ok_def by blast

lemma v_val_ok [view_intros]: "view_ok (v_val d)"
  by (rule view_okI) (auto simp: v_val_def)

lemma v_fields_alloc:
  "list_all view_ok vs \<Longrightarrow> v_fields vs h = Some (ds, A) \<Longrightarrow> A \<subseteq> dom (h_cells h)"
proof (induction vs arbitrary: ds A)
  case (Cons v vs)
  then show ?case
    using view_alloc [of v h] by (auto simp: subset_iff split: option.splits) blast+
qed simp

lemma v_fields_frame:
  "list_all view_ok vs \<Longrightarrow> v_fields vs h = Some (ds, A) \<Longrightarrow> \<forall>a \<in> A. h_cells h' a = h_cells h a \<Longrightarrow>
   v_fields vs h' = Some (ds, A)"
proof (induction vs arbitrary: ds A)
  case (Cons v vs)
  from Cons.prems(2) obtain d A1 ds' A2 where v: "v h = Some (d, A1)" "v_fields vs h = Some (ds', A2)"
    and eq: "ds = d # ds'" "A = A1 \<union> A2"
    by (auto split: option.splits)
  have "v h' = Some (d, A1)" using view_frame [of v h d A1 h'] v(1) Cons.prems(1,3) eq by simp
  moreover have "v_fields vs h' = Some (ds', A2)" using Cons.IH [OF _ v(2)] Cons.prems(1,3) eq by simp
  ultimately show ?case by (simp add: eq)
qed simp

lemma v_struct_ok [view_intros]:
  assumes "list_all view_ok vs"
  shows "view_ok (v_struct vs)"
proof (rule view_okI)
  fix h d A
  assume v: "v_struct vs h = Some (d, A)"
  then obtain ds where ds: "v_fields vs h = Some (ds, A)" "d = DStruct ds"
    by (auto simp: v_struct_def split: option.splits)
  then show "A \<subseteq> dom (h_cells h)" using v_fields_alloc [OF assms] by blast
  show "v_struct vs h' = Some (d, A)" if "\<forall>a \<in> A. h_cells h' a = h_cells h a" for h'
    using v_fields_frame [OF assms ds(1) that] ds(2) by (simp add: v_struct_def)
qed

lemma v_list_ok [view_intros]:
  assumes "\<And>x. view_ok (view x)"
  shows "view_ok (v_list view xs)"
proof (rule view_okI)
  have ok: "list_all view_ok (map view xs)" using assms by (simp add: list_all_iff)
  fix h d A
  assume v: "v_list view xs h = Some (d, A)"
  then obtain ds where ds: "v_fields (map view xs) h = Some (ds, A)" "d = DSlice ds"
    by (auto simp: v_list_def split: option.splits)
  then show "A \<subseteq> dom (h_cells h)" using v_fields_alloc [OF ok] by blast
  show "v_list view xs h' = Some (d, A)" if "\<forall>a \<in> A. h_cells h' a = h_cells h a" for h'
    using v_fields_frame [OF ok ds(1) that] ds(2) by (simp add: v_list_def)
qed

lemma v_entry_ok [view_intros]:
  assumes "\<And>x. view_ok (view x)"
  shows "view_ok (v_entry view kv)"
proof (rule view_okI)
  fix h d A
  assume "v_entry view kv h = Some (d, A)"
  then obtain d' where d: "view (snd kv) h = Some (d', A)" "d = DEntry (fst kv) d'"
    by (auto simp: v_entry_def split: option.splits)
  then show "A \<subseteq> dom (h_cells h)" using view_alloc [OF assms] by blast
  show "v_entry view kv h' = Some (d, A)" if "\<forall>a \<in> A. h_cells h' a = h_cells h a" for h'
    using view_frame [OF assms d(1) that] d(2) by (simp add: v_entry_def)
qed

lemma v_ref_Some:
  "v_ref k view (Some a) h = Some (d, A) \<longleftrightarrow>
     (\<exists>c d' A'. h_cells h a = Some c \<and> k_is k c \<and> view (k_get k c) h = Some (d', A') \<and>
                d = DPtr d' \<and> A = insert a A')"
  by (auto simp: v_ref_def split: option.splits)

lemma v_ref_None: "v_ref k view None h = Some (DNil, {})"
  by (simp add: v_ref_def)

lemma v_ref_ok [view_intros]:
  assumes "\<And>x. view_ok (view x)"
  shows "view_ok (v_ref k view p)"
proof (cases p)
  case None
  then show ?thesis by (intro view_okI) (auto simp: v_ref_None)
next
  case (Some a)
  show ?thesis
  proof (rule view_okI)
    fix h d A
    assume "v_ref k view p h = Some (d, A)"
    then obtain c d' A' where c: "h_cells h a = Some c" "k_is k c" "view (k_get k c) h = Some (d', A')"
      "d = DPtr d'" "A = insert a A'"
      unfolding Some v_ref_Some by blast
    then show "A \<subseteq> dom (h_cells h)" using view_alloc [OF assms c(3)] by auto
    show "v_ref k view p h' = Some (d, A)" if "\<forall>a \<in> A. h_cells h' a = h_cells h a" for h'
    proof -
      have "view (k_get k c) h' = Some (d', A')" by (rule view_frame [OF assms c(3)]) (use that c in simp)
      with c that show ?thesis unfolding Some v_ref_Some by auto
    qed
  qed
qed

section \<open>Copies compose\<close>

text \<open>The copy of a struct in progress: \<open>ws\<close> are the views of the fields that have been copied, to
  cells from \<open>n\<close> on, \<open>vs\<close> those of the fields to come.\<close>

definition copying ::
  "nat \<Rightarrow> 'c view list \<Rightarrow> 'c view list \<Rightarrow> ('c heap, 'a) go \<Rightarrow> ('a \<Rightarrow> 'c view list) \<Rightarrow> bool" where
  "copying n ws vs m flds \<longleftrightarrow> (\<forall>h ds B ds' A.
     heap_ok h \<and> n \<le> h_next h \<and> v_fields ws h = Some (ds, B) \<and> B \<subseteq> {n..<h_next h} \<and>
     v_fields vs h = Some (ds', A) \<longrightarrow>
     (\<exists>y h' C. m h = Returns (y, h') \<and> grows h h' \<and> v_fields (flds y) h' = Some (ds @ ds', C) \<and>
               C \<subseteq> {n..<h_next h'}))"

lemma v_fields_append:
  "v_fields (vs @ ws) h =
     (case v_fields vs h of
        None \<Rightarrow> None
      | Some (ds, A) \<Rightarrow> (case v_fields ws h of None \<Rightarrow> None | Some (es, B) \<Rightarrow> Some (ds @ es, A \<union> B)))"
  by (induction vs) (auto split: option.splits)

lemma copying_ret: "flds y = ws \<Longrightarrow> copying n ws [] (go_ret y) flds"
  unfolding copying_def go_ret_def by (auto intro: grows_refl)

lemma copying_val:
  assumes "copying n (ws @ [v_val d]) vs m flds"
  shows "copying n ws (v_val d # vs) m flds"
  unfolding copying_def
proof (intro allI impI, elim conjE)
  fix h ds B ds' A
  assume h: "heap_ok h" "n \<le> h_next h" "v_fields ws h = Some (ds, B)" "B \<subseteq> {n..<h_next h}"
    "v_fields (v_val d # vs) h = Some (ds', A)"
  then obtain es where es: "ds' = d # es" "v_fields vs h = Some (es, A)"
    by (auto simp: v_val_def split: option.splits)
  have "v_fields (ws @ [v_val d]) h = Some (ds @ [d], B)" using h(3) by (simp add: v_fields_append v_val_def)
  with assms h(1,2,4) es(2) obtain y h' C where "m h = Returns (y, h')" "grows h h'"
    "v_fields (flds y) h' = Some ((ds @ [d]) @ es, C)" "C \<subseteq> {n..<h_next h'}"
    unfolding copying_def by blast
  with es(1) show "\<exists>y h' C. m h = Returns (y, h') \<and> grows h h' \<and>
      v_fields (flds y) h' = Some (ds @ ds', C) \<and> C \<subseteq> {n..<h_next h'}" by auto
qed

lemma v_fields_grows:
  assumes "list_all view_ok vs" and "v_fields vs h = Some (ds, A)" and "heap_ok h" and "grows h h'"
  shows "v_fields vs h' = Some (ds, A)"
  using v_fields_frame [OF assms(1,2)] heap_ok_below [OF assms(3) v_fields_alloc [OF assms(1,2)]] assms(4)
  by (simp add: grows_def)

lemma copying_field:
  assumes "deep_copier view f" and "list_all view_ok ws" and "list_all view_ok vs"
    and "\<And>y. copying n (ws @ [view y]) vs (next y) flds"
  shows "copying n ws (view x # vs) (go_bind (f x) next) flds"
  unfolding copying_def
proof (intro allI impI, elim conjE)
  fix h ds B ds' A
  assume h: "heap_ok h" "n \<le> h_next h" "v_fields ws h = Some (ds, B)" "B \<subseteq> {n..<h_next h}"
    "v_fields (view x # vs) h = Some (ds', A)"
  then obtain d A1 es A2 where x: "view x h = Some (d, A1)" "v_fields vs h = Some (es, A2)" "ds' = d # es"
    by (auto split: option.splits)
  from deep_copier.copy [OF assms(1) h(1) x(1)] obtain z h1 B1 where
    z: "f x h = Returns (z, h1)" "grows h h1" "view z h1 = Some (d, B1)" "B1 \<subseteq> {h_next h..<h_next h1}"
    by blast
  have "v_fields (ws @ [view z]) h1 = Some (ds @ [d], B \<union> B1)"
    using v_fields_grows [OF assms(2) h(3,1) z(2)] z(3) by (simp add: v_fields_append)
  moreover have "v_fields vs h1 = Some (es, A2)" by (rule v_fields_grows [OF assms(3) x(2) h(1) z(2)])
  moreover have "B \<union> B1 \<subseteq> {n..<h_next h1}" "n \<le> h_next h1" "heap_ok h1"
    using h(2,4) z(2,4) by (auto simp: grows_def)
  ultimately obtain y h' C where "next z h1 = Returns (y, h')" "grows h1 h'"
    "v_fields (flds y) h' = Some ((ds @ [d]) @ es, C)" "C \<subseteq> {n..<h_next h'}"
    using assms(4) [of z] unfolding copying_def by blast
  with z(1,2) x(3) show "\<exists>y h' C. go_bind (f x) next h = Returns (y, h') \<and> grows h h' \<and>
      v_fields (flds y) h' = Some (ds @ ds', C) \<and> C \<subseteq> {n..<h_next h'}"
    by (auto simp: go_bind_def intro: grows_trans)
qed

text \<open>A struct is copied deeply if its fields are.\<close>

lemma copying_run:
  assumes "\<And>n. copying n [] (flds x) (f x) flds" and "heap_ok h" and "v_fields (flds x) h = Some (ds, A)"
  shows "\<exists>y h' B. f x h = Returns (y, h') \<and> grows h h' \<and> v_fields (flds y) h' = Some (ds, B) \<and>
               B \<subseteq> {h_next h..<h_next h'}"
  using assms(1) [of "h_next h", unfolded copying_def, rule_format, of h "[]" "{}" ds A] assms(2,3) by simp

lemma deep_copier_struct:
  assumes "\<And>x. view x = v_struct (flds x)" and "\<And>x. list_all view_ok (flds x)"
    and "\<And>n x. copying n [] (flds x) (f x) flds"
  shows "deep_copier view f"
proof (unfold_locales)
  show "view_ok (view x)" for x using v_struct_ok [OF assms(2)] by (simp add: assms(1))
  fix h x d A
  assume h: "heap_ok h" and "view x h = Some (d, A)"
  then obtain ds where ds: "v_fields (flds x) h = Some (ds, A)" "d = DStruct ds"
    by (auto simp: assms(1) v_struct_def split: option.splits)
  from copying_run [of flds x f h ds A, OF assms(3) h ds(1)] ds(2)
  show "\<exists>y h' B. f x h = Returns (y, h') \<and> grows h h' \<and> view y h' = Some (d, B) \<and>
      B \<subseteq> {h_next h..<h_next h'}"
    by (auto simp: assms(1) v_struct_def)
qed

text \<open>Values without references are copied by assignment.\<close>

lemma deep_copier_val: "deep_copier (\<lambda>x. v_val (g x)) go_ret"
  by unfold_locales (auto simp: v_val_ok v_val_def go_ret_def intro: grows_refl)

lemma copying_list:
  assumes "deep_copier view f"
  shows "heap_ok h \<Longrightarrow> v_fields (map view xs) h = Some (ds, A) \<Longrightarrow>
    \<exists>ys h' B. c_list f xs h = Returns (ys, h') \<and> grows h h' \<and> v_fields (map view ys) h' = Some (ds, B) \<and>
             B \<subseteq> {h_next h..<h_next h'}"
proof (induction xs arbitrary: h ds A)
  case Nil
  then show ?case by (auto simp: go_ret_def intro: grows_refl)
next
  case (Cons x xs)
  have ok: "view_ok (view y)" for y using deep_copier.view [OF assms] .
  from Cons.prems(2) obtain d A1 es A2 where x: "view x h = Some (d, A1)"
    "v_fields (map view xs) h = Some (es, A2)" "ds = d # es"
    by (auto split: option.splits)
  from deep_copier.copy [OF assms Cons.prems(1) x(1)] obtain y h1 B1 where
    y: "f x h = Returns (y, h1)" "grows h h1" "view y h1 = Some (d, B1)" "B1 \<subseteq> {h_next h..<h_next h1}"
    by blast
  have all: "list_all view_ok (map view xs)" using ok by (simp add: list_all_iff)
  from Cons.IH [OF grows_ok [OF y(2)] v_fields_grows [OF all x(2) Cons.prems(1) y(2)]]
  obtain ys h2 B2 where ys: "c_list f xs h1 = Returns (ys, h2)" "grows h1 h2"
    "v_fields (map view ys) h2 = Some (es, B2)" "B2 \<subseteq> {h_next h1..<h_next h2}" by blast
  have "view y h2 = Some (d, B1)" by (rule view_grows [OF ok y(3) grows_ok [OF y(2)] ys(2)])
  then have "v_fields (map view (y # ys)) h2 = Some (ds, B1 \<union> B2)" using ys(3) x(3) by simp
  moreover have "B1 \<union> B2 \<subseteq> {h_next h..<h_next h2}" using y(2,4) ys(2,4) by (auto simp: grows_def)
  moreover have "c_list f (x # xs) h = Returns (y # ys, h2)"
    using y(1) ys(1) by (simp add: go_bind_def go_ret_def)
  ultimately show ?case using grows_trans [OF y(2) ys(2)] by blast
qed

lemma deep_copier_list:
  assumes "deep_copier view f"
  shows "deep_copier (v_list view) (c_list f)"
proof (unfold_locales)
  show "view_ok (v_list view xs)" for xs by (intro v_list_ok deep_copier.view [OF assms])
  fix h xs d A
  assume h: "heap_ok h" and "v_list view xs h = Some (d, A)"
  then obtain ds where ds: "v_fields (map view xs) h = Some (ds, A)" "d = DSlice ds"
    by (auto simp: v_list_def split: option.splits)
  from copying_list [OF assms h ds(1)] ds(2)
  show "\<exists>ys h' B. c_list f xs h = Returns (ys, h') \<and> grows h h' \<and> v_list view ys h' = Some (d, B) \<and>
      B \<subseteq> {h_next h..<h_next h'}"
    by (auto simp: v_list_def)
qed

lemma deep_copier_entry:
  assumes "deep_copier view f"
  shows "deep_copier (v_entry view) (c_entry f)"
proof (unfold_locales)
  show "view_ok (v_entry view kv)" for kv by (intro v_entry_ok deep_copier.view [OF assms])
  fix h kv d A
  assume h: "heap_ok h" and "v_entry view kv h = Some (d, A)"
  then obtain d' where d: "view (snd kv) h = Some (d', A)" "d = DEntry (fst kv) d'"
    by (auto simp: v_entry_def split: option.splits)
  from deep_copier.copy [OF assms h d(1)] d(2)
  show "\<exists>y h' B. c_entry f kv h = Returns (y, h') \<and> grows h h' \<and> v_entry view y h' = Some (d, B) \<and>
      B \<subseteq> {h_next h..<h_next h'}"
    by (auto simp: v_entry_def c_entry_def go_bind_def go_ret_def)
qed

lemma grows_alloc:
  assumes "grows h h'"
  shows "grows h (h'\<lparr>h_cells := (h_cells h')(h_next h' \<mapsto> c), h_next := Suc (h_next h')\<rparr>)"
  using assms by (auto simp: grows_def heap_ok_def less_Suc_eq)

lemma deep_copier_ref:
  assumes k: "kind_ok k" and copier: "deep_copier view f"
  shows "deep_copier (v_ref k view) (c_ref k f)"
proof (unfold_locales)
  have ok: "view_ok (view y)" for y using deep_copier.view [OF copier] .
  show "view_ok (v_ref k view p)" for p by (intro v_ref_ok ok)
  fix h p d A
  assume h: "heap_ok h" and v: "v_ref k view p h = Some (d, A)"
  show "\<exists>y h' B. c_ref k f p h = Returns (y, h') \<and> grows h h' \<and> v_ref k view y h' = Some (d, B) \<and>
      B \<subseteq> {h_next h..<h_next h'}"
  proof (cases p)
    case None
    with v h show ?thesis by (auto simp: v_ref_None c_ref_def go_ret_def intro: grows_refl)
  next
    case (Some a)
    with v obtain c d' A' where c: "h_cells h a = Some c" "k_is k c" "view (k_get k c) h = Some (d', A')"
      "d = DPtr d'" unfolding Some v_ref_Some by blast
    from deep_copier.copy [OF copier h c(3)] obtain y h1 B where
      y: "f (k_get k c) h = Returns (y, h1)" "grows h h1" "view y h1 = Some (d', B)"
        "B \<subseteq> {h_next h..<h_next h1}" by blast
    let ?h2 = "h1\<lparr>h_cells := (h_cells h1)(h_next h1 \<mapsto> k_make k y), h_next := Suc (h_next h1)\<rparr>"
    have "view y ?h2 = Some (d', B)" by (rule view_frame [OF ok y(3)]) (use y(4) in auto)
    then have "v_ref k view (Some (h_next h1)) ?h2 = Some (d, insert (h_next h1) B)"
      using k c(4) by (simp add: v_ref_Some kind_ok_def)
    moreover have "c_ref k f p h = Returns (Some (h_next h1), ?h2)"
      using Some c(1,2) y(1) by (simp add: c_ref_def load_def alloc_def go_bind_def go_ret_def)
    moreover have "insert (h_next h1) B \<subseteq> {h_next h..<h_next ?h2}"
      using y(2,4) by (auto simp: grows_def)
    ultimately show ?thesis using grows_alloc [OF y(2)] by blast
  qed
qed

end
