(* ===== verification/AP_DeepCopy.thy ===== *)
theory AP_DeepCopy
  imports AP_Heap
begin

text \<open>
  The generated deep copies of the policy types
  (\<^verbatim>\<open>pkg/apis/policy/v1alpha1/zz_generated.deepcopy.go\<close>). The informer caches hand out pointers to
  shared objects, and the clients copy them with these functions; a field that is copied by
  assignment only would let two goroutines write to the same memory. Structs are records here whose
  pointers, slices and maps are references into the heap. \<^verbatim>\<open>DeepCopyInto\<close> is a function of the
  struct \<^verbatim>\<open>*in\<close> to the struct that is stored in \<^verbatim>\<open>*out\<close>. The copies of \<^verbatim>\<open>ObjectMeta\<close>, \<^verbatim>\<open>ListMeta\<close> and
  \<^verbatim>\<open>Time\<close> belong to apimachinery and are parameters.
\<close>

section \<open>Structs with references\<close>

record h_ValidationRule =
  hr_Rule :: string
  hr_Message :: ref

record h_AllowedString =
  hs_Value :: ref
  hs_Required :: ref
  hs_Validations :: ref

record h_AllowedStringSlice =
  hss_Values :: ref
  hss_Required :: ref
  hss_Validations :: ref

record h_AllowedX509Subject =
  hx_Organizations :: ref
  hx_Countries :: ref
  hx_OrganizationalUnits :: ref
  hx_Localities :: ref
  hx_Provinces :: ref
  hx_StreetAddresses :: ref
  hx_PostalCodes :: ref
  hx_SerialNumber :: ref

record h_Allowed =
  ha_CommonName :: ref
  ha_DNSNames :: ref
  ha_IPAddresses :: ref
  ha_URIs :: ref
  ha_EmailAddresses :: ref
  ha_IsCA :: ref
  ha_Usages :: ref
  ha_Subject :: ref

record h_PrivateKey =
  hk_Algorithm :: ref
  hk_MinSize :: ref
  hk_MaxSize :: ref

record h_Constraints =
  hc_MinDuration :: ref
  hc_MaxDuration :: ref
  hc_PrivateKey :: ref

record h_PluginData =
  hp_Values :: ref

record h_IssuerRef =
  hi_Name :: ref
  hi_Kind :: ref
  hi_Group :: ref

record h_Namespace =
  hn_MatchNames :: ref
  hn_MatchLabels :: ref

record h_Selector =
  hl_IssuerRef :: ref
  hl_Namespace :: ref

record h_Spec =
  hsp_Allowed :: ref
  hsp_Constraints :: ref
  hsp_Plugins :: ref
  hsp_Selector :: h_Selector

record h_Condition =
  hcd_Type :: string
  hcd_Status :: string
  hcd_LastTransitionTime :: ref
  hcd_Reason :: string
  hcd_Message :: string
  hcd_ObservedGeneration :: int

record h_Status =
  hst_Conditions :: ref

record TypeMeta =
  tm_Kind :: string
  tm_APIVersion :: string

record 'o h_Policy =
  hpo_TypeMeta :: TypeMeta
  hpo_ObjectMeta :: 'o
  hpo_Spec :: h_Spec
  hpo_Status :: h_Status

record 'l h_PolicyList =
  hpl_TypeMeta :: TypeMeta
  hpl_ListMeta :: 'l
  hpl_Items :: ref

text \<open>What a cell may hold: the targets of pointers, the arrays behind slices, maps, and cells of
  other packages. \<open>CSlice\<close> is a variable that holds a slice.\<close>

datatype ('o, 'l, 'x) cell =
    CString (un_CString: string) | CBool (un_CBool: bool) | CInt (un_CInt: int)
  | CDuration (un_CDuration: int) | CStrings (un_CStrings: "string list") | CSlice (un_CSlice: ref)
  | CRule (un_CRule: h_ValidationRule)
  | CRules (un_CRules: "h_ValidationRule list") | CAllowedString (un_CAllowedString: h_AllowedString)
  | CAllowedStringSlice (un_CAllowedStringSlice: h_AllowedStringSlice)
  | CSubject (un_CSubject: h_AllowedX509Subject) | CAllowed (un_CAllowed: h_Allowed)
  | CPrivateKey (un_CPrivateKey: h_PrivateKey) | CConstraints (un_CConstraints: h_Constraints)
  | CLabels (un_CLabels: "(string \<times> string) list") | CPluginData (un_CPluginData: h_PluginData)
  | CPlugins (un_CPlugins: "(string \<times> h_PluginData) list") | CIssuerRef (un_CIssuerRef: h_IssuerRef)
  | CNamespace (un_CNamespace: h_Namespace) | CSelector (un_CSelector: h_Selector)
  | CSpec (un_CSpec: h_Spec) | CCondition (un_CCondition: h_Condition)
  | CConditions (un_CConditions: "h_Condition list") | CStatus (un_CStatus: h_Status)
  | CPolicy (un_CPolicy: "'o h_Policy") | CPolicies (un_CPolicies: "'o h_Policy list")
  | CPolicyList (un_CPolicyList: "'l h_PolicyList") | CForeign (un_CForeign: 'x)

text \<open>How the types are stored.\<close>

abbreviation kString :: "(('o, 'l, 'x) cell, string) kind" where
  "kString \<equiv> \<lparr>k_make = CString, k_is = is_CString, k_get = un_CString\<rparr>"

abbreviation kBool :: "(('o, 'l, 'x) cell, bool) kind" where
  "kBool \<equiv> \<lparr>k_make = CBool, k_is = is_CBool, k_get = un_CBool\<rparr>"

abbreviation kInt :: "(('o, 'l, 'x) cell, int) kind" where
  "kInt \<equiv> \<lparr>k_make = CInt, k_is = is_CInt, k_get = un_CInt\<rparr>"

abbreviation kDuration :: "(('o, 'l, 'x) cell, int) kind" where
  "kDuration \<equiv> \<lparr>k_make = CDuration, k_is = is_CDuration, k_get = un_CDuration\<rparr>"

abbreviation kStrings :: "(('o, 'l, 'x) cell, string list) kind" where
  "kStrings \<equiv> \<lparr>k_make = CStrings, k_is = is_CStrings, k_get = un_CStrings\<rparr>"

abbreviation kSlice :: "(('o, 'l, 'x) cell, ref) kind" where
  "kSlice \<equiv> \<lparr>k_make = CSlice, k_is = is_CSlice, k_get = un_CSlice\<rparr>"

abbreviation kRule :: "(('o, 'l, 'x) cell, h_ValidationRule) kind" where
  "kRule \<equiv> \<lparr>k_make = CRule, k_is = is_CRule, k_get = un_CRule\<rparr>"

abbreviation kRules :: "(('o, 'l, 'x) cell, h_ValidationRule list) kind" where
  "kRules \<equiv> \<lparr>k_make = CRules, k_is = is_CRules, k_get = un_CRules\<rparr>"

abbreviation kAllowedString :: "(('o, 'l, 'x) cell, h_AllowedString) kind" where
  "kAllowedString \<equiv> \<lparr>k_make = CAllowedString, k_is = is_CAllowedString, k_get = un_CAllowedString\<rparr>"

abbreviation kAllowedStringSlice :: "(('o, 'l, 'x) cell, h_AllowedStringSlice) kind" where
  "kAllowedStringSlice \<equiv> \<lparr>k_make = CAllowedStringSlice, k_is = is_CAllowedStringSlice, k_get = un_CAllowedStringSlice\<rparr>"

abbreviation kSubject :: "(('o, 'l, 'x) cell, h_AllowedX509Subject) kind" where
  "kSubject \<equiv> \<lparr>k_make = CSubject, k_is = is_CSubject, k_get = un_CSubject\<rparr>"

abbreviation kAllowed :: "(('o, 'l, 'x) cell, h_Allowed) kind" where
  "kAllowed \<equiv> \<lparr>k_make = CAllowed, k_is = is_CAllowed, k_get = un_CAllowed\<rparr>"

abbreviation kPrivateKey :: "(('o, 'l, 'x) cell, h_PrivateKey) kind" where
  "kPrivateKey \<equiv> \<lparr>k_make = CPrivateKey, k_is = is_CPrivateKey, k_get = un_CPrivateKey\<rparr>"

abbreviation kConstraints :: "(('o, 'l, 'x) cell, h_Constraints) kind" where
  "kConstraints \<equiv> \<lparr>k_make = CConstraints, k_is = is_CConstraints, k_get = un_CConstraints\<rparr>"

abbreviation kLabels :: "(('o, 'l, 'x) cell, (string \<times> string) list) kind" where
  "kLabels \<equiv> \<lparr>k_make = CLabels, k_is = is_CLabels, k_get = un_CLabels\<rparr>"

abbreviation kPluginData :: "(('o, 'l, 'x) cell, h_PluginData) kind" where
  "kPluginData \<equiv> \<lparr>k_make = CPluginData, k_is = is_CPluginData, k_get = un_CPluginData\<rparr>"

abbreviation kPlugins :: "(('o, 'l, 'x) cell, (string \<times> h_PluginData) list) kind" where
  "kPlugins \<equiv> \<lparr>k_make = CPlugins, k_is = is_CPlugins, k_get = un_CPlugins\<rparr>"

abbreviation kIssuerRef :: "(('o, 'l, 'x) cell, h_IssuerRef) kind" where
  "kIssuerRef \<equiv> \<lparr>k_make = CIssuerRef, k_is = is_CIssuerRef, k_get = un_CIssuerRef\<rparr>"

abbreviation kNamespace :: "(('o, 'l, 'x) cell, h_Namespace) kind" where
  "kNamespace \<equiv> \<lparr>k_make = CNamespace, k_is = is_CNamespace, k_get = un_CNamespace\<rparr>"

abbreviation kSelector :: "(('o, 'l, 'x) cell, h_Selector) kind" where
  "kSelector \<equiv> \<lparr>k_make = CSelector, k_is = is_CSelector, k_get = un_CSelector\<rparr>"

abbreviation kSpec :: "(('o, 'l, 'x) cell, h_Spec) kind" where
  "kSpec \<equiv> \<lparr>k_make = CSpec, k_is = is_CSpec, k_get = un_CSpec\<rparr>"

abbreviation kCondition :: "(('o, 'l, 'x) cell, h_Condition) kind" where
  "kCondition \<equiv> \<lparr>k_make = CCondition, k_is = is_CCondition, k_get = un_CCondition\<rparr>"

abbreviation kConditions :: "(('o, 'l, 'x) cell, h_Condition list) kind" where
  "kConditions \<equiv> \<lparr>k_make = CConditions, k_is = is_CConditions, k_get = un_CConditions\<rparr>"

abbreviation kStatus :: "(('o, 'l, 'x) cell, h_Status) kind" where
  "kStatus \<equiv> \<lparr>k_make = CStatus, k_is = is_CStatus, k_get = un_CStatus\<rparr>"

abbreviation kPolicy :: "(('o, 'l, 'x) cell, 'o h_Policy) kind" where
  "kPolicy \<equiv> \<lparr>k_make = CPolicy, k_is = is_CPolicy, k_get = un_CPolicy\<rparr>"

abbreviation kPolicies :: "(('o, 'l, 'x) cell, 'o h_Policy list) kind" where
  "kPolicies \<equiv> \<lparr>k_make = CPolicies, k_is = is_CPolicies, k_get = un_CPolicies\<rparr>"

abbreviation kPolicyList :: "(('o, 'l, 'x) cell, 'l h_PolicyList) kind" where
  "kPolicyList \<equiv> \<lparr>k_make = CPolicyList, k_is = is_CPolicyList, k_get = un_CPolicyList\<rparr>"

type_synonym ('o, 'l, 'x) gheap = "('o, 'l, 'x) cell heap"

type_synonym ('o, 'l, 'x, 'a) copier = "'a \<Rightarrow> (('o, 'l, 'x) gheap, 'a) go"

text \<open>The deep copies of apimachinery, with the views they preserve.\<close>

record ('o, 'l, 'x) foreign =
  x_ObjectMeta_view :: "'o \<Rightarrow> ('o, 'l, 'x) cell view"
  x_ObjectMeta_DeepCopyInto :: "('o, 'l, 'x, 'o) copier"
  x_ListMeta_view :: "'l \<Rightarrow> ('o, 'l, 'x) cell view"
  x_ListMeta_DeepCopyInto :: "('o, 'l, 'x, 'l) copier"
  x_Time_view :: "ref \<Rightarrow> ('o, 'l, 'x) cell view"
  x_Time_DeepCopy :: "('o, 'l, 'x, ref) copier"

section \<open>The generated functions\<close>

text \<open>Copies of the fields that occur in several structs. In the map of plugins a value is copied
  through a temporary struct, which is garbage right away and left out here.\<close>

abbreviation c_string :: "('o, 'l, 'x, ref) copier" where
  "c_string \<equiv> c_ref kString go_ret"

abbreviation c_bool :: "('o, 'l, 'x, ref) copier" where
  "c_bool \<equiv> c_ref kBool go_ret"

abbreviation c_int :: "('o, 'l, 'x, ref) copier" where
  "c_int \<equiv> c_ref kInt go_ret"

abbreviation c_duration :: "('o, 'l, 'x, ref) copier" where
  "c_duration \<equiv> c_ref kDuration go_ret"

abbreviation c_strings :: "('o, 'l, 'x, ref) copier" where
  "c_strings \<equiv> c_ref kStrings go_ret"

abbreviation c_sliceptr :: "('o, 'l, 'x, ref) copier" where
  "c_sliceptr \<equiv> c_ref kSlice c_strings"

abbreviation c_labels :: "('o, 'l, 'x, ref) copier" where
  "c_labels \<equiv> c_ref kLabels (c_list (c_entry go_ret))"

definition ValidationRule_DeepCopyInto :: "('o, 'l, 'x, h_ValidationRule) copier" where
  "ValidationRule_DeepCopyInto r =
     go_bind (c_string (hr_Message r)) (\<lambda>f1.
     go_ret (r\<lparr>hr_Message := f1\<rparr>))"

definition AllowedString_DeepCopyInto :: "('o, 'l, 'x, h_AllowedString) copier" where
  "AllowedString_DeepCopyInto s =
     go_bind (c_string (hs_Value s)) (\<lambda>f1.
     go_bind (c_bool (hs_Required s)) (\<lambda>f2.
     go_bind (c_ref kRules (c_list ValidationRule_DeepCopyInto) (hs_Validations s)) (\<lambda>f3.
     go_ret (s\<lparr>hs_Value := f1, hs_Required := f2, hs_Validations := f3\<rparr>))))"

definition AllowedStringSlice_DeepCopyInto :: "('o, 'l, 'x, h_AllowedStringSlice) copier" where
  "AllowedStringSlice_DeepCopyInto s =
     go_bind (c_sliceptr (hss_Values s)) (\<lambda>f1.
     go_bind (c_bool (hss_Required s)) (\<lambda>f2.
     go_bind (c_ref kRules (c_list ValidationRule_DeepCopyInto) (hss_Validations s)) (\<lambda>f3.
     go_ret (s\<lparr>hss_Values := f1, hss_Required := f2, hss_Validations := f3\<rparr>))))"

definition AllowedX509Subject_DeepCopyInto :: "('o, 'l, 'x, h_AllowedX509Subject) copier" where
  "AllowedX509Subject_DeepCopyInto s =
     go_bind (c_ref kAllowedStringSlice AllowedStringSlice_DeepCopyInto (hx_Organizations s)) (\<lambda>f1.
     go_bind (c_ref kAllowedStringSlice AllowedStringSlice_DeepCopyInto (hx_Countries s)) (\<lambda>f2.
     go_bind (c_ref kAllowedStringSlice AllowedStringSlice_DeepCopyInto (hx_OrganizationalUnits s)) (\<lambda>f3.
     go_bind (c_ref kAllowedStringSlice AllowedStringSlice_DeepCopyInto (hx_Localities s)) (\<lambda>f4.
     go_bind (c_ref kAllowedStringSlice AllowedStringSlice_DeepCopyInto (hx_Provinces s)) (\<lambda>f5.
     go_bind (c_ref kAllowedStringSlice AllowedStringSlice_DeepCopyInto (hx_StreetAddresses s)) (\<lambda>f6.
     go_bind (c_ref kAllowedStringSlice AllowedStringSlice_DeepCopyInto (hx_PostalCodes s)) (\<lambda>f7.
     go_bind (c_ref kAllowedString AllowedString_DeepCopyInto (hx_SerialNumber s)) (\<lambda>f8.
     go_ret (s\<lparr>hx_Organizations := f1, hx_Countries := f2, hx_OrganizationalUnits := f3, hx_Localities := f4,
       hx_Provinces := f5, hx_StreetAddresses := f6, hx_PostalCodes := f7, hx_SerialNumber := f8\<rparr>)))))))))"

definition Allowed_DeepCopyInto :: "('o, 'l, 'x, h_Allowed) copier" where
  "Allowed_DeepCopyInto a =
     go_bind (c_ref kAllowedString AllowedString_DeepCopyInto (ha_CommonName a)) (\<lambda>f1.
     go_bind (c_ref kAllowedStringSlice AllowedStringSlice_DeepCopyInto (ha_DNSNames a)) (\<lambda>f2.
     go_bind (c_ref kAllowedStringSlice AllowedStringSlice_DeepCopyInto (ha_IPAddresses a)) (\<lambda>f3.
     go_bind (c_ref kAllowedStringSlice AllowedStringSlice_DeepCopyInto (ha_URIs a)) (\<lambda>f4.
     go_bind (c_ref kAllowedStringSlice AllowedStringSlice_DeepCopyInto (ha_EmailAddresses a)) (\<lambda>f5.
     go_bind (c_bool (ha_IsCA a)) (\<lambda>f6.
     go_bind (c_sliceptr (ha_Usages a)) (\<lambda>f7.
     go_bind (c_ref kSubject AllowedX509Subject_DeepCopyInto (ha_Subject a)) (\<lambda>f8.
     go_ret (a\<lparr>ha_CommonName := f1, ha_DNSNames := f2, ha_IPAddresses := f3, ha_URIs := f4,
       ha_EmailAddresses := f5, ha_IsCA := f6, ha_Usages := f7, ha_Subject := f8\<rparr>)))))))))"

definition ConstraintsPrivateKey_DeepCopyInto :: "('o, 'l, 'x, h_PrivateKey) copier" where
  "ConstraintsPrivateKey_DeepCopyInto k =
     go_bind (c_string (hk_Algorithm k)) (\<lambda>f1.
     go_bind (c_int (hk_MinSize k)) (\<lambda>f2.
     go_bind (c_int (hk_MaxSize k)) (\<lambda>f3.
     go_ret (k\<lparr>hk_Algorithm := f1, hk_MinSize := f2, hk_MaxSize := f3\<rparr>))))"

definition Constraints_DeepCopyInto :: "('o, 'l, 'x, h_Constraints) copier" where
  "Constraints_DeepCopyInto c =
     go_bind (c_duration (hc_MinDuration c)) (\<lambda>f1.
     go_bind (c_duration (hc_MaxDuration c)) (\<lambda>f2.
     go_bind (c_ref kPrivateKey ConstraintsPrivateKey_DeepCopyInto (hc_PrivateKey c)) (\<lambda>f3.
     go_ret (c\<lparr>hc_MinDuration := f1, hc_MaxDuration := f2, hc_PrivateKey := f3\<rparr>))))"

definition PluginData_DeepCopyInto :: "('o, 'l, 'x, h_PluginData) copier" where
  "PluginData_DeepCopyInto p =
     go_bind (c_labels (hp_Values p)) (\<lambda>f1.
     go_ret (p\<lparr>hp_Values := f1\<rparr>))"

definition SelectorIssuerRef_DeepCopyInto :: "('o, 'l, 'x, h_IssuerRef) copier" where
  "SelectorIssuerRef_DeepCopyInto i =
     go_bind (c_string (hi_Name i)) (\<lambda>f1.
     go_bind (c_string (hi_Kind i)) (\<lambda>f2.
     go_bind (c_string (hi_Group i)) (\<lambda>f3.
     go_ret (i\<lparr>hi_Name := f1, hi_Kind := f2, hi_Group := f3\<rparr>))))"

definition SelectorNamespace_DeepCopyInto :: "('o, 'l, 'x, h_Namespace) copier" where
  "SelectorNamespace_DeepCopyInto n =
     go_bind (c_strings (hn_MatchNames n)) (\<lambda>f1.
     go_bind (c_labels (hn_MatchLabels n)) (\<lambda>f2.
     go_ret (n\<lparr>hn_MatchNames := f1, hn_MatchLabels := f2\<rparr>)))"

definition Selector_DeepCopyInto :: "('o, 'l, 'x, h_Selector) copier" where
  "Selector_DeepCopyInto s =
     go_bind (c_ref kIssuerRef SelectorIssuerRef_DeepCopyInto (hl_IssuerRef s)) (\<lambda>f1.
     go_bind (c_ref kNamespace SelectorNamespace_DeepCopyInto (hl_Namespace s)) (\<lambda>f2.
     go_ret (s\<lparr>hl_IssuerRef := f1, hl_Namespace := f2\<rparr>)))"

definition Spec_DeepCopyInto :: "('o, 'l, 'x, h_Spec) copier" where
  "Spec_DeepCopyInto s =
     go_bind (c_ref kAllowed Allowed_DeepCopyInto (hsp_Allowed s)) (\<lambda>f1.
     go_bind (c_ref kConstraints Constraints_DeepCopyInto (hsp_Constraints s)) (\<lambda>f2.
     go_bind (c_ref kPlugins (c_list (c_entry PluginData_DeepCopyInto)) (hsp_Plugins s)) (\<lambda>f3.
     go_bind (Selector_DeepCopyInto (hsp_Selector s)) (\<lambda>f4.
     go_ret (s\<lparr>hsp_Allowed := f1, hsp_Constraints := f2, hsp_Plugins := f3, hsp_Selector := f4\<rparr>)))))"

definition Condition_DeepCopyInto :: "('o, 'l, 'x) foreign \<Rightarrow> ('o, 'l, 'x, h_Condition) copier" where
  "Condition_DeepCopyInto X c =
     go_bind (x_Time_DeepCopy X (hcd_LastTransitionTime c)) (\<lambda>f1.
     go_ret (c\<lparr>hcd_LastTransitionTime := f1\<rparr>))"

definition Status_DeepCopyInto :: "('o, 'l, 'x) foreign \<Rightarrow> ('o, 'l, 'x, h_Status) copier" where
  "Status_DeepCopyInto X s =
     go_bind (c_ref kConditions (c_list (Condition_DeepCopyInto X)) (hst_Conditions s)) (\<lambda>f1.
     go_ret (s\<lparr>hst_Conditions := f1\<rparr>))"

definition CertificateRequestPolicy_DeepCopyInto :: "('o, 'l, 'x) foreign \<Rightarrow> ('o, 'l, 'x, 'o h_Policy) copier" where
  "CertificateRequestPolicy_DeepCopyInto X p =
     go_bind (x_ObjectMeta_DeepCopyInto X (hpo_ObjectMeta p)) (\<lambda>f1.
     go_bind (Spec_DeepCopyInto (hpo_Spec p)) (\<lambda>f2.
     go_bind (Status_DeepCopyInto X (hpo_Status p)) (\<lambda>f3.
     go_ret (p\<lparr>hpo_ObjectMeta := f1, hpo_Spec := f2, hpo_Status := f3\<rparr>))))"

definition CertificateRequestPolicyList_DeepCopyInto :: "('o, 'l, 'x) foreign \<Rightarrow> ('o, 'l, 'x, 'l h_PolicyList) copier" where
  "CertificateRequestPolicyList_DeepCopyInto X p =
     go_bind (x_ListMeta_DeepCopyInto X (hpl_ListMeta p)) (\<lambda>f1.
     go_bind (c_ref kPolicies (c_list (CertificateRequestPolicy_DeepCopyInto X)) (hpl_Items p)) (\<lambda>f2.
     go_ret (p\<lparr>hpl_ListMeta := f1, hpl_Items := f2\<rparr>)))"

text \<open>\<^verbatim>\<open>DeepCopy\<close>: nil for nil, otherwise a new struct that is copied into.\<close>

definition ValidationRule_DeepCopy :: "('o, 'l, 'x, ref) copier" where
  "ValidationRule_DeepCopy = c_ref kRule ValidationRule_DeepCopyInto"

definition AllowedString_DeepCopy :: "('o, 'l, 'x, ref) copier" where
  "AllowedString_DeepCopy = c_ref kAllowedString AllowedString_DeepCopyInto"

definition AllowedStringSlice_DeepCopy :: "('o, 'l, 'x, ref) copier" where
  "AllowedStringSlice_DeepCopy = c_ref kAllowedStringSlice AllowedStringSlice_DeepCopyInto"

definition AllowedX509Subject_DeepCopy :: "('o, 'l, 'x, ref) copier" where
  "AllowedX509Subject_DeepCopy = c_ref kSubject AllowedX509Subject_DeepCopyInto"

definition Allowed_DeepCopy :: "('o, 'l, 'x, ref) copier" where
  "Allowed_DeepCopy = c_ref kAllowed Allowed_DeepCopyInto"

definition ConstraintsPrivateKey_DeepCopy :: "('o, 'l, 'x, ref) copier" where
  "ConstraintsPrivateKey_DeepCopy = c_ref kPrivateKey ConstraintsPrivateKey_DeepCopyInto"

definition Constraints_DeepCopy :: "('o, 'l, 'x, ref) copier" where
  "Constraints_DeepCopy = c_ref kConstraints Constraints_DeepCopyInto"

definition PluginData_DeepCopy :: "('o, 'l, 'x, ref) copier" where
  "PluginData_DeepCopy = c_ref kPluginData PluginData_DeepCopyInto"

definition SelectorIssuerRef_DeepCopy :: "('o, 'l, 'x, ref) copier" where
  "SelectorIssuerRef_DeepCopy = c_ref kIssuerRef SelectorIssuerRef_DeepCopyInto"

definition SelectorNamespace_DeepCopy :: "('o, 'l, 'x, ref) copier" where
  "SelectorNamespace_DeepCopy = c_ref kNamespace SelectorNamespace_DeepCopyInto"

definition Selector_DeepCopy :: "('o, 'l, 'x, ref) copier" where
  "Selector_DeepCopy = c_ref kSelector Selector_DeepCopyInto"

definition Spec_DeepCopy :: "('o, 'l, 'x, ref) copier" where
  "Spec_DeepCopy = c_ref kSpec Spec_DeepCopyInto"

definition Condition_DeepCopy :: "('o, 'l, 'x) foreign \<Rightarrow> ('o, 'l, 'x, ref) copier" where
  "Condition_DeepCopy X = c_ref kCondition (Condition_DeepCopyInto X)"

definition Status_DeepCopy :: "('o, 'l, 'x) foreign \<Rightarrow> ('o, 'l, 'x, ref) copier" where
  "Status_DeepCopy X = c_ref kStatus (Status_DeepCopyInto X)"

definition CertificateRequestPolicy_DeepCopy :: "('o, 'l, 'x) foreign \<Rightarrow> ('o, 'l, 'x, ref) copier" where
  "CertificateRequestPolicy_DeepCopy X = c_ref kPolicy (CertificateRequestPolicy_DeepCopyInto X)"

definition CertificateRequestPolicyList_DeepCopy :: "('o, 'l, 'x) foreign \<Rightarrow> ('o, 'l, 'x, ref) copier" where
  "CertificateRequestPolicyList_DeepCopy X = c_ref kPolicyList (CertificateRequestPolicyList_DeepCopyInto X)"

text \<open>\<^verbatim>\<open>DeepCopyObject\<close> returns an interface: nil, or an object of a known type.\<close>

datatype copied_object = PolicyObj addr | PolicyListObj addr

definition CertificateRequestPolicy_DeepCopyObject ::
  "('o, 'l, 'x) foreign \<Rightarrow> ref \<Rightarrow> (('o, 'l, 'x) gheap, copied_object option) go" where
  "CertificateRequestPolicy_DeepCopyObject X p =
     go_bind (CertificateRequestPolicy_DeepCopy X p) (\<lambda>c.
       case c of Some a \<Rightarrow> go_ret (Some (PolicyObj a)) | None \<Rightarrow> go_ret None)"

definition CertificateRequestPolicyList_DeepCopyObject ::
  "('o, 'l, 'x) foreign \<Rightarrow> ref \<Rightarrow> (('o, 'l, 'x) gheap, copied_object option) go" where
  "CertificateRequestPolicyList_DeepCopyObject X p =
     go_bind (CertificateRequestPolicyList_DeepCopy X p) (\<lambda>c.
       case c of Some a \<Rightarrow> go_ret (Some (PolicyListObj a)) | None \<Rightarrow> go_ret None)"

section \<open>Views of the structs\<close>

text \<open>What each struct holds, field by field; the list of its field views, and the struct.\<close>

abbreviation v_string :: "ref \<Rightarrow> ('o, 'l, 'x) cell view" where
  "v_string \<equiv> v_ref kString (\<lambda>s. v_val (DString s))"

abbreviation v_bool :: "ref \<Rightarrow> ('o, 'l, 'x) cell view" where
  "v_bool \<equiv> v_ref kBool (\<lambda>b. v_val (DBool b))"

abbreviation v_int :: "ref \<Rightarrow> ('o, 'l, 'x) cell view" where
  "v_int \<equiv> v_ref kInt (\<lambda>i. v_val (DInt i))"

abbreviation v_duration :: "ref \<Rightarrow> ('o, 'l, 'x) cell view" where
  "v_duration \<equiv> v_ref kDuration (\<lambda>i. v_val (DInt i))"

abbreviation v_strings :: "ref \<Rightarrow> ('o, 'l, 'x) cell view" where
  "v_strings \<equiv> v_ref kStrings (\<lambda>ss. v_val (DSlice (map DString ss)))"

abbreviation v_sliceptr :: "ref \<Rightarrow> ('o, 'l, 'x) cell view" where
  "v_sliceptr \<equiv> v_ref kSlice v_strings"

abbreviation v_labels :: "ref \<Rightarrow> ('o, 'l, 'x) cell view" where
  "v_labels \<equiv> v_ref kLabels (v_list (v_entry (\<lambda>s. v_val (DString s))))"

definition ValidationRule_fields :: "h_ValidationRule \<Rightarrow> ('o, 'l, 'x) cell view list" where
  "ValidationRule_fields r =
     [v_val (DString (hr_Rule r)),
      v_string (hr_Message r)]"

definition v_ValidationRule :: "h_ValidationRule \<Rightarrow> ('o, 'l, 'x) cell view" where
  "v_ValidationRule r = v_struct (ValidationRule_fields r)"

definition AllowedString_fields :: "h_AllowedString \<Rightarrow> ('o, 'l, 'x) cell view list" where
  "AllowedString_fields s =
     [v_string (hs_Value s),
      v_bool (hs_Required s),
      v_ref kRules (v_list v_ValidationRule) (hs_Validations s)]"

definition v_AllowedString :: "h_AllowedString \<Rightarrow> ('o, 'l, 'x) cell view" where
  "v_AllowedString s = v_struct (AllowedString_fields s)"

definition AllowedStringSlice_fields :: "h_AllowedStringSlice \<Rightarrow> ('o, 'l, 'x) cell view list" where
  "AllowedStringSlice_fields s =
     [v_sliceptr (hss_Values s),
      v_bool (hss_Required s),
      v_ref kRules (v_list v_ValidationRule) (hss_Validations s)]"

definition v_AllowedStringSlice :: "h_AllowedStringSlice \<Rightarrow> ('o, 'l, 'x) cell view" where
  "v_AllowedStringSlice s = v_struct (AllowedStringSlice_fields s)"

definition AllowedX509Subject_fields :: "h_AllowedX509Subject \<Rightarrow> ('o, 'l, 'x) cell view list" where
  "AllowedX509Subject_fields s =
     [v_ref kAllowedStringSlice v_AllowedStringSlice (hx_Organizations s),
      v_ref kAllowedStringSlice v_AllowedStringSlice (hx_Countries s),
      v_ref kAllowedStringSlice v_AllowedStringSlice (hx_OrganizationalUnits s),
      v_ref kAllowedStringSlice v_AllowedStringSlice (hx_Localities s),
      v_ref kAllowedStringSlice v_AllowedStringSlice (hx_Provinces s),
      v_ref kAllowedStringSlice v_AllowedStringSlice (hx_StreetAddresses s),
      v_ref kAllowedStringSlice v_AllowedStringSlice (hx_PostalCodes s),
      v_ref kAllowedString v_AllowedString (hx_SerialNumber s)]"

definition v_AllowedX509Subject :: "h_AllowedX509Subject \<Rightarrow> ('o, 'l, 'x) cell view" where
  "v_AllowedX509Subject s = v_struct (AllowedX509Subject_fields s)"

definition Allowed_fields :: "h_Allowed \<Rightarrow> ('o, 'l, 'x) cell view list" where
  "Allowed_fields a =
     [v_ref kAllowedString v_AllowedString (ha_CommonName a),
      v_ref kAllowedStringSlice v_AllowedStringSlice (ha_DNSNames a),
      v_ref kAllowedStringSlice v_AllowedStringSlice (ha_IPAddresses a),
      v_ref kAllowedStringSlice v_AllowedStringSlice (ha_URIs a),
      v_ref kAllowedStringSlice v_AllowedStringSlice (ha_EmailAddresses a),
      v_bool (ha_IsCA a),
      v_sliceptr (ha_Usages a),
      v_ref kSubject v_AllowedX509Subject (ha_Subject a)]"

definition v_Allowed :: "h_Allowed \<Rightarrow> ('o, 'l, 'x) cell view" where
  "v_Allowed a = v_struct (Allowed_fields a)"

definition ConstraintsPrivateKey_fields :: "h_PrivateKey \<Rightarrow> ('o, 'l, 'x) cell view list" where
  "ConstraintsPrivateKey_fields k =
     [v_string (hk_Algorithm k),
      v_int (hk_MinSize k),
      v_int (hk_MaxSize k)]"

definition v_ConstraintsPrivateKey :: "h_PrivateKey \<Rightarrow> ('o, 'l, 'x) cell view" where
  "v_ConstraintsPrivateKey k = v_struct (ConstraintsPrivateKey_fields k)"

definition Constraints_fields :: "h_Constraints \<Rightarrow> ('o, 'l, 'x) cell view list" where
  "Constraints_fields c =
     [v_duration (hc_MinDuration c),
      v_duration (hc_MaxDuration c),
      v_ref kPrivateKey v_ConstraintsPrivateKey (hc_PrivateKey c)]"

definition v_Constraints :: "h_Constraints \<Rightarrow> ('o, 'l, 'x) cell view" where
  "v_Constraints c = v_struct (Constraints_fields c)"

definition PluginData_fields :: "h_PluginData \<Rightarrow> ('o, 'l, 'x) cell view list" where
  "PluginData_fields p =
     [v_labels (hp_Values p)]"

definition v_PluginData :: "h_PluginData \<Rightarrow> ('o, 'l, 'x) cell view" where
  "v_PluginData p = v_struct (PluginData_fields p)"

definition SelectorIssuerRef_fields :: "h_IssuerRef \<Rightarrow> ('o, 'l, 'x) cell view list" where
  "SelectorIssuerRef_fields i =
     [v_string (hi_Name i),
      v_string (hi_Kind i),
      v_string (hi_Group i)]"

definition v_SelectorIssuerRef :: "h_IssuerRef \<Rightarrow> ('o, 'l, 'x) cell view" where
  "v_SelectorIssuerRef i = v_struct (SelectorIssuerRef_fields i)"

definition SelectorNamespace_fields :: "h_Namespace \<Rightarrow> ('o, 'l, 'x) cell view list" where
  "SelectorNamespace_fields n =
     [v_strings (hn_MatchNames n),
      v_labels (hn_MatchLabels n)]"

definition v_SelectorNamespace :: "h_Namespace \<Rightarrow> ('o, 'l, 'x) cell view" where
  "v_SelectorNamespace n = v_struct (SelectorNamespace_fields n)"

definition Selector_fields :: "h_Selector \<Rightarrow> ('o, 'l, 'x) cell view list" where
  "Selector_fields s =
     [v_ref kIssuerRef v_SelectorIssuerRef (hl_IssuerRef s),
      v_ref kNamespace v_SelectorNamespace (hl_Namespace s)]"

definition v_Selector :: "h_Selector \<Rightarrow> ('o, 'l, 'x) cell view" where
  "v_Selector s = v_struct (Selector_fields s)"

definition Spec_fields :: "h_Spec \<Rightarrow> ('o, 'l, 'x) cell view list" where
  "Spec_fields s =
     [v_ref kAllowed v_Allowed (hsp_Allowed s),
      v_ref kConstraints v_Constraints (hsp_Constraints s),
      v_ref kPlugins (v_list (v_entry v_PluginData)) (hsp_Plugins s),
      v_Selector (hsp_Selector s)]"

definition v_Spec :: "h_Spec \<Rightarrow> ('o, 'l, 'x) cell view" where
  "v_Spec s = v_struct (Spec_fields s)"

definition Condition_fields :: "('o, 'l, 'x) foreign \<Rightarrow> h_Condition \<Rightarrow> ('o, 'l, 'x) cell view list" where
  "Condition_fields X c =
     [v_val (DString (hcd_Type c)),
      v_val (DString (hcd_Status c)),
      x_Time_view X (hcd_LastTransitionTime c),
      v_val (DString (hcd_Reason c)),
      v_val (DString (hcd_Message c)),
      v_val (DInt (hcd_ObservedGeneration c))]"

definition v_Condition :: "('o, 'l, 'x) foreign \<Rightarrow> h_Condition \<Rightarrow> ('o, 'l, 'x) cell view" where
  "v_Condition X c = v_struct (Condition_fields X c)"

definition Status_fields :: "('o, 'l, 'x) foreign \<Rightarrow> h_Status \<Rightarrow> ('o, 'l, 'x) cell view list" where
  "Status_fields X s =
     [v_ref kConditions (v_list (v_Condition X)) (hst_Conditions s)]"

definition v_Status :: "('o, 'l, 'x) foreign \<Rightarrow> h_Status \<Rightarrow> ('o, 'l, 'x) cell view" where
  "v_Status X s = v_struct (Status_fields X s)"

definition v_TypeMeta :: "TypeMeta \<Rightarrow> deep" where
  "v_TypeMeta t = DStruct [DString (tm_Kind t), DString (tm_APIVersion t)]"

definition CertificateRequestPolicy_fields :: "('o, 'l, 'x) foreign \<Rightarrow> 'o h_Policy \<Rightarrow> ('o, 'l, 'x) cell view list" where
  "CertificateRequestPolicy_fields X p =
     [v_val (v_TypeMeta (hpo_TypeMeta p)),
      x_ObjectMeta_view X (hpo_ObjectMeta p),
      v_Spec (hpo_Spec p),
      v_Status X (hpo_Status p)]"

definition v_CertificateRequestPolicy :: "('o, 'l, 'x) foreign \<Rightarrow> 'o h_Policy \<Rightarrow> ('o, 'l, 'x) cell view" where
  "v_CertificateRequestPolicy X p = v_struct (CertificateRequestPolicy_fields X p)"

definition CertificateRequestPolicyList_fields :: "('o, 'l, 'x) foreign \<Rightarrow> 'l h_PolicyList \<Rightarrow> ('o, 'l, 'x) cell view list" where
  "CertificateRequestPolicyList_fields X p =
     [v_val (v_TypeMeta (hpl_TypeMeta p)),
      x_ListMeta_view X (hpl_ListMeta p),
      v_ref kPolicies (v_list (v_CertificateRequestPolicy X)) (hpl_Items p)]"

definition v_CertificateRequestPolicyList :: "('o, 'l, 'x) foreign \<Rightarrow> 'l h_PolicyList \<Rightarrow> ('o, 'l, 'x) cell view" where
  "v_CertificateRequestPolicyList X p = v_struct (CertificateRequestPolicyList_fields X p)"

section \<open>The copies are deep\<close>

lemma kinds_ok [simp]:
  "kind_ok kString"
  "kind_ok kBool"
  "kind_ok kInt"
  "kind_ok kDuration"
  "kind_ok kStrings"
  "kind_ok kSlice"
  "kind_ok kRule"
  "kind_ok kRules"
  "kind_ok kAllowedString"
  "kind_ok kAllowedStringSlice"
  "kind_ok kSubject"
  "kind_ok kAllowed"
  "kind_ok kPrivateKey"
  "kind_ok kConstraints"
  "kind_ok kLabels"
  "kind_ok kPluginData"
  "kind_ok kPlugins"
  "kind_ok kIssuerRef"
  "kind_ok kNamespace"
  "kind_ok kSelector"
  "kind_ok kSpec"
  "kind_ok kCondition"
  "kind_ok kConditions"
  "kind_ok kStatus"
  "kind_ok kPolicy"
  "kind_ok kPolicies"
  "kind_ok kPolicyList"
  by (simp_all add: kind_ok_def)

text \<open>Rules for the fields, each for one way of copying.\<close>

lemmas copying_ref = copying_field [OF deep_copier_ref]

lemmas copying_plain =
  copying_ref [OF kinds_ok(1) deep_copier_val] copying_ref [OF kinds_ok(2) deep_copier_val]
  copying_ref [OF kinds_ok(3) deep_copier_val] copying_ref [OF kinds_ok(4) deep_copier_val]
  copying_ref [OF kinds_ok(5) deep_copier_val]
  copying_ref [OF kinds_ok(6) deep_copier_ref [OF kinds_ok(5) deep_copier_val]]
  copying_ref [OF kinds_ok(15) deep_copier_list [OF deep_copier_entry [OF deep_copier_val]]]

interpretation rule_copy: deep_copier v_ValidationRule ValidationRule_DeepCopyInto
  by (rule deep_copier_struct, rule v_ValidationRule_def, simp add: ValidationRule_fields_def view_intros,
      subst ValidationRule_fields_def, subst ValidationRule_DeepCopyInto_def,
      intro copying_val copying_plain copying_ret,
      simp_all add: ValidationRule_fields_def view_intros)

lemmas rule_view [view_intros] = rule_copy.view

interpretation string_copy: deep_copier v_AllowedString AllowedString_DeepCopyInto
  by (rule deep_copier_struct, rule v_AllowedString_def, simp add: AllowedString_fields_def view_intros,
      subst AllowedString_fields_def, subst AllowedString_DeepCopyInto_def,
      intro copying_val copying_plain copying_ret
        copying_ref [OF kinds_ok(8) deep_copier_list [OF rule_copy.deep_copier_axioms]],
      simp_all add: AllowedString_fields_def view_intros)

lemmas string_view [view_intros] = string_copy.view

interpretation slice_copy: deep_copier v_AllowedStringSlice AllowedStringSlice_DeepCopyInto
  by (rule deep_copier_struct, rule v_AllowedStringSlice_def, simp add: AllowedStringSlice_fields_def view_intros,
      subst AllowedStringSlice_fields_def, subst AllowedStringSlice_DeepCopyInto_def,
      intro copying_val copying_plain copying_ret
        copying_ref [OF kinds_ok(8) deep_copier_list [OF rule_copy.deep_copier_axioms]],
      simp_all add: AllowedStringSlice_fields_def view_intros)

lemmas slice_view [view_intros] = slice_copy.view

interpretation subject_copy: deep_copier v_AllowedX509Subject AllowedX509Subject_DeepCopyInto
  by (rule deep_copier_struct, rule v_AllowedX509Subject_def, simp add: AllowedX509Subject_fields_def view_intros,
      subst AllowedX509Subject_fields_def, subst AllowedX509Subject_DeepCopyInto_def,
      intro copying_val copying_plain copying_ret
        copying_ref [OF kinds_ok(10) slice_copy.deep_copier_axioms]
        copying_ref [OF kinds_ok(9) string_copy.deep_copier_axioms],
      simp_all add: AllowedX509Subject_fields_def view_intros)

lemmas subject_view [view_intros] = subject_copy.view

interpretation allowed_copy: deep_copier v_Allowed Allowed_DeepCopyInto
  by (rule deep_copier_struct, rule v_Allowed_def, simp add: Allowed_fields_def view_intros,
      subst Allowed_fields_def, subst Allowed_DeepCopyInto_def,
      intro copying_val copying_plain copying_ret
        copying_ref [OF kinds_ok(10) slice_copy.deep_copier_axioms]
        copying_ref [OF kinds_ok(9) string_copy.deep_copier_axioms]
        copying_ref [OF kinds_ok(11) subject_copy.deep_copier_axioms],
      simp_all add: Allowed_fields_def view_intros)

lemmas allowed_view [view_intros] = allowed_copy.view

interpretation privatekey_copy: deep_copier v_ConstraintsPrivateKey ConstraintsPrivateKey_DeepCopyInto
  by (rule deep_copier_struct, rule v_ConstraintsPrivateKey_def, simp add: ConstraintsPrivateKey_fields_def view_intros,
      subst ConstraintsPrivateKey_fields_def, subst ConstraintsPrivateKey_DeepCopyInto_def,
      intro copying_val copying_plain copying_ret,
      simp_all add: ConstraintsPrivateKey_fields_def view_intros)

lemmas privatekey_view [view_intros] = privatekey_copy.view

interpretation constraints_copy: deep_copier v_Constraints Constraints_DeepCopyInto
  by (rule deep_copier_struct, rule v_Constraints_def, simp add: Constraints_fields_def view_intros,
      subst Constraints_fields_def, subst Constraints_DeepCopyInto_def,
      intro copying_val copying_plain copying_ret
        copying_ref [OF kinds_ok(13) privatekey_copy.deep_copier_axioms],
      simp_all add: Constraints_fields_def view_intros)

lemmas constraints_view [view_intros] = constraints_copy.view

interpretation plugindata_copy: deep_copier v_PluginData PluginData_DeepCopyInto
  by (rule deep_copier_struct, rule v_PluginData_def, simp add: PluginData_fields_def view_intros,
      subst PluginData_fields_def, subst PluginData_DeepCopyInto_def,
      intro copying_val copying_plain copying_ret,
      simp_all add: PluginData_fields_def view_intros)

lemmas plugindata_view [view_intros] = plugindata_copy.view

interpretation issuerref_copy: deep_copier v_SelectorIssuerRef SelectorIssuerRef_DeepCopyInto
  by (rule deep_copier_struct, rule v_SelectorIssuerRef_def, simp add: SelectorIssuerRef_fields_def view_intros,
      subst SelectorIssuerRef_fields_def, subst SelectorIssuerRef_DeepCopyInto_def,
      intro copying_val copying_plain copying_ret,
      simp_all add: SelectorIssuerRef_fields_def view_intros)

lemmas issuerref_view [view_intros] = issuerref_copy.view

interpretation namespace_copy: deep_copier v_SelectorNamespace SelectorNamespace_DeepCopyInto
  by (rule deep_copier_struct, rule v_SelectorNamespace_def, simp add: SelectorNamespace_fields_def view_intros,
      subst SelectorNamespace_fields_def, subst SelectorNamespace_DeepCopyInto_def,
      intro copying_val copying_plain copying_ret,
      simp_all add: SelectorNamespace_fields_def view_intros)

lemmas namespace_view [view_intros] = namespace_copy.view

interpretation selector_copy: deep_copier v_Selector Selector_DeepCopyInto
  by (rule deep_copier_struct, rule v_Selector_def, simp add: Selector_fields_def view_intros,
      subst Selector_fields_def, subst Selector_DeepCopyInto_def,
      intro copying_val copying_plain copying_ret
        copying_ref [OF kinds_ok(18) issuerref_copy.deep_copier_axioms]
        copying_ref [OF kinds_ok(19) namespace_copy.deep_copier_axioms],
      simp_all add: Selector_fields_def view_intros)

lemmas selector_view [view_intros] = selector_copy.view

interpretation spec_copy: deep_copier v_Spec Spec_DeepCopyInto
  by (rule deep_copier_struct, rule v_Spec_def, simp add: Spec_fields_def view_intros,
      subst Spec_fields_def, subst Spec_DeepCopyInto_def,
      intro copying_val copying_plain copying_ret
        copying_ref [OF kinds_ok(12) allowed_copy.deep_copier_axioms]
        copying_ref [OF kinds_ok(14) constraints_copy.deep_copier_axioms]
        copying_ref [OF kinds_ok(17) deep_copier_list [OF deep_copier_entry [OF plugindata_copy.deep_copier_axioms]]]
        copying_field [OF selector_copy.deep_copier_axioms],
      simp_all add: Spec_fields_def view_intros)

lemmas spec_view [view_intros] = spec_copy.view

text \<open>apimachinery's copies are deep copies, as its documentation says of every generated
  \<^verbatim>\<open>DeepCopy\<close>.\<close>

definition foreign_ok :: "('o, 'l, 'x) foreign \<Rightarrow> bool" where
  "foreign_ok X \<longleftrightarrow> deep_copier (x_ObjectMeta_view X) (x_ObjectMeta_DeepCopyInto X) \<and>
     deep_copier (x_ListMeta_view X) (x_ListMeta_DeepCopyInto X) \<and>
     deep_copier (x_Time_view X) (x_Time_DeepCopy X)"

lemma foreign_copiers:
  assumes "foreign_ok X"
  shows "deep_copier (x_ObjectMeta_view X) (x_ObjectMeta_DeepCopyInto X)"
    "deep_copier (x_ListMeta_view X) (x_ListMeta_DeepCopyInto X)"
    "deep_copier (x_Time_view X) (x_Time_DeepCopy X)"
  using assms by (simp_all add: foreign_ok_def)

lemma condition_copier:
  assumes "foreign_ok X"
  shows "deep_copier (v_Condition X) (Condition_DeepCopyInto X)"
  by (rule deep_copier_struct, rule v_Condition_def,
      simp add: Condition_fields_def view_intros deep_copier.view [OF foreign_copiers(3) [OF assms]],
      subst Condition_fields_def, subst Condition_DeepCopyInto_def,
      intro copying_val copying_ret copying_field [OF foreign_copiers(3) [OF assms]],
      simp_all add: Condition_fields_def view_intros)

lemma status_copier:
  assumes "foreign_ok X"
  shows "deep_copier (v_Status X) (Status_DeepCopyInto X)"
  by (rule deep_copier_struct, rule v_Status_def,
      simp add: Status_fields_def view_intros deep_copier.view [OF condition_copier [OF assms]],
      subst Status_fields_def, subst Status_DeepCopyInto_def,
      intro copying_ret copying_ref [OF kinds_ok(23) deep_copier_list [OF condition_copier [OF assms]]],
      simp_all add: Status_fields_def)

lemma policy_copier:
  assumes "foreign_ok X"
  shows "deep_copier (v_CertificateRequestPolicy X) (CertificateRequestPolicy_DeepCopyInto X)"
  by (rule deep_copier_struct, rule v_CertificateRequestPolicy_def,
      simp add: CertificateRequestPolicy_fields_def view_intros
        deep_copier.view [OF foreign_copiers(1) [OF assms]] deep_copier.view [OF status_copier [OF assms]],
      subst CertificateRequestPolicy_fields_def, subst CertificateRequestPolicy_DeepCopyInto_def,
      intro copying_val copying_ret copying_field [OF foreign_copiers(1) [OF assms]]
        copying_field [OF spec_copy.deep_copier_axioms] copying_field [OF status_copier [OF assms]],
      simp_all add: CertificateRequestPolicy_fields_def view_intros
        deep_copier.view [OF foreign_copiers(1) [OF assms]] deep_copier.view [OF status_copier [OF assms]])

lemma policy_list_copier:
  assumes "foreign_ok X"
  shows "deep_copier (v_CertificateRequestPolicyList X) (CertificateRequestPolicyList_DeepCopyInto X)"
  by (rule deep_copier_struct, rule v_CertificateRequestPolicyList_def,
      simp add: CertificateRequestPolicyList_fields_def view_intros
        deep_copier.view [OF foreign_copiers(2) [OF assms]] deep_copier.view [OF policy_copier [OF assms]],
      subst CertificateRequestPolicyList_fields_def, subst CertificateRequestPolicyList_DeepCopyInto_def,
      intro copying_val copying_ret copying_field [OF foreign_copiers(2) [OF assms]]
        copying_ref [OF kinds_ok(26) deep_copier_list [OF policy_copier [OF assms]]],
      simp_all add: CertificateRequestPolicyList_fields_def view_intros
        deep_copier.view [OF foreign_copiers(2) [OF assms]] deep_copier.view [OF policy_copier [OF assms]])

section \<open>Properties\<close>

abbreviation v_policy :: "('o, 'l, 'x) foreign \<Rightarrow> ref \<Rightarrow> ('o, 'l, 'x) cell view" where
  "v_policy X \<equiv> v_ref kPolicy (v_CertificateRequestPolicy X)"

abbreviation v_policy_list :: "('o, 'l, 'x) foreign \<Rightarrow> ref \<Rightarrow> ('o, 'l, 'x) cell view" where
  "v_policy_list X \<equiv> v_ref kPolicyList (v_CertificateRequestPolicyList X)"

text \<open>C20: a deep copy of a policy is equal and independent. Copying never panics on memory that
  is in order, leaves all existing memory as it was, and returns a pointer (nil for nil) to an
  object that is deeply equal, nil slices and maps included. The two share no memory: whatever is
  written to the memory of the copy, the original stays what it was, and the other way round.\<close>

theorem policy_DeepCopy_separate:
  assumes "foreign_ok X" and "heap_ok h" and "v_policy X p h = Some (d, A)"
  shows "\<exists>q h' B. CertificateRequestPolicy_DeepCopy X p h = Returns (q, h') \<and> grows h h' \<and>
    v_policy X p h' = Some (d, A) \<and> v_policy X q h' = Some (d, B) \<and> A \<inter> B = {} \<and>
    (\<forall>h''. (\<forall>a. a \<notin> B \<longrightarrow> h_cells h'' a = h_cells h' a) \<longrightarrow> v_policy X p h'' = Some (d, A)) \<and>
    (\<forall>h''. (\<forall>a. a \<notin> A \<longrightarrow> h_cells h'' a = h_cells h' a) \<longrightarrow> v_policy X q h'' = Some (d, B))"
  unfolding CertificateRequestPolicy_DeepCopy_def
  by (rule deep_copier.copy_separate [OF deep_copier_ref [OF kinds_ok(25) policy_copier [OF assms(1)]] assms(2,3)])

text \<open>The same of the list of policies as the informer cache copies it, through the interface
  \<^verbatim>\<open>runtime.Object\<close>; a nil list is the nil object, not an object that holds nil.\<close>

theorem policy_list_DeepCopyObject_separate:
  assumes "foreign_ok X" and "heap_ok h" and "v_policy_list X p h = Some (d, A)"
  shows "\<exists>obj q h' B. CertificateRequestPolicyList_DeepCopyObject X p h = Returns (obj, h') \<and>
    obj = map_option PolicyListObj q \<and> (q = None \<longleftrightarrow> p = None) \<and> grows h h' \<and>
    v_policy_list X q h' = Some (d, B) \<and> A \<inter> B = {} \<and>
    (\<forall>h''. (\<forall>a. a \<notin> B \<longrightarrow> h_cells h'' a = h_cells h' a) \<longrightarrow> v_policy_list X p h'' = Some (d, A)) \<and>
    (\<forall>h''. (\<forall>a. a \<notin> A \<longrightarrow> h_cells h'' a = h_cells h' a) \<longrightarrow> v_policy_list X q h'' = Some (d, B))"
proof -
  from deep_copier.copy_separate [OF deep_copier_ref [OF kinds_ok(27) policy_list_copier [OF assms(1)]] assms(2,3)]
  obtain q h' B where q: "CertificateRequestPolicyList_DeepCopy X p h = Returns (q, h')" "grows h h'"
    "v_policy_list X q h' = Some (d, B)" "A \<inter> B = {}"
    "\<forall>h''. (\<forall>a. a \<notin> B \<longrightarrow> h_cells h'' a = h_cells h' a) \<longrightarrow> v_policy_list X p h'' = Some (d, A)"
    "\<forall>h''. (\<forall>a. a \<notin> A \<longrightarrow> h_cells h'' a = h_cells h' a) \<longrightarrow> v_policy_list X q h'' = Some (d, B)"
    unfolding CertificateRequestPolicyList_DeepCopy_def by blast
  moreover have "q = None \<longleftrightarrow> p = None"
    using q(3) assms(3) by (cases p; cases q) (auto simp: v_ref_None v_ref_Some)
  moreover have "CertificateRequestPolicyList_DeepCopyObject X p h = Returns (map_option PolicyListObj q, h')"
    using q(1) by (simp add: CertificateRequestPolicyList_DeepCopyObject_def go_bind_def go_ret_def
        split: option.splits)
  ultimately show ?thesis by blast
qed

text \<open>An instance: object metadata with a map of labels, list metadata with a resource version, and
  times in cells of their own.\<close>

abbreviation kTime :: "(('o, 'l, int) cell, int) kind" where
  "kTime \<equiv> \<lparr>k_make = CForeign, k_is = is_CForeign, k_get = un_CForeign\<rparr>"

definition sample_foreign :: "(ref, string, int) foreign" where
  "sample_foreign =
     \<lparr>x_ObjectMeta_view = v_labels, x_ObjectMeta_DeepCopyInto = c_labels,
      x_ListMeta_view = (\<lambda>s. v_val (DString s)), x_ListMeta_DeepCopyInto = go_ret,
      x_Time_view = v_ref kTime (\<lambda>t. v_val (DInt t)), x_Time_DeepCopy = c_ref kTime go_ret\<rparr>"

lemma sample_foreign_ok: "foreign_ok sample_foreign"
  by (simp add: foreign_ok_def sample_foreign_def deep_copier_ref deep_copier_list deep_copier_entry
      deep_copier_val kind_ok_def)

definition sample_spec :: h_Spec where
  "sample_spec = \<lparr>hsp_Allowed = None, hsp_Constraints = None, hsp_Plugins = None,
     hsp_Selector = \<lparr>hl_IssuerRef = None, hl_Namespace = Some 1\<rparr>\<rparr>"

definition sample_policy_struct :: "ref h_Policy" where
  "sample_policy_struct = \<lparr>hpo_TypeMeta = \<lparr>tm_Kind = '''', tm_APIVersion = ''''\<rparr>, hpo_ObjectMeta = None,
     hpo_Spec = sample_spec, hpo_Status = \<lparr>hst_Conditions = None\<rparr>\<rparr>"

definition sample_heap :: "(ref, string, int) gheap" where
  "sample_heap = \<lparr>h_cells = [0 \<mapsto> CStrings [''default''], 1 \<mapsto> CNamespace \<lparr>hn_MatchNames = Some 0,
     hn_MatchLabels = None\<rparr>, 2 \<mapsto> CPolicy sample_policy_struct, 3 \<mapsto> CPolicies [sample_policy_struct],
     4 \<mapsto> CPolicyList \<lparr>hpl_TypeMeta = \<lparr>tm_Kind = '''', tm_APIVersion = ''''\<rparr>, hpl_ListMeta = ''7'',
                      hpl_Items = Some 3\<rparr>], h_next = 5\<rparr>"

lemma sample_heap_ok: "heap_ok sample_heap"
  by (auto simp: heap_ok_def sample_heap_def split: if_splits)

lemmas sample_view = v_CertificateRequestPolicy_def CertificateRequestPolicy_fields_def v_Spec_def
  Spec_fields_def v_Selector_def Selector_fields_def v_SelectorNamespace_def SelectorNamespace_fields_def
  v_Status_def Status_fields_def v_CertificateRequestPolicyList_def CertificateRequestPolicyList_fields_def
  v_struct_def v_ref_def v_val_def v_list_def sample_foreign_def sample_heap_def sample_policy_struct_def
  sample_spec_def

theorem policy_DeepCopy_separate_witness:
  "\<exists>q h' d B. CertificateRequestPolicy_DeepCopy sample_foreign (Some 2) sample_heap = Returns (q, h') \<and>
     v_policy sample_foreign (Some 2) sample_heap = Some (d, {0, 1, 2}) \<and>
     v_policy sample_foreign q h' = Some (d, B) \<and> {0, 1, 2} \<inter> B = {}"
proof -
  obtain d where d: "v_policy sample_foreign (Some 2) sample_heap = Some (d, {0, 1, 2})"
    by (simp add: sample_view insert_commute)
  from policy_DeepCopy_separate [OF sample_foreign_ok sample_heap_ok d] d show ?thesis by blast
qed

theorem policy_list_DeepCopyObject_separate_witness:
  "\<exists>q h' d B. CertificateRequestPolicyList_DeepCopyObject sample_foreign (Some 4) sample_heap =
       Returns (Some (PolicyListObj q), h') \<and>
     v_policy_list sample_foreign (Some 4) sample_heap = Some (d, {0, 1, 3, 4}) \<and>
     v_policy_list sample_foreign (Some q) h' = Some (d, B) \<and> {0, 1, 3, 4} \<inter> B = {}"
proof -
  obtain d where d: "v_policy_list sample_foreign (Some 4) sample_heap = Some (d, {0, 1, 3, 4})"
    by (simp add: sample_view insert_commute)
  from policy_list_DeepCopyObject_separate [OF sample_foreign_ok sample_heap_ok d] obtain obj q h' B where
    "CertificateRequestPolicyList_DeepCopyObject sample_foreign (Some 4) sample_heap = Returns (obj, h')"
    "obj = map_option PolicyListObj q" "q = None \<longleftrightarrow> Some 4 = None"
    "v_policy_list sample_foreign q h' = Some (d, B)" "{0, 1, 3, 4} \<inter> B = {}"
    by blast
  with d show ?thesis by (cases q) auto
qed

end
