(* ===== verification/AP_ImageTool.thy ===== *)
theory AP_ImageTool
  imports AP_API "HOL-Library.Countable"
begin

text \<open>
  The image tool of the build (\<^verbatim>\<open>make/_shared/oci-build/image_tool\<close>): it appends layers to every image
  of an OCI index, picks the image of one architecture out of an index, and lists digests. An index
  is a tree of images and further indexes. go-containerregistry is a parameter (\<open>oci\<close>): how an
  index is read, and how manifests are removed from and appended to it. Every failure ends the
  process with a message, which is the left value of a result here. The recursion follows nested
  indexes, so that the functions are partial: \<open>None\<close> is a run that does not end.
\<close>

section \<open>The tool's main file\<close>

text \<open>\<^verbatim>\<open>fail\<close> prints a message, with an error if there is one, and ends the process.\<close>

type_synonym 'a exit = "(string \<times> goerr option) + 'a"

definition fail :: "string \<Rightarrow> goerr option \<Rightarrow> 'a exit" where
  "fail msg err = Inl (msg, err)"

definition must :: "string \<Rightarrow> goerr + 'a \<Rightarrow> 'a exit" where
  "must msg r = (case r of Inl err \<Rightarrow> fail msg (Some err) | Inr v \<Rightarrow> Inr v)"

lemma must_simps [simp]: "must msg (Inr v) = Inr v" "must msg (Inl err) = Inl (msg, Some err)"
  by (simp_all add: must_def fail_def)

definition then_do :: "'a exit \<Rightarrow> ('a \<Rightarrow> 'b exit option) \<Rightarrow> 'b exit option" where
  "then_do r k = (case r of Inl msg \<Rightarrow> Some (Inl msg) | Inr v \<Rightarrow> k v)"

definition exit_bind :: "'a exit \<Rightarrow> ('a \<Rightarrow> 'b exit) \<Rightarrow> 'b exit" where
  "exit_bind r k = (case r of Inl msg \<Rightarrow> Inl msg | Inr v \<Rightarrow> k v)"

lemma exit_bind_simps [simp]:
  "exit_bind (Inl msg) f = Inl msg" "exit_bind (Inr v) f = f v"
  by (simp_all add: exit_bind_def)

lemma then_do_simps [simp]:
  "then_do (Inl msg) k = Some (Inl msg)" "then_do (Inr v) k = k v"
  by (simp_all add: then_do_def)

section \<open>Layers\<close>

text \<open>A file as \<^verbatim>\<open>filepath.Walk\<close> visits it: the path relative to the root, the file info, and the
  bytes that opening the path gives (which follows symbolic links).\<close>

datatype file_type = RegularFile | Directory | SymbolicLink | NamedPipe | CharDevice | BlockDevice | Socket

record file_entry =
  fe_Rel :: "goerr + string"
  fe_Name :: string
  fe_Type :: file_type
  fe_Perm :: int
  fe_Size :: nat
  fe_ModTime :: int
  fe_Owner :: string
  fe_Content :: "goerr + string"

record tar_header =
  th_Typeflag :: string
  th_Name :: string
  th_Mode :: int
  th_Linkname :: string
  th_Size :: nat
  th_ModTime :: int
  th_Owner :: string

text \<open>\<^verbatim>\<open>tar.FileInfoHeader\<close> of the standard library; the link target is its argument.\<close>

definition FileInfoHeader :: "file_entry \<Rightarrow> string \<Rightarrow> goerr + tar_header" where
  "FileInfoHeader fi link =
     (let hdr = (\<lambda>flag lnk sz. Inr \<lparr>th_Typeflag = flag, th_Name = fe_Name fi, th_Mode = fe_Perm fi,
            th_Linkname = lnk, th_Size = sz, th_ModTime = fe_ModTime fi, th_Owner = fe_Owner fi\<rparr>)
      in case fe_Type fi of
           RegularFile \<Rightarrow> hdr ''0'' '''' (fe_Size fi)
         | Directory \<Rightarrow> hdr ''5'' '''' 0
         | SymbolicLink \<Rightarrow> hdr ''2'' link 0
         | NamedPipe \<Rightarrow> hdr ''6'' '''' 0
         | CharDevice \<Rightarrow> hdr ''3'' '''' 0
         | BlockDevice \<Rightarrow> hdr ''4'' '''' 0
         | Socket \<Rightarrow> Inl (ErrLib ''archive/tar: sockets not supported''))"

text \<open>The state of a tar writer: the entries written so far, and how many bytes the last one lacks.
  A header is refused while bytes are missing, and bytes beyond the size are refused.\<close>

type_synonym tar_writer = "(tar_header \<times> string) list \<times> nat"

definition WriteHeader :: "tar_header \<Rightarrow> tar_writer \<Rightarrow> goerr + tar_writer" where
  "WriteHeader hdr tw =
     (if snd tw > 0 then Inl (ErrLib ''archive/tar: missed writing bytes'')
      else Inr (fst tw @ [(hdr, [])], th_Size hdr))"

definition tar_Copy :: "string \<Rightarrow> tar_writer \<Rightarrow> goerr + tar_writer" where
  "tar_Copy content tw =
     (if length content > snd tw then Inl (ErrLib ''archive/tar: write too long'')
      else Inr (butlast (fst tw) @ [(fst (last (fst tw)), content)], snd tw - length content))"

text \<open>The callback of the walk. The header it writes keeps only what makes builds reproducible.\<close>

definition walk_entry :: "goerr + file_entry \<Rightarrow> tar_writer \<Rightarrow> tar_writer exit" where
  "walk_entry visited tw =
     exit_bind (must ''walk error'' visited) (\<lambda>info.
     exit_bind (must ''could not create tar header'' (FileInfoHeader info (fe_Name info))) (\<lambda>header.
     exit_bind (must ''could not build relative path'' (fe_Rel info)) (\<lambda>name.
     exit_bind (must ''could not write tar header'' (WriteHeader
       \<lparr>th_Typeflag = th_Typeflag header, th_Name = name, th_Mode = th_Mode header,
        th_Linkname = th_Linkname header, th_Size = th_Size header, th_ModTime = 0, th_Owner = ''''\<rparr> tw)) (\<lambda>tw'.
     if fe_Type info = Directory then Inr tw'
     else exit_bind (must ''could not write tar contents'' (fe_Content info)) (\<lambda>file.
          must ''could not write tar contents'' (tar_Copy file tw'))))))"

primrec walk :: "(goerr + file_entry) list \<Rightarrow> tar_writer \<Rightarrow> tar_writer exit" where
  "walk [] tw = Inr tw"
| "walk (visited # rest) tw = exit_bind (walk_entry visited tw) (walk rest)"

text \<open>A layer is opened from the archive in memory, or from the file. \<open>stat\<close> answers whether the path
  is a directory, \<open>walked\<close> what the walk visits in it. The error of \<^verbatim>\<open>tw.Close\<close> is not looked at.\<close>

datatype untypedLayer = FromArchive "(tar_header \<times> string) list" | FromFile string

definition newUntypedLayerFromPath ::
  "(string \<Rightarrow> goerr + bool) \<Rightarrow> (string \<Rightarrow> (goerr + file_entry) list) \<Rightarrow> string \<Rightarrow> untypedLayer exit" where
  "newUntypedLayerFromPath stat walked path =
     exit_bind (must ''could not open directory or tarball'' (stat path)) (\<lambda>isDir.
       if isDir then exit_bind (walk (walked path) ([], 0)) (\<lambda>tw. Inr (FromArchive (fst tw)))
       else Inr (FromFile path))"

section \<open>The registry library\<close>

record platform =
  pl_OS :: string
  pl_Architecture :: string

record descriptor =
  d_MediaType :: string
  d_Digest :: string
  d_Size :: int
  d_Platform :: "platform option"

record ('idx, 'img, 'layer) oci =
  g_IsImage :: "string \<Rightarrow> bool"
  g_IsIndex :: "string \<Rightarrow> bool"
  g_IndexManifest :: "'idx \<Rightarrow> goerr + descriptor list"
  g_Image :: "'idx \<Rightarrow> string \<Rightarrow> goerr + 'img"
  g_ImageIndex :: "'idx \<Rightarrow> string \<Rightarrow> goerr + 'idx"
  g_ConfigPlatform :: "'img \<Rightarrow> goerr + platform option"
  g_Image_MediaType :: "'img \<Rightarrow> goerr + string"
  g_Image_Digest :: "'img \<Rightarrow> goerr + string"
  g_Image_Size :: "'img \<Rightarrow> goerr + int"
  g_Index_Digest :: "'idx \<Rightarrow> goerr + string"
  g_Index_Size :: "'idx \<Rightarrow> goerr + int"
  g_RemoveManifests :: "'idx \<Rightarrow> string \<Rightarrow> 'idx"
  g_AppendImage :: "'idx \<Rightarrow> 'img \<Rightarrow> descriptor \<Rightarrow> 'idx"
  g_AppendIndex :: "'idx \<Rightarrow> 'idx \<Rightarrow> descriptor \<Rightarrow> 'idx"
  g_AppendLayers :: "'img \<Rightarrow> 'layer \<Rightarrow> goerr + 'img"
  g_LayerFromOpener :: "untypedLayer \<Rightarrow> string \<Rightarrow> goerr + 'layer"

section \<open>Picking images\<close>

text \<open>\<open>getImagesFromIndex\<close> is the loop over the manifests of an index; a nested index starts another
  loop. The platform is read from the image's config if the index does not name it.\<close>

definition with_platform ::
  "('idx, 'img, 'layer) oci \<Rightarrow> 'idx \<Rightarrow> descriptor \<Rightarrow> descriptor exit" where
  "with_platform g index d =
     (if d_Platform d = None then
        (case must ''could not load image'' (g_Image g index (d_Digest d)) of
           Inl msg \<Rightarrow> Inl msg
         | Inr img \<Rightarrow>
             (case must ''could not load image config'' (g_ConfigPlatform g img) of
                Inl msg \<Rightarrow> Inl msg
              | Inr p \<Rightarrow> Inr (d\<lparr>d_Platform := p\<rparr>)))
      else Inr d)"

partial_function (option) images_loop ::
  "('idx, 'img, 'layer) oci \<Rightarrow> (descriptor \<Rightarrow> bool) \<Rightarrow> 'idx \<Rightarrow> descriptor list \<Rightarrow> 'img list exit option" where
  "images_loop g matcher index ds =
     (case ds of
        [] \<Rightarrow> Some (Inr [])
      | d # ds' \<Rightarrow>
          if g_IsImage g (d_MediaType d) then
            (case with_platform g index d of
               Inl msg \<Rightarrow> Some (Inl msg)
             | Inr d1 \<Rightarrow>
                 if matcher d1 then
                   (case must ''could not load image'' (g_Image g index (d_Digest d)) of
                      Inl msg \<Rightarrow> Some (Inl msg)
                    | Inr img \<Rightarrow>
                        Option.bind (images_loop g matcher index ds') (\<lambda>r. Some (map_sum id ((#) img) r)))
                 else images_loop g matcher index ds')
          else if g_IsIndex g (d_MediaType d) then
            (case must ''could not load image index'' (g_ImageIndex g index (d_Digest d)) of
               Inl msg \<Rightarrow> Some (Inl msg)
             | Inr idx \<Rightarrow>
                 (case must ''could not load oci index manifest'' (g_IndexManifest g idx) of
                    Inl msg \<Rightarrow> Some (Inl msg)
                  | Inr ds1 \<Rightarrow>
                      Option.bind (images_loop g matcher idx ds1) (\<lambda>r.
                        case r of
                          Inl msg \<Rightarrow> Some (Inl msg)
                        | Inr imgs \<Rightarrow>
                            Option.bind (images_loop g matcher index ds') (\<lambda>r'.
                              Some (map_sum id ((@) imgs) r')))))
          else images_loop g matcher index ds')"

definition getImagesFromIndex ::
  "('idx, 'img, 'layer) oci \<Rightarrow> (descriptor \<Rightarrow> bool) \<Rightarrow> 'idx \<Rightarrow> 'img list exit option" where
  "getImagesFromIndex g matcher index =
     then_do (must ''could not load oci index manifest'' (g_IndexManifest g index))
       (images_loop g matcher index)"

text \<open>The first steps of every command: \<^verbatim>\<open>layout.FromPath\<close>, then its \<^verbatim>\<open>ImageIndex\<close>.\<close>

definition load_index :: "goerr + (goerr + 'idx) \<Rightarrow> 'idx exit" where
  "load_index loaded =
     exit_bind (must ''could not load oci directory'' loaded) (must ''could not load oci image index'')"

lemma load_index_simps [simp]: "load_index (Inr (Inr idx)) = Inr idx"
  by (simp add: load_index_def exit_bind_def)

text \<open>\<open>convert-to-docker-tar\<close>: \<open>loaded\<close> is the index, \<open>parse\<close> the image name and \<open>write\<close> is
  \<^verbatim>\<open>tarball.WriteToFile\<close>. The answer is the image that is written.\<close>

definition ConvertToDockerTar ::
  "('idx, 'img, 'layer) oci \<Rightarrow> string \<Rightarrow> goerr + (goerr + 'idx) \<Rightarrow> (string \<Rightarrow> goerr + 'ref) \<Rightarrow>
   ('ref \<Rightarrow> 'img \<Rightarrow> goerr option) \<Rightarrow> string \<Rightarrow> 'img exit option" where
  "ConvertToDockerTar g GOARCH loaded parse write imageName =
     then_do (load_index loaded) (\<lambda>index.
       Option.bind (getImagesFromIndex g (\<lambda>desc. case d_Platform desc of
           None \<Rightarrow> False | Some p \<Rightarrow> pl_Architecture p = GOARCH) index) (\<lambda>r.
         then_do r (\<lambda>images.
           if length images = 0 then Some (fail ''no matching images found'' None)
           else if length images > 1 then Some (fail ''multiple matching images found'' None)
           else then_do (must ''invalid image name'' (parse imageName)) (\<lambda>r.
             case write r (hd images) of
               Some err \<Rightarrow> Some (fail ''could not write tarball'' (Some err))
             | None \<Rightarrow> Some (Inr (hd images))))))"

text \<open>\<open>list-digests\<close>.\<close>

definition ListDigests :: "('idx, 'img, 'layer) oci \<Rightarrow> goerr + (goerr + 'idx) \<Rightarrow> string list exit option" where
  "ListDigests g loaded =
     then_do (load_index loaded) (\<lambda>imageIndex.
       then_do (must ''could not load oci index manifest'' (g_IndexManifest g imageIndex)) (\<lambda>manifests.
         Some (Inr (map d_Digest manifests))))"

section \<open>Appending layers\<close>

text \<open>\<open>mutateImage\<close>: every image and nested index is replaced by its changed version, which is
  removed by its old digest and appended with the new one. \<open>fn\<close> changes an image.\<close>

partial_function (option) mutate_loop ::
  "('idx, 'img, 'layer) oci \<Rightarrow> ('img \<Rightarrow> 'img exit) \<Rightarrow> 'idx \<Rightarrow> descriptor list \<Rightarrow> 'idx exit option" where
  "mutate_loop g fn index ds =
     (case ds of
        [] \<Rightarrow> Some (Inr index)
      | d # ds' \<Rightarrow>
          if g_IsImage g (d_MediaType d) then
            (case must ''could not load oci image with digest'' (g_Image g index (d_Digest d)) of
               Inl msg \<Rightarrow> Some (Inl msg)
             | Inr img \<Rightarrow>
                 (case fn img of
                    Inl msg \<Rightarrow> Some (Inl msg)
                  | Inr img' \<Rightarrow>
                      (case must ''could not get image digest'' (g_Image_Digest g img') of
                         Inl msg \<Rightarrow> Some (Inl msg)
                       | Inr digest \<Rightarrow>
                           (case must ''could not get image size'' (g_Image_Size g img') of
                              Inl msg \<Rightarrow> Some (Inl msg)
                            | Inr sz \<Rightarrow>
                                mutate_loop g fn
                                  (g_AppendImage g (g_RemoveManifests g index (d_Digest d)) img'
                                    (d\<lparr>d_Digest := digest, d_Size := sz\<rparr>)) ds'))))
          else if g_IsIndex g (d_MediaType d) then
            (case must ''could not load oci index manifest'' (g_ImageIndex g index (d_Digest d)) of
               Inl msg \<Rightarrow> Some (Inl msg)
             | Inr child \<Rightarrow>
                 (case must ''could not load oci image manifest'' (g_IndexManifest g child) of
                    Inl msg \<Rightarrow> Some (Inl msg)
                  | Inr ds1 \<Rightarrow>
                      Option.bind (mutate_loop g fn child ds1) (\<lambda>r.
                        case r of
                          Inl msg \<Rightarrow> Some (Inl msg)
                        | Inr child' \<Rightarrow>
                            (case must ''could not get index digest'' (g_Index_Digest g child') of
                               Inl msg \<Rightarrow> Some (Inl msg)
                             | Inr digest \<Rightarrow>
                                 (case must ''could not get index size'' (g_Index_Size g child') of
                                    Inl msg \<Rightarrow> Some (Inl msg)
                                  | Inr sz \<Rightarrow>
                                      mutate_loop g fn
                                        (g_AppendIndex g (g_RemoveManifests g index (d_Digest d)) child'
                                          (d\<lparr>d_Digest := digest, d_Size := sz\<rparr>)) ds')))))
          else mutate_loop g fn index ds')"

definition mutateImage ::
  "('idx, 'img, 'layer) oci \<Rightarrow> ('img \<Rightarrow> 'img exit) \<Rightarrow> 'idx \<Rightarrow> 'idx exit option" where
  "mutateImage g fn index =
     then_do (must ''could not load oci image manifest'' (g_IndexManifest g index)) (mutate_loop g fn index)"

text \<open>What \<open>append-layers\<close> does to one image, and the command. \<open>write\<close> is \<^verbatim>\<open>layout.Write\<close>; nothing is
  written if there are no layers to append.\<close>

definition ToLayer :: "('idx, 'img, 'layer) oci \<Rightarrow> untypedLayer \<Rightarrow> string \<Rightarrow> goerr + 'layer" where
  "ToLayer g ul mediaType = g_LayerFromOpener g ul mediaType"

primrec append_layers ::
  "('idx, 'img, 'layer) oci \<Rightarrow> string \<Rightarrow> untypedLayer list \<Rightarrow> 'img \<Rightarrow> 'img exit" where
  "append_layers g layerType [] img = Inr img"
| "append_layers g layerType (ul # uls) img =
     exit_bind (must ''could not load image layer'' (ToLayer g ul layerType)) (\<lambda>layer.
     exit_bind (must ''could not append layer'' (g_AppendLayers g img layer)) (append_layers g layerType uls))"

abbreviation OCIManifestSchema1 :: string where
  "OCIManifestSchema1 \<equiv> ''application/vnd.oci.image.manifest.v1+json''"

abbreviation DockerLayer :: string where
  "DockerLayer \<equiv> ''application/vnd.docker.image.rootfs.diff.tar.gzip''"

abbreviation OCILayer :: string where
  "OCILayer \<equiv> ''application/vnd.oci.image.layer.v1.tar+gzip''"

definition append_to_image ::
  "('idx, 'img, 'layer) oci \<Rightarrow> untypedLayer list \<Rightarrow> 'img \<Rightarrow> 'img exit" where
  "append_to_image g layers img =
     exit_bind (must ''could not get image media type'' (g_Image_MediaType g img)) (\<lambda>imgMediaType.
       append_layers g (if imgMediaType = OCIManifestSchema1 then OCILayer else DockerLayer) layers img)"

primrec load_layers :: "(string \<Rightarrow> untypedLayer exit) \<Rightarrow> string list \<Rightarrow> untypedLayer list exit" where
  "load_layers load [] = Inr []"
| "load_layers load (path # paths) =
     exit_bind (load path) (\<lambda>ul. exit_bind (load_layers load paths) (\<lambda>uls. Inr (ul # uls)))"

definition AppendLayers_cmd ::
  "('idx, 'img, 'layer) oci \<Rightarrow> (string \<Rightarrow> untypedLayer exit) \<Rightarrow> goerr + (goerr + 'idx) \<Rightarrow>
   ('idx \<Rightarrow> goerr option) \<Rightarrow> string list \<Rightarrow> 'idx option exit option" where
  "AppendLayers_cmd g load loaded write extra =
     (if length extra = 0 then Some (Inr None)
      else then_do (load_index loaded) (\<lambda>index.
        then_do (load_layers load extra) (\<lambda>layers.
          Option.bind (mutateImage g (append_to_image g layers) index) (\<lambda>r.
            then_do r (\<lambda>index'.
              case write index' of
                Some err \<Rightarrow> Some (fail ''could not write image'' (Some err))
              | None \<Rightarrow> Some (Inr (Some index')))))))"

section \<open>Indexes as trees\<close>

text \<open>What an index holds, as a tree.\<close>

datatype 'img tree = Leaf descriptor 'img | Node descriptor "'img tree list" | Skip descriptor

primrec t_desc :: "'img tree \<Rightarrow> descriptor" where
  "t_desc (Leaf d img) = d"
| "t_desc (Node d ts) = d"
| "t_desc (Skip d) = d"

inductive represents :: "('idx, 'img, 'layer) oci \<Rightarrow> 'idx \<Rightarrow> 'img tree list \<Rightarrow> bool"
  and holds :: "('idx, 'img, 'layer) oci \<Rightarrow> 'idx \<Rightarrow> 'img tree \<Rightarrow> bool" for g where
  index: "g_IndexManifest g idx = Inr (map t_desc ts) \<Longrightarrow> \<forall>t \<in> set ts. holds g idx t \<Longrightarrow>
    represents g idx ts"
| leaf: "g_IsImage g (d_MediaType d) \<Longrightarrow> g_Image g idx (d_Digest d) = Inr img \<Longrightarrow>
    holds g idx (Leaf d img)"
| node: "\<not> g_IsImage g (d_MediaType d) \<Longrightarrow> g_IsIndex g (d_MediaType d) \<Longrightarrow>
    g_ImageIndex g idx (d_Digest d) = Inr child \<Longrightarrow> represents g child ts \<Longrightarrow> holds g idx (Node d ts)"
| skip: "\<not> g_IsImage g (d_MediaType d) \<Longrightarrow> \<not> g_IsIndex g (d_MediaType d) \<Longrightarrow> holds g idx (Skip d)"

inductive_simps represents_iff: "represents g idx ts"

inductive_simps holds_simps [simp]:
  "holds g idx (Leaf d img)" "holds g idx (Node d ts)" "holds g idx (Skip d)"

text \<open>The images a matcher accepts, in the order of the tree. The platform comes from the descriptor
  or from the image.\<close>

definition platform_of :: "('idx, 'img, 'layer) oci \<Rightarrow> descriptor \<Rightarrow> 'img \<Rightarrow> goerr + platform option" where
  "platform_of g d img = (case d_Platform d of Some p \<Rightarrow> Inr (Some p) | None \<Rightarrow> g_ConfigPlatform g img)"

primrec tree_leaves :: "'img tree \<Rightarrow> (descriptor \<times> 'img) list" where
  "tree_leaves (Leaf d img) = [(d, img)]"
| "tree_leaves (Node d ts) = concat (map tree_leaves ts)"
| "tree_leaves (Skip d) = []"

definition leaves :: "'img tree list \<Rightarrow> (descriptor \<times> 'img) list" where
  "leaves ts = concat (map tree_leaves ts)"

definition matches :: "('idx, 'img, 'layer) oci \<Rightarrow> (descriptor \<Rightarrow> bool) \<Rightarrow> descriptor \<times> 'img \<Rightarrow> bool" where
  "matches g matcher leaf \<longleftrightarrow>
     (case platform_of g (fst leaf) (snd leaf) of
        Inl e \<Rightarrow> False | Inr p \<Rightarrow> matcher ((fst leaf)\<lparr>d_Platform := p\<rparr>))"

definition selected :: "('idx, 'img, 'layer) oci \<Rightarrow> (descriptor \<Rightarrow> bool) \<Rightarrow> (descriptor \<times> 'img) list \<Rightarrow> 'img list" where
  "selected g matcher ls = map snd (filter (matches g matcher) ls)"

definition platforms_known :: "('idx, 'img, 'layer) oci \<Rightarrow> (descriptor \<times> 'img) list \<Rightarrow> bool" where
  "platforms_known g ls \<longleftrightarrow> (\<forall>leaf \<in> set ls. \<exists>p. platform_of g (fst leaf) (snd leaf) = Inr p)"

lemma selected_simps [simp]:
  "selected g matcher [] = []"
  "selected g matcher (ls @ ls') = selected g matcher ls @ selected g matcher ls'"
  by (simp_all add: selected_def)

lemma platforms_known_simps [simp]:
  "platforms_known g []" "platforms_known g (ls @ ls') \<longleftrightarrow> platforms_known g ls \<and> platforms_known g ls'"
  by (auto simp: platforms_known_def)

lemma images_loop_trees:
  assumes "\<And>t idx ds r. t \<in> set ts \<Longrightarrow> holds g idx t \<Longrightarrow> platforms_known g (tree_leaves t) \<Longrightarrow>
      images_loop g matcher idx ds = Some (Inr r) \<Longrightarrow>
      images_loop g matcher idx (t_desc t # ds) = Some (Inr (selected g matcher (tree_leaves t) @ r))"
    and "\<forall>t \<in> set ts. holds g idx t" and "platforms_known g (concat (map tree_leaves ts))"
  shows "images_loop g matcher idx (map t_desc ts) = Some (Inr (selected g matcher (concat (map tree_leaves ts))))"
  using assms
proof (induction ts)
  case Nil
  show ?case by (subst images_loop.simps) simp
next
  case (Cons t ts)
  then have "images_loop g matcher idx (map t_desc ts) =
      Some (Inr (selected g matcher (concat (map tree_leaves ts))))" by simp
  with Cons.prems show ?case by simp
qed

lemma same_platform: "d_Platform d = p \<Longrightarrow> d\<lparr>d_Platform := p\<rparr> = d"
  by (cases d) simp

lemma images_loop_tree:
  "holds g idx t \<Longrightarrow> platforms_known g (tree_leaves t) \<Longrightarrow> images_loop g matcher idx ds = Some (Inr r) \<Longrightarrow>
   images_loop g matcher idx (t_desc t # ds) = Some (Inr (selected g matcher (tree_leaves t) @ r))"
proof (induction t arbitrary: idx ds r)
  case (Leaf d img)
  then obtain p where "platform_of g d img = Inr p" by (auto simp: platforms_known_def)
  with Leaf show ?case
    by (subst images_loop.simps)
      (cases "d_Platform d"; auto simp: with_platform_def platform_of_def matches_def
        selected_def same_platform)
next
  case (Node d ts)
  then obtain child where child: "g_ImageIndex g idx (d_Digest d) = Inr child" "represents g child ts"
    and d: "\<not> g_IsImage g (d_MediaType d)" "g_IsIndex g (d_MediaType d)" by auto
  from child(2) have man: "g_IndexManifest g child = Inr (map t_desc ts)" "\<forall>t \<in> set ts. holds g child t"
    by (simp_all add: represents_iff)
  have "images_loop g matcher child (map t_desc ts) = Some (Inr (selected g matcher (concat (map tree_leaves ts))))"
    by (rule images_loop_trees [OF _ man(2)]) (use Node in auto)
  with Node.prems(3) child(1) d man(1) show ?case
    by (subst images_loop.simps) simp
next
  case (Skip d)
  then show ?case by (subst images_loop.simps) simp
qed

lemma getImagesFromIndex_tree:
  assumes "represents g idx ts" and "platforms_known g (leaves ts)"
  shows "getImagesFromIndex g matcher idx = Some (Inr (selected g matcher (leaves ts)))"
proof -
  from assms(1) have man: "g_IndexManifest g idx = Inr (map t_desc ts)" "\<forall>t \<in> set ts. holds g idx t"
    by (simp_all add: represents_iff)
  have "images_loop g matcher idx (map t_desc ts) = Some (Inr (selected g matcher (concat (map tree_leaves ts))))"
    by (rule images_loop_trees [OF images_loop_tree man(2)]) (use assms(2) in \<open>simp_all add: leaves_def\<close>)
  with man(1) show ?thesis by (simp add: getImagesFromIndex_def leaves_def)
qed

section \<open>What appending does to a tree\<close>

text \<open>What go-containerregistry documents of changed indexes: a manifest is removed by its digest,
  another one is appended at the end and found under its digest, everything else stays. Objects
  are addressed by their content and taken up to it, so that equal digests mean equal objects.\<close>

definition remove_laws :: "('idx, 'img, 'layer) oci \<Rightarrow> bool" where
  "remove_laws g \<longleftrightarrow>
     (\<forall>idx dg ds. g_IndexManifest g idx = Inr ds \<longrightarrow>
        g_IndexManifest g (g_RemoveManifests g idx dg) = Inr (filter (\<lambda>d. d_Digest d \<noteq> dg) ds)) \<and>
     (\<forall>idx dg dg'. dg' \<noteq> dg \<longrightarrow>
        g_Image g (g_RemoveManifests g idx dg) dg' = g_Image g idx dg' \<and>
        g_ImageIndex g (g_RemoveManifests g idx dg) dg' = g_ImageIndex g idx dg')"

definition append_laws :: "('idx, 'img, 'layer) oci \<Rightarrow> bool" where
  "append_laws g \<longleftrightarrow>
     (\<forall>idx x d ds. g_IndexManifest g idx = Inr ds \<longrightarrow>
        g_IndexManifest g (g_AppendImage g idx x d) = Inr (ds @ [d])) \<and>
     (\<forall>idx x d ds. g_IndexManifest g idx = Inr ds \<longrightarrow>
        g_IndexManifest g (g_AppendIndex g idx x d) = Inr (ds @ [d])) \<and>
     (\<forall>idx x d dg. g_Image_Digest g x = Inr (d_Digest d) \<longrightarrow>
        g_Image g (g_AppendImage g idx x d) dg = (if dg = d_Digest d then Inr x else g_Image g idx dg) \<and>
        g_ImageIndex g (g_AppendImage g idx x d) dg = g_ImageIndex g idx dg) \<and>
     (\<forall>idx x d dg. g_Index_Digest g x = Inr (d_Digest d) \<longrightarrow>
        g_ImageIndex g (g_AppendIndex g idx x d) dg =
          (if dg = d_Digest d then Inr x else g_ImageIndex g idx dg) \<and>
        g_Image g (g_AppendIndex g idx x d) dg = g_Image g idx dg)"

definition digest_laws :: "('idx, 'img, 'layer) oci \<Rightarrow> bool" where
  "digest_laws g \<longleftrightarrow>
     (\<forall>idx dg x. g_Image g idx dg = Inr x \<longrightarrow> g_Image_Digest g x = Inr dg) \<and>
     (\<forall>idx dg x. g_ImageIndex g idx dg = Inr x \<longrightarrow> g_Index_Digest g x = Inr dg) \<and>
     (\<forall>x y dg. g_Image_Digest g x = Inr dg \<longrightarrow> g_Image_Digest g y = Inr dg \<longrightarrow> x = y) \<and>
     (\<forall>x y dg. g_Index_Digest g x = Inr dg \<longrightarrow> g_Index_Digest g y = Inr dg \<longrightarrow> x = y) \<and>
     (\<forall>x. \<exists>dg sz. g_Index_Digest g x = Inr dg \<and> g_Index_Size g x = Inr sz)"

text \<open>Digests stand for contents: what an index with a digest of \<open>D\<close> lists has digests of \<open>D\<close> too. It holds
  for the digests \<open>D\<close> of a whole tree, since an index with the digest of a nested index lists what
  that one lists.\<close>

definition closed_digests :: "('idx, 'img, 'layer) oci \<Rightarrow> string set \<Rightarrow> bool" where
  "closed_digests g D \<longleftrightarrow>
     (\<forall>idx dg ds. g_Index_Digest g idx = Inr dg \<and> dg \<in> D \<and> g_IndexManifest g idx = Inr ds \<longrightarrow>
        d_Digest ` set ds \<subseteq> D)"

abbreviation t_digest :: "'img tree \<Rightarrow> string" where
  "t_digest t \<equiv> d_Digest (t_desc t)"

text \<open>A tree with digests of \<open>D\<close> in which an index lists no digest twice and every nested index leads to
  an image.\<close>

primrec tree_ok :: "string set \<Rightarrow> 'img tree \<Rightarrow> bool" where
  "tree_ok D (Leaf d img) \<longleftrightarrow> d_Digest d \<in> D"
| "tree_ok D (Node d ts) \<longleftrightarrow> d_Digest d \<in> D \<and> leaves ts \<noteq> [] \<and> distinct (map t_digest ts) \<and>
     list_all (tree_ok D) ts"
| "tree_ok D (Skip d) \<longleftrightarrow> d_Digest d \<in> D"

lemma tree_ok_digest: "tree_ok D t \<Longrightarrow> t_digest t \<in> D"
  by (cases t) auto

text \<open>The change of a leaf and of a tree.\<close>

definition leaf_changed ::
  "('img \<Rightarrow> 'img exit) \<Rightarrow> descriptor \<times> 'img \<Rightarrow> descriptor \<times> 'img \<Rightarrow> bool" where
  "leaf_changed fn old new \<longleftrightarrow> fn (snd old) = Inr (snd new) \<and>
     d_Platform (fst new) = d_Platform (fst old) \<and> d_MediaType (fst new) = d_MediaType (fst old)"

definition changed :: "('img \<Rightarrow> 'img exit) \<Rightarrow> 'img tree list \<Rightarrow> 'img tree list \<Rightarrow> bool" where
  "changed fn ts ts' \<longleftrightarrow> list_all2 (leaf_changed fn) (leaves ts) (leaves ts')"

text \<open>Every image can be changed, into one whose digest is not of \<open>D\<close>.\<close>

definition changeable ::
  "('idx, 'img, 'layer) oci \<Rightarrow> ('img \<Rightarrow> 'img exit) \<Rightarrow> string set \<Rightarrow> 'img tree list \<Rightarrow> bool" where
  "changeable g fn D ts \<longleftrightarrow> (\<forall>(d, img) \<in> set (leaves ts). \<exists>img' dg sz. fn img = Inr img' \<and>
     g_Image_Digest g img' = Inr dg \<and> g_Image_Size g img' = Inr sz \<and> dg \<notin> D)"

lemma leaves_simps [simp]:
  "leaves [] = []" "leaves (t # ts) = tree_leaves t @ leaves ts" "leaves (ts @ ts') = leaves ts @ leaves ts'"
  by (simp_all add: leaves_def)

lemma changeable_Cons: "changeable g fn D (t # ts) \<Longrightarrow> changeable g fn D [t] \<and> changeable g fn D ts"
  by (auto simp: changeable_def)

lemma changeable_Node: "changeable g fn D [Node d ts] \<longleftrightarrow> changeable g fn D ts"
  by (simp add: changeable_def leaves_def)

lemma changed_append: "changed fn ts ts' \<Longrightarrow> changed fn us us' \<Longrightarrow> changed fn (ts @ us) (ts' @ us')"
  by (simp add: changed_def list_all2_appendI)

text \<open>Replacing the tree with one digest by a changed one.\<close>

lemma holds_remove:
  assumes "remove_laws g" and "holds g idx t" and "t_digest t \<noteq> dg"
  shows "holds g (g_RemoveManifests g idx dg) t"
  using assms by (cases t) (auto simp: remove_laws_def)

lemma holds_append_image:
  assumes "append_laws g" and "digest_laws g" and "holds g idx t" and "g_Image_Digest g x = Inr (d_Digest d)"
  shows "holds g (g_AppendImage g idx x d) t"
  using assms by (cases t) (auto simp: append_laws_def digest_laws_def)

lemma holds_append_index:
  assumes "append_laws g" and "digest_laws g" and "holds g idx t" and "g_Index_Digest g x = Inr (d_Digest d)"
  shows "holds g (g_AppendIndex g idx x d) t"
proof (cases t)
  case (Node e ts)
  with assms(3) obtain child where child: "g_ImageIndex g idx (d_Digest e) = Inr child" "represents g child ts"
    and e: "\<not> g_IsImage g (d_MediaType e)" "g_IsIndex g (d_MediaType e)" by auto
  have "g_ImageIndex g (g_AppendIndex g idx x d) (d_Digest e) = Inr child"
    using assms(1,2,4) child(1) unfolding append_laws_def digest_laws_def by metis
  with child e Node show ?thesis by auto
qed (use assms in \<open>auto simp: append_laws_def\<close>)

lemma filter_other_digests:
  assumes "t_digest t \<notin> t_digest ` set (ss @ ts @ us)"
  shows "filter (\<lambda>d. d_Digest d \<noteq> t_digest t) (map t_desc (ss @ t # ts @ us)) = map t_desc (ss @ ts @ us)"
proof -
  have "filter (\<lambda>d. d_Digest d \<noteq> t_digest t) (map t_desc us') = map t_desc us'"
    if "set us' \<subseteq> set (ss @ ts @ us)" for us'
  proof (intro filter_True ballI)
    fix d
    assume "d \<in> set (map t_desc us')"
    then obtain u where "u \<in> set us'" "d = t_desc u" by auto
    with assms that show "d_Digest d \<noteq> t_digest t" by (metis imageI subsetD)
  qed
  note other = this
  show ?thesis by (simp add: other subset_iff del: filter_map)
qed

text \<open>The state of the loop: the trees passed over, those to come, and the changed ones at the end.\<close>

definition loop_inv ::
  "('idx, 'img, 'layer) oci \<Rightarrow> string set \<Rightarrow> 'idx \<Rightarrow> 'img tree list \<Rightarrow> 'img tree list \<Rightarrow> 'img tree list \<Rightarrow> bool" where
  "loop_inv g D idx skips ts new \<longleftrightarrow> represents g idx (skips @ ts @ new) \<and>
     distinct (map t_digest (skips @ ts)) \<and> list_all (tree_ok D) (skips @ ts) \<and>
     (\<forall>t \<in> set new. t_digest t \<notin> D)"

lemma replace_tree:
  assumes "loop_inv g D idx skips (t # ts) new" and "holds g idx' t'"
    and "\<And>u. holds g idx u \<Longrightarrow> t_digest u \<noteq> t_digest t \<Longrightarrow> holds g idx' u"
    and "\<And>ds. g_IndexManifest g idx = Inr ds \<Longrightarrow>
      g_IndexManifest g idx' = Inr (filter (\<lambda>d. d_Digest d \<noteq> t_digest t) ds @ [t_desc t'])"
    and "t_digest t' \<notin> D"
  shows "loop_inv g D idx' skips ts (new @ [t'])"
proof -
  let ?rest = "skips @ ts @ new"
  from assms(1) have inv: "represents g idx (skips @ t # ts @ new)" "distinct (map t_digest (skips @ t # ts))"
    "list_all (tree_ok D) (skips @ t # ts)" "\<forall>u \<in> set new. t_digest u \<notin> D"
    by (simp_all add: loop_inv_def)
  have "t_digest t \<in> D" using inv(3) tree_ok_digest by auto
  with inv(2,4) have other: "t_digest t \<notin> t_digest ` set ?rest" by (auto simp: image_iff)
  have "holds g idx' u" if "u \<in> set ?rest" for u
  proof (rule assms(3))
    show "holds g idx u" using inv(1) that by (auto simp: represents_iff)
    show "t_digest u \<noteq> t_digest t" using other that by (metis imageI)
  qed
  moreover have "g_IndexManifest g idx' = Inr (map t_desc (?rest @ [t']))"
    using assms(4) inv(1) filter_other_digests [OF other] by (simp add: represents_iff)
  ultimately have "represents g idx' (?rest @ [t'])" using assms(2) by (auto simp: represents_iff)
  with assms(5) inv(2-4) show ?thesis by (auto simp: loop_inv_def)
qed

lemma replace_image:
  assumes laws: "remove_laws g" "append_laws g" "digest_laws g"
    and inv: "loop_inv g D idx skips (Leaf d img # ts) new" and "g_Image_Digest g img' = Inr dg" "dg \<notin> D"
  shows "loop_inv g D (g_AppendImage g (g_RemoveManifests g idx (d_Digest d)) img' (d\<lparr>d_Digest := dg, d_Size := sz\<rparr>))
           skips ts (new @ [Leaf (d\<lparr>d_Digest := dg, d_Size := sz\<rparr>) img'])" (is "loop_inv g D ?idx skips ts _")
proof (rule replace_tree [OF inv])
  show "holds g ?idx (Leaf (d\<lparr>d_Digest := dg, d_Size := sz\<rparr>) img')"
    using inv laws(2) assms(5) by (auto simp: loop_inv_def represents_iff append_laws_def)
  show "holds g ?idx u" if "holds g idx u" "t_digest u \<noteq> t_digest (Leaf d img)" for u
    using that by (intro holds_append_image holds_remove laws) (simp_all add: assms(5))
qed (use laws(1,2) assms(6) in \<open>simp_all add: remove_laws_def append_laws_def\<close>)

lemma replace_index:
  assumes laws: "remove_laws g" "append_laws g" "digest_laws g"
    and inv: "loop_inv g D idx skips (Node d sub # ts) new" and "g_Index_Digest g child = Inr dg"
    and "dg \<notin> D" and "represents g child sub'"
  shows "loop_inv g D (g_AppendIndex g (g_RemoveManifests g idx (d_Digest d)) child (d\<lparr>d_Digest := dg, d_Size := sz\<rparr>))
           skips ts (new @ [Node (d\<lparr>d_Digest := dg, d_Size := sz\<rparr>) sub'])" (is "loop_inv g D ?idx skips ts _")
proof (rule replace_tree [OF inv])
  show "holds g ?idx (Node (d\<lparr>d_Digest := dg, d_Size := sz\<rparr>) sub')"
    using inv laws(2) assms(5,7) by (auto simp: loop_inv_def represents_iff append_laws_def)
  show "holds g ?idx u" if "holds g idx u" "t_digest u \<noteq> t_digest (Node d sub)" for u
    using that by (intro holds_append_index holds_remove laws) (simp_all add: assms(5))
qed (use laws(1,2) assms(6) in \<open>simp_all add: remove_laws_def append_laws_def\<close>)

text \<open>A loop over trees \<open>ts\<close>, started with the changed trees \<open>new\<close>, changes all leaves, and where there are
  any the manifest that it ends with lists a digest that is not of \<open>D\<close>.\<close>

definition changes_all ::
  "('idx, 'img, 'layer) oci \<Rightarrow> ('img \<Rightarrow> 'img exit) \<Rightarrow> string set \<Rightarrow> 'idx \<Rightarrow> 'img tree list \<Rightarrow> 'img tree list \<Rightarrow> bool" where
  "changes_all g fn D idx ts new \<longleftrightarrow> (\<exists>idx' us ls.
     mutate_loop g fn idx (map t_desc ts) = Some (Inr idx') \<and> represents g idx' us \<and>
     leaves us = leaves new @ ls \<and> list_all2 (leaf_changed fn) (leaves ts) ls \<and>
     (leaves us \<noteq> [] \<longrightarrow> (\<exists>u \<in> set us. t_digest u \<notin> D)))"

definition mutates ::
  "('idx, 'img, 'layer) oci \<Rightarrow> ('img \<Rightarrow> 'img exit) \<Rightarrow> string set \<Rightarrow> 'img tree list \<Rightarrow> bool" where
  "mutates g fn D ts \<longleftrightarrow> (\<forall>idx. represents g idx ts \<longrightarrow> distinct (map t_digest ts) \<longrightarrow>
     list_all (tree_ok D) ts \<longrightarrow> changeable g fn D ts \<longrightarrow> changes_all g fn D idx ts [])"

lemma changes_all_step:
  assumes "mutate_loop g fn idx (map t_desc (t # ts)) = mutate_loop g fn idx1 (map t_desc ts)"
    and "changes_all g fn D idx1 ts (new @ us)" and "list_all2 (leaf_changed fn) (tree_leaves t) (leaves us)"
  shows "changes_all g fn D idx (t # ts) new"
proof -
  from assms(2) obtain idx' vs ls where ls: "mutate_loop g fn idx1 (map t_desc ts) = Some (Inr idx')"
    "represents g idx' vs" "leaves vs = leaves (new @ us) @ ls" "list_all2 (leaf_changed fn) (leaves ts) ls"
    "leaves vs \<noteq> [] \<longrightarrow> (\<exists>u \<in> set vs. t_digest u \<notin> D)"
    unfolding changes_all_def by blast
  moreover have "leaves vs = leaves new @ (leaves us @ ls)" using ls(3) by simp
  moreover have "list_all2 (leaf_changed fn) (leaves (t # ts)) (leaves us @ ls)"
    using assms(3) ls(4) by (simp add: list_all2_appendI)
  ultimately show ?thesis unfolding changes_all_def using assms(1) by metis
qed

lemma index_digest_new:
  assumes "closed_digests g D" and "g_Index_Digest g child = Inr dg"
    and "represents g child us" and "u \<in> set us" and "t_digest u \<notin> D"
  shows "dg \<notin> D"
proof
  assume "dg \<in> D"
  moreover have "g_IndexManifest g child = Inr (map t_desc us)" using assms(3) by (simp add: represents_iff)
  ultimately have "d_Digest ` set (map t_desc us) \<subseteq> D" using assms(1,2) unfolding closed_digests_def by blast
  with assms(4,5) show False by auto
qed

lemma mutate_loop_leaf:
  assumes "holds g idx (Leaf d img)" "changeable g fn D [Leaf d img]"
  obtains img' dg sz where "fn img = Inr img'" "g_Image_Digest g img' = Inr dg" "dg \<notin> D"
    "mutate_loop g fn idx (d # ds) = mutate_loop g fn
       (g_AppendImage g (g_RemoveManifests g idx (d_Digest d)) img' (d\<lparr>d_Digest := dg, d_Size := sz\<rparr>)) ds"
proof -
  from assms(2) obtain img' dg sz where "fn img = Inr img'" "g_Image_Digest g img' = Inr dg"
    "g_Image_Size g img' = Inr sz" "dg \<notin> D" by (auto simp: changeable_def)
  with assms(1) that show ?thesis by (subst (asm) mutate_loop.simps) simp
qed

lemma mutate_loop_node:
  assumes "holds g idx (Node d sub)" "g_ImageIndex g idx (d_Digest d) = Inr child" "represents g child sub"
    and "mutate_loop g fn child (map t_desc sub) = Some (Inr child')"
    and "g_Index_Digest g child' = Inr dg" "g_Index_Size g child' = Inr sz"
  shows "mutate_loop g fn idx (d # ds) = mutate_loop g fn
       (g_AppendIndex g (g_RemoveManifests g idx (d_Digest d)) child' (d\<lparr>d_Digest := dg, d_Size := sz\<rparr>)) ds"
  using assms by (subst mutate_loop.simps) (simp add: represents_iff)

lemma mutate_loop_trees:
  assumes laws: "remove_laws g" "append_laws g" "digest_laws g" and closed: "closed_digests g D"
  shows "\<forall>t \<in> set ts. \<forall>d sub. t = Node d sub \<longrightarrow> mutates g fn D sub \<Longrightarrow>
    loop_inv g D idx skips ts new \<Longrightarrow> leaves skips = [] \<Longrightarrow> changeable g fn D ts \<Longrightarrow> changes_all g fn D idx ts new"
proof (induction ts arbitrary: idx skips new)
  case Nil
  then have "represents g idx (skips @ new)" "\<forall>t \<in> set new. t_digest t \<notin> D" by (simp_all add: loop_inv_def)
  moreover have "\<exists>u \<in> set new. True" if "leaves new \<noteq> []" using that by (cases new) auto
  ultimately show ?case
    using Nil.prems(3) unfolding changes_all_def
    by (intro exI [of _ idx] exI [of _ "skips @ new"] exI [of _ "[]"]) (auto simp: mutate_loop.simps)
next
  case (Cons t ts)
  have t: "holds g idx t" using Cons.prems(2) by (auto simp: loop_inv_def represents_iff)
  have ch: "changeable g fn D [t]" "changeable g fn D ts" using changeable_Cons [OF Cons.prems(4)] by blast+
  note IH = Cons.IH [OF _ _ _ ch(2)]
  show ?case
  proof (cases t)
    case (Leaf d img)
    with t ch(1) obtain img' dg sz where img: "fn img = Inr img'" "g_Image_Digest g img' = Inr dg" "dg \<notin> D"
      "mutate_loop g fn idx (d # map t_desc ts) = mutate_loop g fn
         (g_AppendImage g (g_RemoveManifests g idx (d_Digest d)) img' (d\<lparr>d_Digest := dg, d_Size := sz\<rparr>)) (map t_desc ts)"
      by (metis mutate_loop_leaf)
    with IH [OF _ replace_image [OF laws Cons.prems(2) [unfolded Leaf] img(2)]] Cons.prems(1,3) Leaf
    show ?thesis
      by (intro changes_all_step [where us = "[Leaf (d\<lparr>d_Digest := dg, d_Size := sz\<rparr>) img']"])
        (auto simp: leaf_changed_def)
  next
    case (Node d sub)
    with t obtain child where child: "g_ImageIndex g idx (d_Digest d) = Inr child" "represents g child sub" by auto
    have sub: "mutates g fn D sub" "distinct (map t_digest sub)" "list_all (tree_ok D) sub" "changeable g fn D sub"
      "leaves sub \<noteq> []"
      using Cons.prems(1,2) Node ch(1) by (auto simp: loop_inv_def changeable_Node)
    with child(2) have "changes_all g fn D child sub []" unfolding mutates_def by blast
    then obtain child' us where child': "mutate_loop g fn child (map t_desc sub) = Some (Inr child')"
      "represents g child' us" "list_all2 (leaf_changed fn) (leaves sub) (leaves us)"
      "leaves us \<noteq> [] \<longrightarrow> (\<exists>u \<in> set us. t_digest u \<notin> D)"
      unfolding changes_all_def by auto
    from child'(3) sub(5) have "leaves us \<noteq> []" by auto
    with child'(4) obtain u where u: "u \<in> set us" "t_digest u \<notin> D" by blast
    obtain dg sz where dg: "g_Index_Digest g child' = Inr dg" "g_Index_Size g child' = Inr sz"
      using laws(3) unfolding digest_laws_def by blast
    note inv = replace_index [OF laws Cons.prems(2) [unfolded Node] dg(1)
        index_digest_new [OF closed dg(1) child'(2) u] child'(2), where sz = sz]
    show ?thesis
      using IH [OF _ inv] Cons.prems(1,3) Node child'(3)
        mutate_loop_node [OF t [unfolded Node] child child'(1) dg, of "map t_desc ts"]
      by (intro changes_all_step [where us = "[Node (d\<lparr>d_Digest := dg, d_Size := sz\<rparr>) us]"])
        (auto simp: leaves_def)
  next
    case (Skip d)
    have "loop_inv g D idx (skips @ [t]) ts new" using Cons.prems(2) by (simp add: loop_inv_def)
    with IH [of idx "skips @ [t]" new] Cons.prems(1,3) Skip t show ?thesis
      by (intro changes_all_step [where us = "[]"])
        (auto simp: mutate_loop.simps [of g fn idx "d # map t_desc ts"])
  qed
qed

lemma mutates_sub:
  assumes "remove_laws g" "append_laws g" "digest_laws g" "closed_digests g D"
  shows "t = Node d sub \<Longrightarrow> mutates g fn D sub"
proof (induction t arbitrary: d sub)
  case (Node e ts)
  then have "\<forall>t \<in> set sub. \<forall>d sub'. t = Node d sub' \<longrightarrow> mutates g fn D sub'" by auto
  then show ?case
    unfolding mutates_def [of g fn D sub]
    by (intro allI impI mutate_loop_trees [OF assms, where skips = "[]"]) (simp_all add: loop_inv_def)
qed simp_all

lemma mutateImage_tree:
  assumes "remove_laws g" "append_laws g" "digest_laws g" "closed_digests g D"
    and "represents g idx ts" "distinct (map t_digest ts)" "list_all (tree_ok D) ts" "changeable g fn D ts"
  shows "\<exists>idx' ts'. mutateImage g fn idx = Some (Inr idx') \<and> represents g idx' ts' \<and> changed fn ts ts'"
proof -
  have "changes_all g fn D idx ts []"
    by (rule mutate_loop_trees [OF assms(1-4), where skips = "[]"])
      (use assms(5-8) mutates_sub [OF assms(1-4)] in \<open>simp_all add: loop_inv_def\<close>)
  with assms(5) show ?thesis
    by (auto simp: changes_all_def changed_def mutateImage_def represents_iff [of g idx])
qed

section \<open>Properties\<close>

text \<open>Picking images terminates and is exact. If the index and its nested indexes can be read
  and every image has a platform, in its descriptor or in its config, the images of the matching
  descriptors are returned, from all nested indexes, in their order; and the conversion to a Docker
  archive writes an image exactly if it is the only one of the architecture.\<close>

theorem images_of_architecture:
  assumes "represents g idx ts" and "platforms_known g (leaves ts)"
  shows "getImagesFromIndex g matcher idx = Some (Inr (selected g matcher (leaves ts))) \<and>
    (\<exists>r. ConvertToDockerTar g arch (Inr (Inr idx)) parse write name = Some r \<and>
      (\<forall>img. r = Inr img \<longleftrightarrow>
         selected g (\<lambda>d. \<exists>p. d_Platform d = Some p \<and> pl_Architecture p = arch) (leaves ts) = [img] \<and>
         (\<exists>ref. parse name = Inr ref \<and> write ref img = None)))"
proof
  show "getImagesFromIndex g matcher idx = Some (Inr (selected g matcher (leaves ts)))"
    by (rule getImagesFromIndex_tree [OF assms])
  let ?m = "\<lambda>d. \<exists>p. d_Platform d = Some p \<and> pl_Architecture p = arch"
  have m: "(\<lambda>desc. case d_Platform desc of None \<Rightarrow> False | Some p \<Rightarrow> pl_Architecture p = arch) = ?m"
    by (auto simp: fun_eq_iff split: option.splits)
  let ?imgs = "selected g ?m (leaves ts)"
  have run: "ConvertToDockerTar g arch (Inr (Inr idx)) parse write name =
      (if length ?imgs = 0 then Some (fail ''no matching images found'' None)
       else if length ?imgs > 1 then Some (fail ''multiple matching images found'' None)
       else then_do (must ''invalid image name'' (parse name)) (\<lambda>r.
         case write r (hd ?imgs) of
           Some err \<Rightarrow> Some (fail ''could not write tarball'' (Some err))
         | None \<Rightarrow> Some (Inr (hd ?imgs))))"
    using getImagesFromIndex_tree [OF assms, of ?m] by (simp add: ConvertToDockerTar_def m)
  show "\<exists>r. ConvertToDockerTar g arch (Inr (Inr idx)) parse write name = Some r \<and>
      (\<forall>img. r = Inr img \<longleftrightarrow> ?imgs = [img] \<and> (\<exists>ref. parse name = Inr ref \<and> write ref img = None))"
  proof (cases "\<exists>img. ?imgs = [img]")
    case True
    then obtain img where img: "?imgs = [img]" by blast
    show ?thesis
    proof (cases "parse name")
      case (Inr ref)
      then show ?thesis unfolding run img by (cases "write ref img") (auto simp: fail_def)
    qed (unfold run img, auto)
  next
    case False
    then have "length ?imgs = 0 \<or> length ?imgs > 1" by (cases ?imgs; cases "tl ?imgs") auto
    with False show ?thesis unfolding run by (auto simp: fail_def)
  qed
qed

text \<open>C21: appending layers reaches every image and loses none. Let digests identify contents, let no
  manifest of the index or of a nested one list a digest twice, let every nested index lead to an
  image, and let no changed image already occur in the tree. Then changing the images terminates
  with an index that holds, in nested indexes too, for every old image the changed one with the same
  platform and media type, in the same order, and no other image.\<close>

theorem mutateImage_changes_all:
  assumes "remove_laws g" and "append_laws g" and "digest_laws g" and "closed_digests g D"
    and "represents g idx ts" and "distinct (map t_digest ts)" and "list_all (tree_ok D) ts"
    and "changeable g fn D ts"
  shows "\<exists>idx' ts'. mutateImage g fn idx = Some (Inr idx') \<and> represents g idx' ts' \<and>
    list_all2 (leaf_changed fn) (leaves ts) (leaves ts')"
  using mutateImage_tree [OF assms] by (simp add: changed_def)

text \<open>The layer of a directory is reproducible. It does not depend on the times and owners of the
  files.\<close>

definition anonymous :: "goerr + file_entry \<Rightarrow> goerr + file_entry" where
  "anonymous = map_sum id (\<lambda>fe. fe\<lparr>fe_ModTime := 0, fe_Owner := ''''\<rparr>)"

lemma FileInfoHeader_anonymous:
  "FileInfoHeader (fe\<lparr>fe_ModTime := 0, fe_Owner := ''''\<rparr>) link =
   map_sum id (\<lambda>h. h\<lparr>th_ModTime := 0, th_Owner := ''''\<rparr>) (FileInfoHeader fe link)"
  by (cases "fe_Type fe") (simp_all add: FileInfoHeader_def)

lemma walk_entry_anonymous: "walk_entry (anonymous e) tw = walk_entry e tw"
proof (cases e)
  case (Inr fe)
  then show ?thesis
    by (cases "FileInfoHeader fe (fe_Name fe)")
      (simp_all add: walk_entry_def anonymous_def FileInfoHeader_anonymous cong: if_cong)
qed (simp add: anonymous_def)

lemma walk_anonymous: "walk (map anonymous es) tw = walk es tw"
proof (induction es arbitrary: tw)
  case (Cons e es)
  then show ?case by (simp add: walk_entry_anonymous exit_bind_def split: sum.splits)
qed simp

theorem layer_reproducible:
  assumes "map anonymous (walked path) = map anonymous (walked' path)"
  shows "newUntypedLayerFromPath stat walked path = newUntypedLayerFromPath stat walked' path"
proof -
  have "walk (walked path) = walk (walked' path)"
    by (rule ext) (metis walk_anonymous assms)
  then show ?thesis by (auto simp: newUntypedLayerFromPath_def exit_bind_def split: sum.splits)
qed

text \<open>A symbolic link is archived as a link to its own name, and only if the file it leads to is
  empty: the tool stops on every other one.\<close>

theorem symlink_not_archived:
  assumes "fe_Type e = SymbolicLink" and "fe_Rel e = Inr name" and "fe_Content e = Inr content" and "snd tw = 0"
  shows "walk_entry (Inr e) tw =
    (if content = [] then Inr (fst tw @ [(\<lparr>th_Typeflag = ''2'', th_Name = name, th_Mode = fe_Perm e,
         th_Linkname = fe_Name e, th_Size = 0, th_ModTime = 0, th_Owner = ''''\<rparr>, [])], 0)
     else fail ''could not write tar contents'' (Some (ErrLib ''archive/tar: write too long'')))"
  using assms by (simp add: walk_entry_def fail_def exit_bind_def FileInfoHeader_def
      WriteHeader_def tar_Copy_def)

section \<open>A concrete library\<close>

text \<open>Objects addressed by their content: an image is a number, an index its manifest, and a digest
  encodes what it stands for, so that equal manifests have equal digests. An object is found under
  its digest if the manifest lists it. All documented behaviours hold in it.\<close>

type_synonym sdesc = "string \<times> string \<times> int \<times> (string \<times> string) option"

type_synonym sidx = "sdesc list"

definition enc :: "descriptor \<Rightarrow> sdesc" where
  "enc d = (d_MediaType d, d_Digest d, d_Size d, map_option (\<lambda>p. (pl_OS p, pl_Architecture p)) (d_Platform d))"

definition dec :: "sdesc \<Rightarrow> descriptor" where
  "dec e = (case e of (m, dg, sz, p) \<Rightarrow> \<lparr>d_MediaType = m, d_Digest = dg, d_Size = sz,
     d_Platform = map_option (\<lambda>(os, arch). \<lparr>pl_OS = os, pl_Architecture = arch\<rparr>) p\<rparr>)"

lemma dec_enc [simp]: "dec (enc d) = d"
proof -
  have "map_option (\<lambda>x. \<lparr>pl_OS = pl_OS x, pl_Architecture = pl_Architecture x\<rparr>) p = p" for p :: "platform option"
    by (cases p) simp_all
  then show ?thesis by (cases d) (simp add: dec_def enc_def option.map_comp comp_def)
qed

definition img_digest :: "nat \<Rightarrow> string" where
  "img_digest n = CHR ''i'' # replicate n CHR ''x''"

definition idx_digest :: "sidx \<Rightarrow> string" where
  "idx_digest i = CHR ''m'' # replicate (to_nat i) CHR ''x''"

definition s_manifest :: "sidx \<Rightarrow> descriptor list" where
  "s_manifest i = map dec i"

definition s_image :: "sidx \<Rightarrow> string \<Rightarrow> goerr + nat" where
  "s_image i dg = (if dg \<in> d_Digest ` set (s_manifest i) \<and> dg = img_digest (length dg - 1)
     then Inr (length dg - 1) else Inl (ErrLib ''not found''))"

definition s_index :: "sidx \<Rightarrow> string \<Rightarrow> goerr + sidx" where
  "s_index i dg = (if dg \<in> d_Digest ` set (s_manifest i) \<and> dg = idx_digest (from_nat (length dg - 1))
     then Inr (from_nat (length dg - 1)) else Inl (ErrLib ''not found''))"

definition sample_oci :: "(sidx, nat, unit) oci" where
  "sample_oci = \<lparr>g_IsImage = (\<lambda>m. m = ''image''), g_IsIndex = (\<lambda>m. m = ''index''),
     g_IndexManifest = (\<lambda>i. Inr (s_manifest i)), g_Image = s_image, g_ImageIndex = s_index,
     g_ConfigPlatform = (\<lambda>_. Inr None), g_Image_MediaType = (\<lambda>_. Inr ''image''),
     g_Image_Digest = (\<lambda>x. Inr (img_digest x)), g_Image_Size = (\<lambda>x. Inr 1),
     g_Index_Digest = (\<lambda>i. Inr (idx_digest i)), g_Index_Size = (\<lambda>i. Inr 1),
     g_RemoveManifests = (\<lambda>i dg. filter (\<lambda>e. d_Digest (dec e) \<noteq> dg) i),
     g_AppendImage = (\<lambda>i x d. i @ [enc d]), g_AppendIndex = (\<lambda>i c d. i @ [enc d]), g_AppendLayers = (\<lambda>x _. Inr (Suc x)),
     g_LayerFromOpener = (\<lambda>_ _. Inr ())\<rparr>"

lemma digests_inj [simp]:
  "img_digest x = img_digest y \<longleftrightarrow> x = y" "idx_digest i = idx_digest j \<longleftrightarrow> i = j"
  "img_digest x \<noteq> idx_digest i" "idx_digest i \<noteq> img_digest x"
  by (simp_all add: img_digest_def idx_digest_def)

lemma sample_lookups:
  "s_image i dg = Inr x \<longleftrightarrow> dg \<in> d_Digest ` set (s_manifest i) \<and> dg = img_digest x"
  "s_index i dg = Inr c \<longleftrightarrow> dg \<in> d_Digest ` set (s_manifest i) \<and> dg = idx_digest c"
  by (auto simp: s_image_def s_index_def img_digest_def idx_digest_def)

lemma sample_lookups_kind [simp]:
  "s_image i (idx_digest c) = Inl (ErrLib ''not found'')" "s_index i (img_digest x) = Inl (ErrLib ''not found'')"
  by (simp_all add: s_image_def s_index_def)

lemma sample_lookups_same:
  assumes "dg \<in> d_Digest ` set (s_manifest i) \<longleftrightarrow> dg \<in> d_Digest ` set (s_manifest j)"
  shows "s_image i dg = s_image j dg" "s_index i dg = s_index j dg"
  using assms by (simp_all add: s_image_def s_index_def)

lemma s_manifest_simps [simp]:
  "s_manifest [] = []" "s_manifest (i @ [enc d]) = s_manifest i @ [d]" "s_manifest (enc d # i) = d # s_manifest i"
  "s_manifest (filter (\<lambda>e. d_Digest (dec e) \<noteq> dg) i) = filter (\<lambda>d. d_Digest d \<noteq> dg) (s_manifest i)"
  by (simp_all add: s_manifest_def filter_map comp_def)

lemma sample_append_image:
  assumes "img_digest x = d_Digest d"
  shows "s_image (i @ [enc d]) dg = (if dg = d_Digest d then Inr x else s_image i dg)"
    and "s_index (i @ [enc d]) dg = s_index i dg"
proof -
  show "s_image (i @ [enc d]) dg = (if dg = d_Digest d then Inr x else s_image i dg)"
  proof (cases "dg = d_Digest d")
    case True
    with assms show ?thesis by (simp add: sample_lookups(1))
  next
    case False
    then show ?thesis using sample_lookups_same(1) [of dg "i @ [enc d]" i] by simp
  qed
  show "s_index (i @ [enc d]) dg = s_index i dg"
    using sample_lookups_same(2) [of dg "i @ [enc d]" i] assms [symmetric] by (cases "dg = d_Digest d") simp_all
qed

lemma sample_append_index:
  assumes "idx_digest c = d_Digest d"
  shows "s_index (i @ [enc d]) dg = (if dg = d_Digest d then Inr c else s_index i dg)"
    and "s_image (i @ [enc d]) dg = s_image i dg"
proof -
  show "s_index (i @ [enc d]) dg = (if dg = d_Digest d then Inr c else s_index i dg)"
  proof (cases "dg = d_Digest d")
    case True
    with assms show ?thesis by (simp add: sample_lookups(2))
  next
    case False
    then show ?thesis using sample_lookups_same(2) [of dg "i @ [enc d]" i] by simp
  qed
  show "s_image (i @ [enc d]) dg = s_image i dg"
    using sample_lookups_same(1) [of dg "i @ [enc d]" i] assms [symmetric] by (cases "dg = d_Digest d") simp_all
qed

lemma sample_oci_laws: "remove_laws sample_oci" "append_laws sample_oci" "digest_laws sample_oci"
proof -
  have "s_image (filter (\<lambda>e. d_Digest (dec e) \<noteq> dg) i) dg' = s_image i dg' \<and>
      s_index (filter (\<lambda>e. d_Digest (dec e) \<noteq> dg) i) dg' = s_index i dg'" if "dg' \<noteq> dg" for i dg dg'
    by (intro conjI sample_lookups_same) (use that in auto)
  then show "remove_laws sample_oci" by (simp add: remove_laws_def sample_oci_def)
  show "append_laws sample_oci"
    by (simp add: append_laws_def sample_oci_def sample_append_image sample_append_index)
  show "digest_laws sample_oci" by (auto simp: digest_laws_def sample_oci_def sample_lookups)
qed

definition sample_descriptor :: "nat \<Rightarrow> descriptor" where
  "sample_descriptor n = \<lparr>d_MediaType = ''image'', d_Digest = img_digest n, d_Size = 1,
     d_Platform = Some \<lparr>pl_OS = ''linux'', pl_Architecture = ''amd64''\<rparr>\<rparr>"

definition sample_index :: sidx where
  "sample_index = [enc (sample_descriptor 0)]"

lemma sample_index_tree: "represents sample_oci sample_index [Leaf (sample_descriptor 0) 0]"
  by (simp add: represents_iff sample_oci_def sample_index_def sample_descriptor_def sample_lookups)

text \<open>An index with a nested one.\<close>

definition nested_descriptor :: descriptor where
  "nested_descriptor = \<lparr>d_MediaType = ''index'', d_Digest = idx_digest sample_index, d_Size = 1, d_Platform = None\<rparr>"

definition nested_index :: sidx where
  "nested_index = [enc nested_descriptor, enc (sample_descriptor 1)]"

definition nested_tree :: "nat tree list" where
  "nested_tree = [Node nested_descriptor [Leaf (sample_descriptor 0) 0], Leaf (sample_descriptor 1) 1]"

lemma nested_index_tree: "represents sample_oci nested_index nested_tree"
proof -
  have "holds sample_oci nested_index (Node nested_descriptor [Leaf (sample_descriptor 0) 0])"
    using sample_index_tree
    by (auto simp: sample_oci_def nested_index_def nested_descriptor_def sample_lookups)
  moreover have "holds sample_oci nested_index (Leaf (sample_descriptor 1) 1)"
    by (simp add: sample_oci_def nested_index_def sample_descriptor_def sample_lookups)
  moreover have "g_IndexManifest sample_oci nested_index = Inr (map t_desc nested_tree)"
    by (simp add: sample_oci_def nested_index_def nested_tree_def)
  ultimately show ?thesis unfolding nested_tree_def by (subst represents_iff) simp
qed

abbreviation nested_digests :: "string set" where
  "nested_digests \<equiv> {idx_digest sample_index, img_digest 0, img_digest 1}"

lemma nested_closed: "closed_digests sample_oci nested_digests"
  by (auto simp: closed_digests_def sample_oci_def sample_index_def sample_descriptor_def)

theorem images_of_architecture_witness:
  "getImagesFromIndex sample_oci (\<lambda>_. True) sample_index = Some (Inr [0]) \<and>
   ConvertToDockerTar sample_oci ''amd64'' (Inr (Inr sample_index)) (\<lambda>_. Inr ()) (\<lambda>_ _. None) ''img'' = Some (Inr 0)"
proof -
  have known: "platforms_known sample_oci (leaves [Leaf (sample_descriptor 0) 0])"
    by (simp add: platforms_known_def platform_of_def sample_descriptor_def)
  have sel: "selected sample_oci (\<lambda>_. True) (leaves [Leaf (sample_descriptor 0) 0]) = [0]"
    "selected sample_oci (\<lambda>d. \<exists>p. d_Platform d = Some p \<and> pl_Architecture p = ''amd64'')
       (leaves [Leaf (sample_descriptor 0) 0]) = [0]"
    by (simp_all add: selected_def matches_def platform_of_def sample_descriptor_def)
  from images_of_architecture [OF sample_index_tree known, of "\<lambda>_. True" "''amd64''" "\<lambda>_. Inr ()"
      "\<lambda>_ _. None" "''img''", unfolded sel]
  obtain r where r: "getImagesFromIndex sample_oci (\<lambda>_. True) sample_index = Some (Inr [0])"
    "ConvertToDockerTar sample_oci ''amd64'' (Inr (Inr sample_index)) (\<lambda>_. Inr ()) (\<lambda>_ _. None) ''img'' = Some r"
    "\<forall>img. r = Inr img \<longleftrightarrow> [0] = [img] \<and> (\<exists>ref. Inr () = Inr ref \<and> None = None)" by blast
  from r(3) [THEN spec, of 0] have "r = Inr 0" by simp
  with r(1,2) show ?thesis by simp
qed

theorem mutateImage_changes_all_witness:
  "\<exists>idx' ts'. mutateImage sample_oci (\<lambda>x. Inr (x + 10)) nested_index = Some (Inr idx') \<and>
     represents sample_oci idx' ts' \<and> map snd (leaves ts') = [10, 11]"
proof -
  have ok: "distinct (map t_digest nested_tree)" "list_all (tree_ok nested_digests) nested_tree"
    by (simp_all add: nested_tree_def nested_descriptor_def sample_descriptor_def)
  have ch: "changeable sample_oci (\<lambda>x. Inr (x + 10)) nested_digests nested_tree"
    by (simp add: changeable_def sample_oci_def nested_tree_def)
  obtain idx' ts' where "mutateImage sample_oci (\<lambda>x. Inr (x + 10)) nested_index = Some (Inr idx')"
    "represents sample_oci idx' ts'"
    "list_all2 (leaf_changed (\<lambda>x. Inr (x + 10))) (leaves nested_tree) (leaves ts')"
    using mutateImage_changes_all [OF sample_oci_laws nested_closed nested_index_tree ok ch] by blast
  moreover from this(3) have "map snd (leaves ts') = [10, 11]"
    by (auto simp: nested_tree_def list_all2_Cons1 leaf_changed_def)
  ultimately show ?thesis by (intro exI conjI)
qed

definition sample_file :: "int \<Rightarrow> string \<Rightarrow> file_entry" where
  "sample_file time owner = \<lparr>fe_Rel = Inr ''a.txt'', fe_Name = ''a.txt'', fe_Type = RegularFile, fe_Perm = 420,
     fe_Size = 2, fe_ModTime = time, fe_Owner = owner, fe_Content = Inr ''hi''\<rparr>"

theorem layer_reproducible_witness:
  "newUntypedLayerFromPath (\<lambda>_. Inr True) (\<lambda>_. [Inr (sample_file 1 ''root'')]) ''dir'' =
   newUntypedLayerFromPath (\<lambda>_. Inr True) (\<lambda>_. [Inr (sample_file 2 ''user'')]) ''dir''"
  by (rule layer_reproducible) (simp add: anonymous_def sample_file_def)

end
