(* ===== verification/AP_PolicyStore.thy ===== *)
theory AP_PolicyStore
  imports AP_PolicyController
begin

text \<open>
  The policies of a cluster: users create, change and delete them through the admission webhook, and
  the policy controller records on them whether the approvers find them ready. The manager's
  predicate \<^verbatim>\<open>Ready\<close> and its evaluators work on what is stored here. A step relation describes how the
  stored policies change; the invariant says where every version that a cache may show comes from.

  Reads may be stale: a reconcile or a review may see any version that a policy ever had, also one of
  a policy that was deleted since. The status patch names its target only, so it may land on a policy
  that was created again under that name. The API server gives each created policy a UID that no
  other policy had, counts the versions of a specification in the generation, keeps the status on
  changes of the specification, and merges the conditions of a patch into the stored ones by their
  type, as the resource declares (\<^verbatim>\<open>listMapKey=type\<close>); it may refuse any patch. Nobody else writes the
  status.
\<close>

section \<open>The store\<close>

record 'p policy_store =
  ps_policies :: "string \<rightharpoonup> CertificateRequestPolicy"
  ps_versions :: "CertificateRequestPolicy set"
  ps_runs :: "(CertificateRequestPolicy \<times> ReconcilerReadyResponse list) set"
  ps_cache :: "'p cache"

text \<open>\<open>ps_versions\<close> are all versions that policies had so far, \<open>ps_runs\<close> the reconciles so far in which
  every approver answered: the version they read and the answers.\<close>

record 'p store_env =
  se_registered :: "string list"
  se_reconcilers :: "'p cache ready_fn list"
  se_Marshal :: "PolicyStatus applyConfiguration \<Rightarrow> goerr + string"
  se_Unmarshal :: "string \<Rightarrow> PolicyStatus applyConfiguration"
  se_Patch :: "patch_target \<Rightarrow> string \<Rightarrow> goerr option"

definition store_validator :: "('u, 'e, 'a, 'p) extern \<Rightarrow> 'p store_env \<Rightarrow> 'p cache webhook_validator" where
  "store_validator x env =
     \<lparr>wh_registeredPlugins = se_registered env, wh_webhooks = Webhooks (builtin_registry x)\<rparr>"

text \<open>A reconcile of the policy \<open>v\<close>, as the controller's cache shows it.\<close>

definition policy_controller_at ::
  "'p store_env \<Rightarrow> CertificateRequestPolicy \<Rightarrow> int \<Rightarrow> 'p cache certificaterequestpolicies" where
  "policy_controller_at env v now =
     \<lparr>pol_Get = (\<lambda>name. if name = p_Name v then Inr v else Inl (ErrLib ''not found'')), pol_Now = now,
      pol_reconcilers = se_reconcilers env, pol_Marshal = se_Marshal env, pol_Patch = se_Patch env\<rparr>"

text \<open>What the API server does with a new specification and with a patch of the status.\<close>

definition with_spec :: "PolicySpec \<Rightarrow> CertificateRequestPolicy \<Rightarrow> CertificateRequestPolicy" where
  "with_spec spec p =
     p\<lparr>p_Spec := spec, p_Generation := (if spec = p_Spec p then p_Generation p else p_Generation p + 1)\<rparr>"

primrec merge_condition :: "PolicyCondition \<Rightarrow> PolicyCondition list \<Rightarrow> PolicyCondition list" where
  "merge_condition new [] = [new]"
| "merge_condition new (c # cs) = (if pc_Type c = pc_Type new then new # cs else c # merge_condition new cs)"

definition with_status :: "PolicyStatus \<Rightarrow> CertificateRequestPolicy \<Rightarrow> CertificateRequestPolicy" where
  "with_status st p =
     p\<lparr>p_Status := \<lparr>p_Conditions = foldl (\<lambda>cs c. merge_condition c cs) (p_Conditions (p_Status p)) (p_Conditions st)\<rparr>\<rparr>"

definition put_policy :: "CertificateRequestPolicy \<Rightarrow> 'p policy_store \<Rightarrow> 'p policy_store" where
  "put_policy p s =
     s\<lparr>ps_policies := (ps_policies s)(p_Name p \<mapsto> p), ps_versions := insert p (ps_versions s)\<rparr>"

definition apply_policy_call :: "'p store_env \<Rightarrow> ctl_call \<Rightarrow> 'p policy_store \<Rightarrow> 'p policy_store" where
  "apply_policy_call env call s =
     (case call of
        RecordEvent _ _ _ \<Rightarrow> s
      | StatusPatch target _ bytes \<Rightarrow>
          (case (se_Patch env target bytes, ps_policies s (pt_Name target), ac_Status (se_Unmarshal env bytes)) of
             (None, Some p, Some st) \<Rightarrow> put_policy (with_status st p) s
           | _ \<Rightarrow> s))"

text \<open>The steps. A reconcile in which an approver panics ends the process and is no step.\<close>

inductive store_step ::
  "('u, 'e, 'a, 'p) extern \<Rightarrow> 'p store_env \<Rightarrow> 'p policy_store \<Rightarrow> 'p policy_store \<Rightarrow> bool" for x env where
  create: "ps_policies s (p_Name p) = None \<Longrightarrow> p_UID p \<notin> p_UID ` ps_versions s \<Longrightarrow> p_Generation p = 1 \<Longrightarrow> p_Conditions (p_Status p) = [] \<Longrightarrow>
    ValidateCreate x (store_validator x env) (PolicyObject p) (ps_cache s) = Returns ((warnings, None), c) \<Longrightarrow>
    store_step x env s (put_policy p (s\<lparr>ps_cache := c\<rparr>))"
| update: "ps_policies s name = Some p \<Longrightarrow>
    ValidateUpdate x (store_validator x env) (PolicyObject p) (PolicyObject (with_spec spec p)) (ps_cache s) =
      Returns ((warnings, None), c) \<Longrightarrow>
    store_step x env s (put_policy (with_spec spec p) (s\<lparr>ps_cache := c\<rparr>))"
| reject: "validate x (store_validator x env) obj (ps_cache s) = Returns ((warnings, Some err), c) \<Longrightarrow>
    store_step x env s (s\<lparr>ps_cache := c\<rparr>)"
| delete: "ValidateDelete (store_validator x env) obj (ps_cache s) = Returns ((warnings, None), c) \<Longrightarrow>
    store_step x env s (s\<lparr>ps_policies := (ps_policies s)(name := None), ps_cache := c\<rparr>)"
| reconcile: "v \<in> ps_versions s \<Longrightarrow>
    go_collect (map (\<lambda>f. f v) (se_reconcilers env)) (ps_cache s) = Returns (r, c) \<Longrightarrow>
    crp_Reconcile x (policy_controller_at (env\<lparr>se_Patch := patch\<rparr>) v now) (p_Name v) (ps_cache s, []) =
      Returns (answer, (c, log)) \<Longrightarrow>
    store_step x env s (foldl (\<lambda>s call. apply_policy_call (env\<lparr>se_Patch := patch\<rparr>) call s)
      (s\<lparr>ps_cache := c, ps_runs := ps_runs s \<union> (case r of Inl e \<Rightarrow> {} | Inr rs \<Rightarrow> {(v, rs)})\<rparr>) log)"

definition store_init :: "'p policy_store" where
  "store_init = \<lparr>ps_policies = Map.empty, ps_versions = {}, ps_runs = {}, ps_cache = NewCache\<rparr>"

inductive store_reachable ::
  "('u, 'e, 'a, 'p) extern \<Rightarrow> 'p store_env \<Rightarrow> 'p policy_store \<Rightarrow> bool" for x env where
  init: "store_reachable x env store_init"
| step: "store_reachable x env s \<Longrightarrow> store_step x env s t \<Longrightarrow> store_reachable x env t"

text \<open>What a round trip through JSON keeps of a status: the conditions in their order, with the observed
  generation, and with type and status as far as these are ASCII. Approvers leave the shared cache
  in order.\<close>

definition policy_condition_key :: "PolicyCondition \<Rightarrow> string \<times> string \<times> int" where
  "policy_condition_key c = (pc_Type c, pc_Status c, pc_ObservedGeneration c)"

definition policy_json_roundtrip :: "'p store_env \<Rightarrow> bool" where
  "policy_json_roundtrip env \<longleftrightarrow> (\<forall>conf st bytes.
     se_Marshal env conf = Inr bytes \<and> ac_Status conf = Some st \<and>
     (\<forall>c \<in> set (p_Conditions st). is_ascii (pc_Type c) \<and> is_ascii (pc_Status c)) \<longrightarrow>
     (\<exists>st'. ac_Status (se_Unmarshal env bytes) = Some st' \<and>
        map policy_condition_key (p_Conditions st') = map policy_condition_key (p_Conditions st)))"

definition reconcilers_keep_cache :: "('u, 'e, 'a, 'p) extern \<Rightarrow> 'p store_env \<Rightarrow> bool" where
  "reconcilers_keep_cache x env \<longleftrightarrow>
     (\<forall>f \<in> set (se_reconcilers env). \<forall>p c r c'. cache_ok x c \<longrightarrow> f p c = Returns (r, c') \<longrightarrow> cache_ok x c')"

section \<open>What a reconcile sends\<close>

lemma crp_Reconcile_calls:
  assumes "pol_Get c name = Inr policy"
    and "go_collect (map (\<lambda>f. f policy) (pol_reconcilers c)) s = Returns (r, s')"
  shows "\<exists>answer. crp_Reconcile x c name (s, log) = Returns (answer, (s', log @
     (case r of
        Inl e \<Rightarrow> []
      | Inr rs \<Rightarrow> readiness_event x rs #
          (case pol_Marshal c (CertificateRequestPolicyStatusConfiguration name
                  \<lparr>p_Conditions = [readiness_condition x (pol_Now c) policy rs]\<rparr>) of
             Inl e \<Rightarrow> [] | Inr bytes \<Rightarrow> [ApplyPatch \<lparr>pt_Name = name, pt_Namespace = ''''\<rparr> bytes]))))"
proof (cases r)
  case (Inl e)
  with run_reconcilers_responses [OF assms(2), of x name no_result True "[]"] assms(1) show ?thesis
    by (simp add: crp_Reconcile_def crp_reconcileStatusPatch_def go_bind_def go_fst_def go_ret_def)
next
  case (Inr rs)
  note run = crp_reconcileStatusPatch_responses [OF assms(1) assms(2) [unfolded Inr], of x log]
  then show ?thesis
    using Inr
    by (auto simp: crp_Reconcile_def GenerateCertificateRequestPolicyStatusPatch_def go_bind_def
        go_ret_def say_def Let_def split: sum.splits option.splits)
qed

section \<open>The invariant\<close>

text \<open>A condition that says \<^verbatim>\<open>Ready\<close> was written by a reconcile in which all approvers were ready, on a
  version of the policy with the observed generation.\<close>

definition found_ready ::
  "'p policy_store \<Rightarrow> string \<Rightarrow> int \<Rightarrow> CertificateRequestPolicy \<Rightarrow> bool" where
  "found_ready s name g w \<longleftrightarrow> w \<in> ps_versions s \<and> p_Name w = name \<and> p_Generation w = g \<and>
     (\<exists>rs. (w, rs) \<in> ps_runs s \<and> (\<forall>resp \<in> set rs. rr_Ready resp))"

definition conditions_ok :: "'p policy_store \<Rightarrow> CertificateRequestPolicy \<Rightarrow> bool" where
  "conditions_ok s v \<longleftrightarrow>
     (\<forall>c \<in> set (p_Conditions (p_Status v)). pc_Type c = ConditionReady \<and> pc_Status c = ConditionTrue \<longrightarrow>
        (\<exists>w. found_ready s (p_Name v) (pc_ObservedGeneration c) w))"

definition store_inv :: "('u, 'e, 'a, 'p) extern \<Rightarrow> 'p store_env \<Rightarrow> 'p policy_store \<Rightarrow> bool" where
  "store_inv x env s \<longleftrightarrow> cache_ok x (ps_cache s) \<and>
     (\<forall>name p. ps_policies s name = Some p \<longrightarrow> p_Name p = name \<and> p \<in> ps_versions s) \<and>
     (\<forall>v \<in> ps_versions s. policy_admissible x (se_registered env) v \<and> conditions_ok s v) \<and>
     (\<forall>v \<in> ps_versions s. \<forall>w \<in> ps_versions s. p_UID v = p_UID w \<longrightarrow> p_Name v = p_Name w) \<and>
     (\<forall>v \<in> ps_versions s. \<forall>name p. ps_policies s name = Some p \<and> p_UID v = p_UID p \<longrightarrow>
        p_Generation v \<le> p_Generation p) \<and>
     (\<forall>v \<in> ps_versions s. \<forall>w \<in> ps_versions s.
        p_UID v = p_UID w \<and> p_Generation v = p_Generation w \<longrightarrow> p_Spec v = p_Spec w)"

lemma store_invD:
  assumes "store_inv x env s"
  shows "cache_ok x (ps_cache s)"
    and "ps_policies s name = Some p \<Longrightarrow> p_Name p = name"
    and "ps_policies s name = Some p \<Longrightarrow> p \<in> ps_versions s"
    and "v \<in> ps_versions s \<Longrightarrow> policy_admissible x (se_registered env) v"
    and "v \<in> ps_versions s \<Longrightarrow> conditions_ok s v"
    and "v \<in> ps_versions s \<Longrightarrow> w \<in> ps_versions s \<Longrightarrow> p_UID v = p_UID w \<Longrightarrow> p_Name v = p_Name w"
    and "v \<in> ps_versions s \<Longrightarrow> ps_policies s name = Some p \<Longrightarrow> p_UID v = p_UID p \<Longrightarrow>
      p_Generation v \<le> p_Generation p"
    and "v \<in> ps_versions s \<Longrightarrow> w \<in> ps_versions s \<Longrightarrow> p_UID v = p_UID w \<Longrightarrow>
      p_Generation v = p_Generation w \<Longrightarrow> p_Spec v = p_Spec w"
  using assms unfolding store_inv_def by blast+

lemma store_invI:
  assumes "cache_ok x (ps_cache s)"
    and "\<And>name p. ps_policies s name = Some p \<Longrightarrow> p_Name p = name \<and> p \<in> ps_versions s"
    and "\<And>v. v \<in> ps_versions s \<Longrightarrow> policy_admissible x (se_registered env) v"
    and "\<And>v. v \<in> ps_versions s \<Longrightarrow> conditions_ok s v"
    and "\<And>v w. v \<in> ps_versions s \<Longrightarrow> w \<in> ps_versions s \<Longrightarrow> p_UID v = p_UID w \<Longrightarrow> p_Name v = p_Name w"
    and "\<And>v name p. v \<in> ps_versions s \<Longrightarrow> ps_policies s name = Some p \<Longrightarrow> p_UID v = p_UID p \<Longrightarrow>
      p_Generation v \<le> p_Generation p"
    and "\<And>v w. v \<in> ps_versions s \<Longrightarrow> w \<in> ps_versions s \<Longrightarrow> p_UID v = p_UID w \<Longrightarrow>
      p_Generation v = p_Generation w \<Longrightarrow> p_Spec v = p_Spec w"
  shows "store_inv x env s"
  using assms unfolding store_inv_def by blast

lemma store_inv_init: "store_inv x env store_init"
  by (simp add: store_inv_def store_init_def cache_ok_empty)

lemma conditions_ok_mono:
  assumes "conditions_ok s v" and "ps_runs s \<subseteq> ps_runs t"
    and "\<And>w. w \<in> ps_versions s \<Longrightarrow> p_Name w = p_Name v \<Longrightarrow> w \<in> ps_versions t"
  shows "conditions_ok t v"
  using assms unfolding conditions_ok_def found_ready_def by blast

lemma store_inv_frame:
  assumes inv: "store_inv x env s" and same: "ps_versions t = ps_versions s"
    and sub: "ps_policies t \<subseteq>\<^sub>m ps_policies s" and "ps_runs s \<subseteq> ps_runs t" and "cache_ok x (ps_cache t)"
  shows "store_inv x env t"
proof (rule store_invI, unfold same)
  have stored: "ps_policies s name = Some p" if "ps_policies t name = Some p" for name p
    using sub that by (auto simp: map_le_def dom_def)
  show "conditions_ok t v" if "v \<in> ps_versions s" for v
    using store_invD(5) [OF inv that] by (rule conditions_ok_mono) (simp_all add: assms(4) same)
  show "p_Name p = name \<and> p \<in> ps_versions s" if "ps_policies t name = Some p" for name p
    using store_invD(2,3) [OF inv stored [OF that]] by blast
  show "p_Generation v \<le> p_Generation p"
    if "v \<in> ps_versions s" "ps_policies t name = Some p" "p_UID v = p_UID p" for v name p
    by (rule store_invD(7) [OF inv that(1) stored [OF that(2)] that(3)])
  show "cache_ok x (ps_cache t)" by (rule assms(5))
qed (rule store_invD(4,6,8) [OF inv]; assumption)+

lemma put_policy_simps [simp]:
  "ps_policies (put_policy p s) = (ps_policies s)(p_Name p \<mapsto> p)"
  "ps_versions (put_policy p s) = insert p (ps_versions s)"
  "ps_runs (put_policy p s) = ps_runs s" "ps_cache (put_policy p s) = ps_cache s"
  by (simp_all add: put_policy_def)

text \<open>A new version keeps the invariant if it is admissible, its conditions are in order, its policy
  has no later generation, and it does not give an old generation another specification.\<close>

lemma store_inv_put:
  assumes inv: "store_inv x env s" and "policy_admissible x (se_registered env) p" and "conditions_ok s p"
    and old: "\<And>v. v \<in> ps_versions s \<Longrightarrow> p_UID v = p_UID p \<Longrightarrow> p_Name v = p_Name p \<and> p_Generation v \<le> p_Generation p"
    and same: "\<And>v. v \<in> ps_versions s \<Longrightarrow> p_UID v = p_UID p \<Longrightarrow> p_Generation v = p_Generation p \<Longrightarrow>
      p_Spec v = p_Spec p"
  shows "store_inv x env (put_policy p s)"
proof (rule store_invI)
  have cond: "conditions_ok (put_policy p s) v" if "conditions_ok s v" for v
    by (rule conditions_ok_mono [OF that]) simp_all
  show "cache_ok x (ps_cache (put_policy p s))" using store_invD(1) [OF inv] by simp
  show "p_Name q = name \<and> q \<in> ps_versions (put_policy p s)"
    if "ps_policies (put_policy p s) name = Some q" for name q
    using that store_invD(2,3) [OF inv] by (auto split: if_splits)
  show "policy_admissible x (se_registered env) v" "conditions_ok (put_policy p s) v"
    if "v \<in> ps_versions (put_policy p s)" for v
    using that assms(2,3) cond store_invD(4,5) [OF inv] by auto
  show "p_Name v = p_Name w"
    if "v \<in> ps_versions (put_policy p s)" "w \<in> ps_versions (put_policy p s)" "p_UID v = p_UID w" for v w
    using that old [of v] old [of w] store_invD(6) [OF inv, of v w]
    unfolding put_policy_simps insert_iff by metis
  show "p_Spec v = p_Spec w"
    if "v \<in> ps_versions (put_policy p s)" "w \<in> ps_versions (put_policy p s)"
      "p_UID v = p_UID w" "p_Generation v = p_Generation w" for v w
    using that(1,2) same [of v] same [of w] store_invD(8) [OF inv, of v w] that(3,4)
    unfolding put_policy_simps insert_iff by metis
next
  fix v name q
  assume v: "v \<in> ps_versions (put_policy p s)" and q: "ps_policies (put_policy p s) name = Some q"
    and uid: "p_UID v = p_UID q"
  show "p_Generation v \<le> p_Generation q"
  proof (cases "name = p_Name p")
    case True
    with q have "q = p" by simp
    with v uid old [of v] show ?thesis by auto
  next
    case False
    with q have stored: "ps_policies s name = Some q" by simp
    have "p_UID q \<noteq> p_UID p" using old [OF store_invD(3) [OF inv stored]] store_invD(2) [OF inv stored] False by auto
    with uid have "v \<noteq> p" by auto
    with v store_invD(7) [OF inv _ stored uid] show ?thesis by simp
  qed
qed

lemma store_inv_create:
  assumes inv: "store_inv x env s" and "policy_admissible x (se_registered env) p"
    and "p_UID p \<notin> p_UID ` ps_versions s" and "p_Conditions (p_Status p) = []"
  shows "store_inv x env (put_policy p s)"
proof (rule store_inv_put [OF inv assms(2)])
  show "conditions_ok s p" using assms(4) by (simp add: conditions_ok_def)
qed (use assms(3) in \<open>metis imageI\<close>)+

text \<open>A later version of a stored policy.\<close>

lemma store_inv_again:
  assumes inv: "store_inv x env s" and q: "ps_policies s name = Some q"
    and "policy_admissible x (se_registered env) p" and "conditions_ok s p"
    and ids: "p_UID p = p_UID q" "p_Name p = p_Name q"
    and step: "p_Generation p = p_Generation q \<and> p_Spec p = p_Spec q \<or> p_Generation p = p_Generation q + 1"
  shows "store_inv x env (put_policy p s)"
proof (rule store_inv_put [OF inv assms(3,4)])
  fix v assume v: "v \<in> ps_versions s" "p_UID v = p_UID p"
  have mem: "q \<in> ps_versions s" by (rule store_invD(3) [OF inv q])
  have uid: "p_UID v = p_UID q" using v(2) ids(1) by simp
  have le: "p_Generation v \<le> p_Generation q" by (rule store_invD(7) [OF inv v(1) q uid])
  show "p_Name v = p_Name p \<and> p_Generation v \<le> p_Generation p"
    using store_invD(6) [OF inv v(1) mem uid] ids(2) le step by auto
  show "p_Spec v = p_Spec p" if "p_Generation v = p_Generation p"
    using store_invD(8) [OF inv v(1) mem uid] that le step by auto
qed

lemma store_inv_update:
  assumes inv: "store_inv x env s" and p: "ps_policies s name = Some p"
    and adm: "policy_admissible x (se_registered env) (with_spec spec p)"
  shows "store_inv x env (put_policy (with_spec spec p) s)"
proof (rule store_inv_again [OF inv p adm])
  show "conditions_ok s (with_spec spec p)"
    using store_invD(5) [OF inv store_invD(3) [OF inv p]] by (simp add: conditions_ok_def with_spec_def)
qed (auto simp: with_spec_def)

lemma with_status_simps [simp]:
  "p_Name (with_status st p) = p_Name p" "p_Generation (with_status st p) = p_Generation p"
  "p_Spec (with_status st p) = p_Spec p" "p_UID (with_status st p) = p_UID p"
  by (simp_all add: with_status_def)

lemma policy_admissible_spec: "p_Spec p = p_Spec q \<Longrightarrow> policy_admissible x reg p = policy_admissible x reg q"
  by (simp add: policy_admissible_def plugins_known_def selector_valid_def)

lemma merge_condition_set: "set (merge_condition new cs) \<subseteq> insert new (set cs)"
  by (induction cs) auto

lemma readiness_condition_simps [simp]:
  "pc_Type (readiness_condition x now v rs) = ConditionReady"
  "pc_Status (readiness_condition x now v rs) =
     (if \<forall>resp \<in> set rs. rr_Ready resp then ConditionTrue else ConditionFalse)"
  "pc_ObservedGeneration (readiness_condition x now v rs) = p_Generation v"
  by (simp_all add: readiness_condition_def Let_def)

lemma store_inv_patch:
  assumes inv: "store_inv x env s" and p: "ps_policies s (p_Name v) = Some p"
    and run: "v \<in> ps_versions s" "(v, rs) \<in> ps_runs s"
    and c: "policy_condition_key c = policy_condition_key (readiness_condition x now v rs)"
  shows "store_inv x env (put_policy (with_status \<lparr>p_Conditions = [c]\<rparr> p) s)"
proof -
  let ?p = "with_status \<lparr>p_Conditions = [c]\<rparr> p"
  have name: "p_Name p = p_Name v" and mem: "p \<in> ps_versions s" using store_invD(2,3) [OF inv p] by simp_all
  have new: "\<exists>w. found_ready s (p_Name v) (pc_ObservedGeneration c) w" if "pc_Status c = ConditionTrue"
    using that run c by (intro exI [of _ v]) (auto simp: found_ready_def policy_condition_key_def split: if_splits)
  have "set (p_Conditions (p_Status ?p)) \<subseteq> insert c (set (p_Conditions (p_Status p)))"
    using merge_condition_set by (simp add: with_status_def)
  then have cond: "conditions_ok s ?p"
    using store_invD(5) [OF inv mem] new name unfolding conditions_ok_def by auto
  have "policy_admissible x (se_registered env) ?p"
    using store_invD(4) [OF inv mem] by (simp add: policy_admissible_spec [of ?p p])
  from store_inv_again [OF inv p this cond] show ?thesis by simp
qed

lemma readiness_transported:
  assumes "policy_json_roundtrip env"
    and "se_Marshal env (CertificateRequestPolicyStatusConfiguration name
           \<lparr>p_Conditions = [readiness_condition x now v rs]\<rparr>) = Inr bytes"
  shows "\<exists>c. ac_Status (se_Unmarshal env bytes) = Some \<lparr>p_Conditions = [c]\<rparr> \<and>
           policy_condition_key c = policy_condition_key (readiness_condition x now v rs)"
proof -
  let ?c = "readiness_condition x now v rs"
  have "is_ascii (pc_Type ?c) \<and> is_ascii (pc_Status ?c)" by (simp add: is_ascii_def)
  then obtain st where st: "ac_Status (se_Unmarshal env bytes) = Some st"
    "map policy_condition_key (p_Conditions st) = [policy_condition_key ?c]"
    using assms
    by (fastforce simp: policy_json_roundtrip_def CertificateRequestPolicyStatusConfiguration_def
        simp del: readiness_condition_simps)
  then obtain c where "p_Conditions st = [c]" "policy_condition_key c = policy_condition_key ?c" by auto
  with st(1) show ?thesis by (intro exI [of _ c]) simp
qed

lemma go_collect_keeps:
  assumes "\<And>m s r s'. m \<in> set ms \<Longrightarrow> good s \<Longrightarrow> m s = Returns (r, s') \<Longrightarrow> good s'"
    and "good s" and "go_collect ms s = Returns (r, s')"
  shows "good s'"
  using assms
proof (induction ms arbitrary: s r)
  case Nil
  then show ?case by (simp add: go_ret_def)
next
  case (Cons m ms)
  from Cons.prems(3) show ?case
  proof (cases rule: go_collect_Cons)
    case (error e)
    with Cons.prems(1) [of m s "Inl e" s'] Cons.prems(2) show ?thesis by simp
  next
    case (answer a s1 r')
    then have "good s1" using Cons.prems(1,2) by fastforce
    with Cons.IH [OF _ _ answer(2)] Cons.prems(1) show ?thesis by (meson list.set_intros(2))
  qed
qed

lemma apply_policy_event [simp]: "apply_policy_call env (readiness_event x rs) s = s"
  by (simp add: apply_policy_call_def readiness_event_def)

lemma store_inv_reconcile:
  assumes docs: "policy_json_roundtrip env" "reconcilers_keep_cache x env"
    and inv: "store_inv x env s" and v: "v \<in> ps_versions s"
    and asked: "go_collect (map (\<lambda>f. f v) (se_reconcilers env)) (ps_cache s) = Returns (r, c)"
    and run: "crp_Reconcile x (policy_controller_at env v now) (p_Name v) (ps_cache s, []) = Returns (answer, (c, log))"
  shows "store_inv x env (foldl (\<lambda>s call. apply_policy_call env call s)
      (s\<lparr>ps_cache := c, ps_runs := ps_runs s \<union> (case r of Inl e \<Rightarrow> {} | Inr rs \<Rightarrow> {(v, rs)})\<rparr>) log)"
proof -
  let ?s = "s\<lparr>ps_cache := c, ps_runs := ps_runs s \<union> (case r of Inl e \<Rightarrow> {} | Inr rs \<Rightarrow> {(v, rs)})\<rparr>"
  have "cache_ok x c"
    by (rule go_collect_keeps [where good = "cache_ok x", OF _ store_invD(1) [OF inv] asked])
      (use docs(2) in \<open>auto simp: reconcilers_keep_cache_def\<close>)
  then have inv': "store_inv x env ?s" by (intro store_inv_frame [OF inv]) auto
  have "pol_Get (policy_controller_at env v now) (p_Name v) = Inr v"
    "pol_reconcilers (policy_controller_at env v now) = se_reconcilers env"
    "pol_Marshal (policy_controller_at env v now) = se_Marshal env" "pol_Now (policy_controller_at env v now) = now"
    by (simp_all add: policy_controller_at_def)
  note calls = crp_Reconcile_calls [of "policy_controller_at env v now" "p_Name v" v "ps_cache s" r c x "[]",
      unfolded this, OF refl asked]
  show ?thesis
  proof (cases r)
    case (Inl e)
    with calls run inv' show ?thesis by auto
  next
    case (Inr rs)
    let ?st = "\<lparr>p_Conditions = [readiness_condition x now v rs]\<rparr>"
    let ?conf = "CertificateRequestPolicyStatusConfiguration (p_Name v) ?st"
    show ?thesis
    proof (cases "se_Marshal env ?conf")
      case (Inl e)
      with \<open>r = Inr rs\<close> calls run inv' show ?thesis by auto
    next
      case bytes: (Inr bytes)
      from readiness_transported [OF docs(1) this] obtain c' where
        "ac_Status (se_Unmarshal env bytes) = Some \<lparr>p_Conditions = [c']\<rparr>"
        "policy_condition_key c' = policy_condition_key (readiness_condition x now v rs)" by blast
      moreover from this(2) have "store_inv x env (put_policy (with_status \<lparr>p_Conditions = [c']\<rparr> p) ?s)"
        if "ps_policies s (p_Name v) = Some p" for p
        using that v Inr by (intro store_inv_patch [OF inv', where rs = rs and v = v and now = now]) auto
      moreover have "log = [readiness_event x rs, ApplyPatch \<lparr>pt_Name = p_Name v, pt_Namespace = ''''\<rparr> bytes]"
        using calls run Inr bytes by auto
      ultimately show ?thesis
        using inv' by (auto simp: apply_policy_call_def [of env "ApplyPatch _ _"] split: option.split)
    qed
  qed
qed

lemma admitted:
  assumes "ToAggregate_doc x" and "NewAggregate_doc x" and "cache_ok x c"
    and "validate x (store_validator x env) (PolicyObject p) c = Returns ((warnings, err), c')"
  shows "cache_ok x c'" and "err = None \<longleftrightarrow> policy_admissible x (se_registered env) p"
  using validate_builtin_result [OF assms(1-3), of "se_registered env" p] assms(4)
  by (auto simp: store_validator_def)

lemma store_inv_step:
  assumes docs: "ToAggregate_doc x" "NewAggregate_doc x" "policy_json_roundtrip env" "reconcilers_keep_cache x env"
    and step: "store_step x env s t" and inv: "store_inv x env s"
  shows "store_inv x env t"
  using step
proof (cases rule: store_step.cases)
  case (create p warnings c)
  note ok = admitted [OF docs(1,2) store_invD(1) [OF inv] create(6) [unfolded ValidateCreate_def]]
  have "store_inv x env (s\<lparr>ps_cache := c\<rparr>)" by (rule store_inv_frame [OF inv]) (simp_all add: ok(1))
  with create(1-5) ok(2) show ?thesis by (simp add: store_inv_create)
next
  case (update name p spec warnings c)
  note ok = admitted [OF docs(1,2) store_invD(1) [OF inv] update(3) [unfolded ValidateUpdate_def]]
  have "store_inv x env (s\<lparr>ps_cache := c\<rparr>)" by (rule store_inv_frame [OF inv]) (simp_all add: ok(1))
  with update(1,2) ok(2) show ?thesis by (simp add: store_inv_update [of x env _ name])
next
  case (reject obj warnings err c)
  have "cache_ok x c"
  proof (cases obj)
    case (PolicyObject p)
    with reject(2) admitted(1) [OF docs(1,2) store_invD(1) [OF inv]] show ?thesis by blast
  next
    case (OtherObject t)
    with reject(2) store_invD(1) [OF inv] show ?thesis by (auto simp: validate_def go_ret_def)
  qed
  with reject(1) show ?thesis by (simp add: store_inv_frame [OF inv])
next
  case (delete obj warnings c name)
  then have "c = ps_cache s" by (simp add: ValidateDelete_def go_ret_def)
  with delete(1) store_invD(1) [OF inv] show ?thesis
    by (intro store_inv_frame [OF inv]) (auto simp: map_le_def)
next
  case (reconcile v r c patch now answer log)
  let ?env = "env\<lparr>se_Patch := patch\<rparr>"
  have same: "policy_json_roundtrip ?env" "reconcilers_keep_cache x ?env"
    and inv_eq: "store_inv x ?env t = store_inv x env t" for t
    using docs(3,4) by (simp_all add: policy_json_roundtrip_def reconcilers_keep_cache_def store_inv_def)
  have "store_inv x ?env t"
    unfolding reconcile(1)
    by (rule store_inv_reconcile [OF same _ reconcile(2) _ reconcile(4)])
      (use reconcile(3) inv in \<open>simp_all add: inv_eq\<close>)
  then show ?thesis by (simp add: inv_eq)
qed

lemma store_reachable_inv:
  assumes "ToAggregate_doc x" "NewAggregate_doc x" "policy_json_roundtrip env" "reconcilers_keep_cache x env"
    and "store_reachable x env s"
  shows "store_inv x env s"
  using assms(5)
  by (induction rule: store_reachable.induct) (auto intro: store_inv_init store_inv_step [OF assms(1-4)])

section \<open>Properties\<close>

text \<open>C8: who stands behind an approval. In every reachable state of the policy store, a request that
  is approved on versions of the policies that a cache may show is approved by a policy that the
  webhook admitted and whose \<^verbatim>\<open>Ready\<close> condition was written by a reconcile in which every approver
  found it ready, for a version of that name with the condition's observed generation; if that is the
  generation of the policy and the version belongs to this very policy (the same UID: it was not
  deleted and created again meanwhile), every approver found this very specification ready.\<close>

theorem approvals_by_ready_policies:
  assumes "cel_type_sound x" and "ToAggregate_doc x" and "NewAggregate_doc x"
    and "policy_json_roundtrip env" and "reconcilers_keep_cache x env" and "store_reachable x env s"
    and "api_List a l = Inr items" and "set items \<subseteq> ps_versions s"
    and "Review x (New x a (Evaluators (builtin_registry x))) cr (ps_cache s, l) = Returns (Inr resp, (c', l'))"
    and "rv_Result resp = ReviewApproved"
  shows "\<exists>policy \<in> set items. \<exists>c \<in> set (p_Conditions (p_Status policy)). \<exists>w.
     rv_Message resp = ''Approved by CertificateRequestPolicy: '' @ x_Quote x (p_Name policy) \<and>
     policy_admissible x (se_registered env) policy \<and>
     pc_Type c = ConditionReady \<and> pc_Status c = ConditionTrue \<and>
     found_ready s (p_Name policy) (pc_ObservedGeneration c) w \<and>
     (pc_ObservedGeneration c = p_Generation policy \<and> p_UID w = p_UID policy \<longrightarrow> p_Spec w = p_Spec policy)"
proof -
  have inv: "store_inv x env s" by (rule store_reachable_inv [OF assms(2-6)])
  from Review_Approved_policy [OF assms(1,2) store_invD(1) [OF inv] assms(9,10)] assms(7)
  obtain policy where p: "policy \<in> set items" "is_ready policy"
    "rv_Message resp = ''Approved by CertificateRequestPolicy: '' @ x_Quote x (p_Name policy)" by auto
  with assms(8) have mem: "policy \<in> ps_versions s" by blast
  from p(2) obtain c where c: "c \<in> set (p_Conditions (p_Status policy))" "pc_Type c = ConditionReady"
    "pc_Status c = ConditionTrue" unfolding is_ready_def by blast
  with store_invD(5) [OF inv mem] obtain w where w: "found_ready s (p_Name policy) (pc_ObservedGeneration c) w"
    unfolding conditions_ok_def by blast
  have "p_Spec w = p_Spec policy" if "pc_ObservedGeneration c = p_Generation policy" "p_UID w = p_UID policy"
    using w that by (intro store_invD(8) [OF inv _ mem]) (simp_all add: found_ready_def)
  with p c w store_invD(4) [OF inv mem] show ?thesis by blast
qed

section \<open>A stale approval\<close>

text \<open>An approver that is ready for policies without an \<^verbatim>\<open>allowed\<close> stanza only, and a policy that gets one
  after it was found ready.\<close>

definition picky_Ready :: "'s ready_fn" where
  "picky_Ready p = go_ret (Inr \<lparr>rr_Ready = (Allowed (p_Spec p) = None), rr_Errors = [], rr_Requeue = False,
     rr_RequeueAfter = 0\<rparr>)"

definition early_policy :: CertificateRequestPolicy where
  "early_policy = sample_policy\<lparr>p_Spec := (p_Spec sample_policy)\<lparr>Allowed := None\<rparr>, p_Status := \<lparr>p_Conditions = []\<rparr>\<rparr>"

definition early_answers :: "ReconcilerReadyResponse list" where
  "early_answers = [\<lparr>rr_Ready = True, rr_Errors = [], rr_Requeue = False, rr_RequeueAfter = 0\<rparr>]"

definition early_status :: PolicyStatus where
  "early_status = \<lparr>p_Conditions = [readiness_condition sample_extern 5 early_policy early_answers]\<rparr>"

definition stale_policy :: CertificateRequestPolicy where
  "stale_policy = with_spec (p_Spec sample_policy) (with_status early_status early_policy)"

definition stale_env :: "string store_env" where
  "stale_env =
     (let conf = CertificateRequestPolicyStatusConfiguration ''web'' early_status
      in \<lparr>se_registered = [], se_reconcilers = [picky_Ready],
          se_Marshal = (\<lambda>c. if c = conf then Inr ''patch'' else Inl (ErrLib ''unsupported'')),
          se_Unmarshal = (\<lambda>_. conf), se_Patch = (\<lambda>_ _. None)\<rparr>)"

definition stale_api :: api where
  "stale_api = sample_api\<lparr>api_List := \<lambda>_. Inr [stale_policy]\<rparr>"

lemma stale_env_docs: "policy_json_roundtrip stale_env" "reconcilers_keep_cache sample_extern stale_env"
  by (auto simp: policy_json_roundtrip_def reconcilers_keep_cache_def stale_env_def picky_Ready_def
      CertificateRequestPolicyStatusConfiguration_def go_ret_def Let_def split: if_splits)

lemma early_names [simp]:
  "p_Name early_policy = ''web''" "p_Generation early_policy = 1" "p_Name stale_policy = ''web''"
  "p_Spec stale_policy = p_Spec sample_policy" "p_Spec stale_policy \<noteq> p_Spec early_policy"
  by (simp_all add: early_policy_def stale_policy_def with_spec_def sample_policy_def)

lemma validate_admissible:
  assumes "policy_admissible sample_extern [] p" and "cache_ok sample_extern c"
  shows "\<exists>c'. validate sample_extern (store_validator sample_extern stale_env) (PolicyObject p) c =
    Returns (([], None), c') \<and> cache_ok sample_extern c'"
  using validate_builtin_result [OF sample_extern_doc(1,2) assms(2), of "[]" p] assms(1)
  by (auto simp: store_validator_def stale_env_def Let_def)

lemma early_admissible: "policy_admissible sample_extern [] early_policy"
  using sample_admissible
  by (auto simp: policy_admissible_def plugins_known_def selector_valid_def early_policy_def)

lemma stale_admissible: "policy_admissible sample_extern [] stale_policy"
  using sample_admissible policy_admissible_spec [of stale_policy sample_policy sample_extern "[]"] by simp

lemma early_reconcile:
  "\<exists>answer. crp_Reconcile sample_extern (policy_controller_at stale_env early_policy 5) ''web'' (c, []) =
     Returns (answer, (c, [readiness_event sample_extern early_answers,
       ApplyPatch \<lparr>pt_Name = ''web'', pt_Namespace = ''''\<rparr> ''patch'']))"
  "go_collect (map (\<lambda>f. f early_policy) (se_reconcilers stale_env)) c = Returns (Inr early_answers, c)"
proof -
  have asked: "go_collect (map (\<lambda>f. f early_policy) (pol_reconcilers (policy_controller_at stale_env early_policy 5))) c =
      Returns (Inr early_answers, c)"
    by (simp add: policy_controller_at_def stale_env_def Let_def picky_Ready_def early_policy_def early_answers_def
        go_bind_def go_ret_def keep_def go_map_def)
  then show "go_collect (map (\<lambda>f. f early_policy) (se_reconcilers stale_env)) c = Returns (Inr early_answers, c)"
    by (simp add: policy_controller_at_def)
  have get: "pol_Get (policy_controller_at stale_env early_policy 5) ''web'' = Inr early_policy"
    by (simp add: policy_controller_at_def)
  from crp_Reconcile_calls [OF get asked, of sample_extern "[]"]
  show "\<exists>answer. crp_Reconcile sample_extern (policy_controller_at stale_env early_policy 5) ''web'' (c, []) =
     Returns (answer, (c, [readiness_event sample_extern early_answers,
       ApplyPatch \<lparr>pt_Name = ''web'', pt_Namespace = ''''\<rparr> ''patch'']))"
    by (simp add: policy_controller_at_def stale_env_def Let_def early_status_def)
qed

text \<open>A reconcile on the early version, wherever it is read, marks the policy that is stored under its
  name as ready.\<close>

lemma early_reconcile_step:
  assumes "early_policy \<in> ps_versions s" and "ps_policies s ''web'' = Some p" and "p_Name p = ''web''"
  shows "store_step sample_extern stale_env s
    (put_policy (with_status early_status p) (s\<lparr>ps_runs := insert (early_policy, early_answers) (ps_runs s)\<rparr>))"
proof -
  have same: "stale_env\<lparr>se_Patch := se_Patch stale_env\<rparr> = stale_env" by (cases stale_env) simp
  obtain answer where run: "crp_Reconcile sample_extern (policy_controller_at (stale_env\<lparr>se_Patch := se_Patch stale_env\<rparr>)
      early_policy 5) (p_Name early_policy) (ps_cache s, []) =
      Returns (answer, (ps_cache s, [readiness_event sample_extern early_answers,
       ApplyPatch \<lparr>pt_Name = ''web'', pt_Namespace = ''''\<rparr> ''patch'']))"
    using early_reconcile(1) [of "ps_cache s"] unfolding same by auto
  have "ac_Status (se_Unmarshal stale_env ''patch'') = Some early_status" "se_Patch stale_env t b = None" for t b
    by (simp_all add: stale_env_def Let_def CertificateRequestPolicyStatusConfiguration_def)
  then show ?thesis
    using reconcile [OF assms(1) early_reconcile(2) run] assms(2,3)
    unfolding same by (simp add: apply_policy_call_def [of _ "ApplyPatch _ _"])
qed

lemma early_created:
  "\<exists>s. store_reachable sample_extern stale_env s \<and> ps_policies s = [''web'' \<mapsto> early_policy] \<and>
     ps_versions s = {early_policy} \<and> ps_runs s = {} \<and> cache_ok sample_extern (ps_cache s)"
proof -
  obtain c where c: "validate sample_extern (store_validator sample_extern stale_env) (PolicyObject early_policy) NewCache =
      Returns (([], None), c)" "cache_ok sample_extern c"
    using validate_admissible [OF early_admissible cache_ok_empty] by blast
  let ?s = "put_policy early_policy (store_init\<lparr>ps_cache := c\<rparr>)"
  have "store_step sample_extern stale_env store_init ?s"
    using c(1) by (intro create) (simp_all add: store_init_def ValidateCreate_def early_policy_def [THEN arg_cong [of _ _ p_Status]])
  then have "store_reachable sample_extern stale_env ?s"
    by (rule store_reachable.step [OF store_reachable.init])
  with c(2) show ?thesis by (intro exI [of _ ?s]) (simp add: store_init_def)
qed

lemma stale_store:
  "\<exists>s. store_reachable sample_extern stale_env s \<and> ps_policies s ''web'' = Some stale_policy \<and>
     stale_policy \<in> ps_versions s \<and> ps_runs s = {(early_policy, early_answers)} \<and> cache_ok sample_extern (ps_cache s)"
proof -
  obtain s1 where s1: "store_reachable sample_extern stale_env s1" "ps_policies s1 = [''web'' \<mapsto> early_policy]"
    "ps_versions s1 = {early_policy}" "ps_runs s1 = {}" "cache_ok sample_extern (ps_cache s1)"
    using early_created by blast
  let ?p1 = "with_status early_status early_policy"
  let ?s2 = "put_policy ?p1 (s1\<lparr>ps_runs := insert (early_policy, early_answers) (ps_runs s1)\<rparr>)"
  have r2: "store_reachable sample_extern stale_env ?s2"
    by (rule store_reachable.step [OF s1(1) early_reconcile_step]) (simp_all add: s1)
  obtain c2 where c2: "validate sample_extern (store_validator sample_extern stale_env) (PolicyObject stale_policy)
      (ps_cache s1) = Returns (([], None), c2)" "cache_ok sample_extern c2"
    using validate_admissible [OF stale_admissible s1(5)] by blast
  let ?s3 = "put_policy stale_policy (?s2\<lparr>ps_cache := c2\<rparr>)"
  have "store_step sample_extern stale_env ?s2 ?s3"
    unfolding stale_policy_def
    by (rule update [of _ "''web''" _ _ _ _ "[]"]) (use c2(1) in \<open>simp_all add: ValidateUpdate_def stale_policy_def\<close>)
  with r2 have "store_reachable sample_extern stale_env ?s3" by (rule store_reachable.step)
  then show ?thesis using c2(2) s1(4) by (intro exI [of _ ?s3]) simp
qed

text \<open>The patch does not name the UID or the resource version of what was read. After a reconcile on a
  stale read, a policy that was created again under its name is ready for its own generation,
  though no approver was asked about its specification.\<close>

definition reborn_policy :: CertificateRequestPolicy where
  "reborn_policy = sample_policy\<lparr>p_UID := ''2'', p_Status := \<lparr>p_Conditions = []\<rparr>\<rparr>"

lemma recreated_policy_ready:
  "\<exists>s policy c. store_reachable sample_extern stale_env s \<and> ps_policies s ''web'' = Some policy \<and>
     is_ready policy \<and> p_Conditions (p_Status policy) = [c] \<and> pc_ObservedGeneration c = p_Generation policy \<and>
     p_Spec policy \<notin> p_Spec ` fst ` ps_runs s"
proof -
  obtain s1 where s1: "store_reachable sample_extern stale_env s1" "ps_policies s1 = [''web'' \<mapsto> early_policy]"
    "ps_versions s1 = {early_policy}" "ps_runs s1 = {}" "cache_ok sample_extern (ps_cache s1)"
    using early_created by blast
  let ?s2 = "s1\<lparr>ps_policies := (ps_policies s1)(''web'' := None), ps_cache := ps_cache s1\<rparr>"
  have r2: "store_reachable sample_extern stale_env ?s2"
    by (rule store_reachable.step [OF s1(1) delete]) (simp add: ValidateDelete_def go_ret_def)
  have "policy_admissible sample_extern [] reborn_policy"
    using sample_admissible policy_admissible_spec [of reborn_policy sample_policy sample_extern "[]"]
    by (simp add: reborn_policy_def)
  then obtain c where c: "validate sample_extern (store_validator sample_extern stale_env) (PolicyObject reborn_policy)
      (ps_cache ?s2) = Returns (([], None), c)"
    using validate_admissible [of reborn_policy "ps_cache ?s2"] s1(5) by auto
  let ?s3 = "put_policy reborn_policy (?s2\<lparr>ps_cache := c\<rparr>)"
  have "store_step sample_extern stale_env ?s2 ?s3"
    using c s1(2,3)
    by (intro create) (simp_all add: ValidateCreate_def reborn_policy_def early_policy_def sample_policy_def)
  with r2 have r3: "store_reachable sample_extern stale_env ?s3" by (rule store_reachable.step)
  let ?p = "with_status early_status reborn_policy"
  let ?s4 = "put_policy ?p (?s3\<lparr>ps_runs := insert (early_policy, early_answers) (ps_runs ?s3)\<rparr>)"
  have name: "p_Name reborn_policy = ''web''" by (simp add: reborn_policy_def sample_policy_def)
  have reach: "store_reachable sample_extern stale_env ?s4"
    by (rule store_reachable.step [OF r3 early_reconcile_step]) (use s1(3) name in simp_all)
  have cond: "p_Conditions (p_Status ?p) = [readiness_condition sample_extern 5 early_policy early_answers]"
    by (simp add: with_status_def early_status_def reborn_policy_def)
  have ready: "is_ready ?p" unfolding is_ready_def cond by (simp add: early_answers_def)
  have spec: "p_Spec ?p \<notin> p_Spec ` fst ` ps_runs ?s4"
    using s1(4) early_names(4,5) by (simp add: reborn_policy_def)
  have "ps_policies ?s4 ''web'' = Some ?p" "p_Generation ?p = 1" using name by (simp_all add: reborn_policy_def sample_policy_def)
  moreover have "pc_ObservedGeneration (readiness_condition sample_extern 5 early_policy early_answers) = 1" by simp
  ultimately show ?thesis using reach cond ready spec by metis
qed

lemma stale_review:
  assumes "cache_ok sample_extern c"
  shows "\<exists>resp c' l'. Review sample_extern (New sample_extern stale_api (Evaluators (builtin_registry sample_extern)))
      sample_request (c, []) = Returns (Inr resp, (c', l')) \<and> rv_Result resp = ReviewApproved"
proof -
  have sel: "selected (New sample_extern stale_api (Evaluators (builtin_registry sample_extern))) sample_request [] =
      Returns (Inr [stale_policy], [ListPolicies, CreateSAR (sar_for sample_request stale_policy)])"
    by (simp add: selected_def New_def stale_api_def sample_api_def List_policies_def Ready_def
        SelectorIssuerRef_filter SelectorNamespace_pred_def RBACBound_def Create_sar_def go_bind_def go_ret_def
        ready_condition_def issuer_selects_def stale_policy_def with_spec_def with_status_def early_status_def
        early_policy_def early_answers_def sample_policy_def sample_request_def wild_expands_refl sar_for_def
        keep_def go_map_def)
  have good: "builtin_good sample_extern c" using assms by (simp add: builtin_good_def sample_extern_doc)
  have permits: "policy_permits sample_extern sample_request stale_policy"
    "policy_evaluable sample_extern sample_request stale_policy"
    using sample_policy_permits sample_decodes
    by (simp_all add: policy_permits_def policy_allowed_def policy_evaluable_def key_constrained_def sample_policy_def)
  from Review_builtin [OF good sel] obtain q c' where
    "Review sample_extern (New sample_extern stale_api (Evaluators (builtin_registry sample_extern)))
      sample_request (c, []) = Returns (q, (c', [ListPolicies, CreateSAR (sar_for sample_request stale_policy)]))"
    "review_result sample_extern (policy_permits sample_extern sample_request)
      (policy_evaluable sample_extern sample_request) [stale_policy] [] q" by auto
  with permits show ?thesis by (cases q) (auto simp: review_result_def Cons_eq_append_conv)
qed

text \<open>C31: the predicate \<^verbatim>\<open>Ready\<close> does not compare the observed generation with the generation. In a
  reachable state a request is approved by the stored version of a policy whose specification no
  reconcile found ready, and for which an approver answers that it is not ready: the policy was
  found ready before its specification was changed.\<close>

theorem stale_readiness_approves:
  "\<exists>s policy resp c' l'. store_reachable sample_extern stale_env s \<and> ps_policies s (p_Name policy) = Some policy \<and>
     api_List stale_api [] = Inr [policy] \<and>
     Review sample_extern (New sample_extern stale_api (Evaluators (builtin_registry sample_extern)))
       sample_request (ps_cache s, []) = Returns (Inr resp, (c', l')) \<and> rv_Result resp = ReviewApproved \<and>
     p_Spec policy \<notin> p_Spec ` fst ` ps_runs s \<and>
     (\<exists>f \<in> set (se_reconcilers stale_env). \<forall>c. \<exists>resp. f policy c = Returns (Inr resp, c) \<and> \<not> rr_Ready resp)"
proof -
  obtain s where s: "store_reachable sample_extern stale_env s" "ps_policies s ''web'' = Some stale_policy"
    "ps_runs s = {(early_policy, early_answers)}" "cache_ok sample_extern (ps_cache s)"
    using stale_store by blast
  obtain resp c' l' where "Review sample_extern (New sample_extern stale_api
      (Evaluators (builtin_registry sample_extern))) sample_request (ps_cache s, []) = Returns (Inr resp, (c', l'))"
    "rv_Result resp = ReviewApproved" using stale_review [OF s(4)] by blast
  moreover have "p_Spec stale_policy \<notin> p_Spec ` fst ` ps_runs s"
    using s(3) early_names(5) by auto
  moreover have "\<exists>f \<in> set (se_reconcilers stale_env). \<forall>c. \<exists>resp. f stale_policy c = Returns (Inr resp, c) \<and> \<not> rr_Ready resp"
    by (simp add: stale_env_def Let_def picky_Ready_def go_ret_def sample_policy_def)
  ultimately show ?thesis
    using s by (intro exI [of _ s] exI [of _ stale_policy] exI) (auto simp: stale_api_def)
qed

theorem approvals_by_ready_policies_witness:
  "\<exists>s policy w. store_reachable sample_extern stale_env s \<and> policy \<in> ps_versions s \<and>
     policy_admissible sample_extern [] policy \<and> found_ready s (p_Name policy) 1 w"
proof -
  obtain s where s: "store_reachable sample_extern stale_env s" "stale_policy \<in> ps_versions s"
    "cache_ok sample_extern (ps_cache s)" using stale_store by blast
  obtain resp c' l' where rev: "Review sample_extern (New sample_extern stale_api
      (Evaluators (builtin_registry sample_extern))) sample_request (ps_cache s, []) = Returns (Inr resp, (c', l'))"
    "rv_Result resp = ReviewApproved" using stale_review [OF s(3)] by blast
  have items: "api_List stale_api [] = Inr [stale_policy]" "set [stale_policy] \<subseteq> ps_versions s"
    using s(2) by (simp_all add: stale_api_def)
  have reg: "se_registered stale_env = []" by (simp add: stale_env_def Let_def)
  have "p_Conditions (p_Status stale_policy) = [readiness_condition sample_extern 5 early_policy early_answers]"
    by (simp add: stale_policy_def with_spec_def with_status_def early_status_def early_policy_def)
  then obtain w where "policy_admissible sample_extern [] stale_policy" "found_ready s ''web'' 1 w"
    using approvals_by_ready_policies [OF sample_extern_doc(3,1,2) stale_env_docs s(1) items rev] reg by auto
  with s(1,2) show ?thesis by (intro exI [of _ s] exI [of _ stale_policy] exI [of _ w]) simp
qed

end
