(* ===== verification/AP_Fakes.thy ===== *)
theory AP_Fakes
  imports AP_PolicyStore
begin

text \<open>
  The test doubles of the approver interface and of the manager (\<^verbatim>\<open>pkg/approver/fake\<close>,
  \<^verbatim>\<open>pkg/approver/manager/fake\<close>): structs that hold functions, which \<^verbatim>\<open>With...\<close> sets and the methods call.
  A function that is not set is nil, and calling it panics. The tests of the controllers and of the
  manager run the program's code on these fakes; the theorem at the end says that the code cannot
  tell a fake from an approver with the same functions.
\<close>

section \<open>Calling a function value\<close>

definition call :: "('a \<Rightarrow> ('s, 'b) go) option \<Rightarrow> 'a \<Rightarrow> ('s, 'b) go" where
  "call f a = (case f of
     None \<Rightarrow> go_lift (Panics ''invalid memory address or nil pointer dereference'') | Some g \<Rightarrow> g a)"

lemma call_simps [simp]: "call (Some g) a = g a"
  by (simp add: call_def)

section \<open>FakeEvaluator, FakeWebhook, FakeReconciler\<close>

record 's FakeEvaluator =
  evaluateFunc :: "(CertificateRequestPolicy \<times> CertificateRequest \<Rightarrow> ('s, goerr + EvaluationResponse) go) option"

definition NewFakeEvaluator :: "'s FakeEvaluator" where
  "NewFakeEvaluator = \<lparr>evaluateFunc = None\<rparr>"

definition WithEvaluate ::
  "(CertificateRequestPolicy \<times> CertificateRequest \<Rightarrow> ('s, goerr + EvaluationResponse) go) \<Rightarrow>
   's FakeEvaluator \<Rightarrow> 's FakeEvaluator" where
  "WithEvaluate fn f = f\<lparr>evaluateFunc := Some fn\<rparr>"

definition fake_Evaluate :: "'s FakeEvaluator \<Rightarrow> 's evaluate_fn" where
  "fake_Evaluate f policy cr = call (evaluateFunc f) (policy, cr)"

record 's FakeWebhook =
  validateFunc :: "(CertificateRequestPolicy \<Rightarrow> ('s, goerr + WebhookValidationResponse) go) option"

definition NewFakeWebhook :: "'s FakeWebhook" where
  "NewFakeWebhook = \<lparr>validateFunc = None\<rparr>"

definition WithValidate :: "'s validate_fn \<Rightarrow> 's FakeWebhook \<Rightarrow> 's FakeWebhook" where
  "WithValidate fn f = f\<lparr>validateFunc := Some fn\<rparr>"

definition fake_Validate :: "'s FakeWebhook \<Rightarrow> 's validate_fn" where
  "fake_Validate f policy = call (validateFunc f) policy"

text \<open>A channel is a number, nil is \<open>None\<close>. The constructor always sets \<open>enqueueFunc\<close>, and calling it has
  no effect, so that it is the channel it returns.\<close>

record 's FakeReconciler =
  fr_name :: string
  readyFunc :: "(CertificateRequestPolicy \<Rightarrow> ('s, goerr + ReconcilerReadyResponse) go) option"
  enqueueFunc :: "nat option"

definition NewFakeReconciler :: "'s FakeReconciler" where
  "NewFakeReconciler = \<lparr>fr_name = '''', readyFunc = None, enqueueFunc = None\<rparr>"

definition WithName :: "string \<Rightarrow> 's FakeReconciler \<Rightarrow> 's FakeReconciler" where
  "WithName name f = f\<lparr>fr_name := name\<rparr>"

definition WithReady :: "'s ready_fn \<Rightarrow> 's FakeReconciler \<Rightarrow> 's FakeReconciler" where
  "WithReady fn f = f\<lparr>readyFunc := Some fn\<rparr>"

definition WithEnqueueChan :: "nat option \<Rightarrow> 's FakeReconciler \<Rightarrow> 's FakeReconciler" where
  "WithEnqueueChan chan f = f\<lparr>enqueueFunc := chan\<rparr>"

definition fake_Name :: "'s FakeReconciler \<Rightarrow> string" where
  "fake_Name f = fr_name f"

definition fake_Ready :: "'s FakeReconciler \<Rightarrow> 's ready_fn" where
  "fake_Ready f policy = call (readyFunc f) policy"

definition fake_EnqueueChan :: "'s FakeReconciler \<Rightarrow> nat option" where
  "fake_EnqueueChan f = enqueueFunc f"

section \<open>FakeApprover and FakeManager\<close>

record 's FakeApprover =
  registerFlagsFn :: "(unit \<Rightarrow> ('s, unit) go) option"
  prepareFn :: "(unit \<Rightarrow> ('s, goerr option) go) option"
  fa_FakeEvaluator :: "'s FakeEvaluator"
  fa_FakeWebhook :: "'s FakeWebhook"
  fa_FakeReconciler :: "'s FakeReconciler"

definition NewFakeApprover :: "'s FakeApprover" where
  "NewFakeApprover = \<lparr>registerFlagsFn = None, prepareFn = None, fa_FakeEvaluator = NewFakeEvaluator,
     fa_FakeWebhook = NewFakeWebhook, fa_FakeReconciler = NewFakeReconciler\<rparr>"

definition WithEvaluator :: "'s FakeEvaluator \<Rightarrow> 's FakeApprover \<Rightarrow> 's FakeApprover" where
  "WithEvaluator evaluator f = f\<lparr>fa_FakeEvaluator := evaluator\<rparr>"

definition WithReconciler :: "'s FakeReconciler \<Rightarrow> 's FakeApprover \<Rightarrow> 's FakeApprover" where
  "WithReconciler reconciler f = f\<lparr>fa_FakeReconciler := reconciler\<rparr>"

definition WithRegisterFlags :: "(unit \<Rightarrow> ('s, unit) go) \<Rightarrow> 's FakeApprover \<Rightarrow> 's FakeApprover" where
  "WithRegisterFlags fn f = f\<lparr>registerFlagsFn := Some fn\<rparr>"

definition WithPrepare :: "(unit \<Rightarrow> ('s, goerr option) go) \<Rightarrow> 's FakeApprover \<Rightarrow> 's FakeApprover" where
  "WithPrepare fn f = f\<lparr>prepareFn := Some fn\<rparr>"

definition fake_RegisterFlags :: "'s FakeApprover \<Rightarrow> ('s, unit) go" where
  "fake_RegisterFlags f = call (registerFlagsFn f) ()"

definition fake_Prepare :: "'s FakeApprover \<Rightarrow> ('s, goerr option) go" where
  "fake_Prepare f = call (prepareFn f) ()"

text \<open>The fake as a value of the interface, with the methods of the structs it embeds.\<close>

definition fake_approver :: "'s FakeApprover \<Rightarrow> 's approver" where
  "fake_approver f =
     \<lparr>a_Name = fake_Name (fa_FakeReconciler f), a_Prepare = fake_Prepare f,
      a_Evaluate = fake_Evaluate (fa_FakeEvaluator f), a_Validate = fake_Validate (fa_FakeWebhook f),
      a_Ready = fake_Ready (fa_FakeReconciler f), a_EnqueueChan = fake_EnqueueChan (fa_FakeReconciler f)\<rparr>"

record 's FakeManager =
  reviewFunc :: "(CertificateRequest \<Rightarrow> ('s, goerr + ReviewResponse) go) option"

definition NewFakeManager :: "'s FakeManager" where
  "NewFakeManager = \<lparr>reviewFunc = None\<rparr>"

definition WithReview :: "(CertificateRequest \<Rightarrow> ('s, goerr + ReviewResponse) go) \<Rightarrow> 's FakeManager \<Rightarrow> 's FakeManager" where
  "WithReview fn f = f\<lparr>reviewFunc := Some fn\<rparr>"

definition fake_Review :: "'s FakeManager \<Rightarrow> CertificateRequest \<Rightarrow> ('s, goerr + ReviewResponse) go" where
  "fake_Review f cr = call (reviewFunc f) cr"

section \<open>Fakes are faithful\<close>

text \<open>The fake that the tests build for an approver.\<close>

definition fake_of :: "'s approver \<Rightarrow> 's FakeApprover" where
  "fake_of a =
     (WithPrepare (\<lambda>_. a_Prepare a)
       (WithReconciler (WithEnqueueChan (a_EnqueueChan a) (WithReady (a_Ready a) (WithName (a_Name a) NewFakeReconciler)))
         (WithEvaluator (WithEvaluate (\<lambda>(policy, cr). a_Evaluate a policy cr) NewFakeEvaluator) NewFakeApprover)))
     \<lparr>fa_FakeWebhook := WithValidate (a_Validate a) NewFakeWebhook\<rparr>"

text \<open>Every approver has a fake that is the same approver, so that what holds of the program for all
  approvers is what tests on fakes observe; the manager, the registry and the controllers treat a
  list of fakes as the approvers they stand for. A fake without a function panics when the function
  is called, and the manager's review panics with it.\<close>

theorem fakes_faithful:
  fixes a :: "'s approver" and r :: "'s registry"
  shows "fake_approver (fake_of a) = a \<and>
   Evaluators (map (\<lambda>a. fake_approver (fake_of a)) r) = Evaluators r \<and>
   fake_Review (WithReview review NewFakeManager) = review \<and>
   (\<exists>p. \<forall>policy cr s. fake_Evaluate NewFakeEvaluator policy cr s = Panics p)"
proof -
  have "fake_approver (fake_of b) = b" for b :: "'s approver"
    by (cases b) (simp add: fake_approver_def fake_of_def WithPrepare_def WithReconciler_def WithEnqueueChan_def
      WithReady_def WithName_def WithEvaluator_def WithEvaluate_def WithValidate_def NewFakeApprover_def
      NewFakeReconciler_def NewFakeEvaluator_def NewFakeWebhook_def fake_Name_def fake_Prepare_def
      fake_Evaluate_def fake_Validate_def fake_Ready_def fake_EnqueueChan_def fun_eq_iff)
  then show ?thesis
    by (auto simp: fun_eq_iff Evaluators_def fake_Review_def WithReview_def fake_Evaluate_def NewFakeEvaluator_def call_def
        go_lift_def)
qed

end
