(* ===== verification/Spec2Isabelle.thy ===== *)
theory Spec2Isabelle
  imports AP_Program AP_LiveCluster AP_DeepCopy AP_ImageTool AP_Fakes
begin

text \<open>
  \<^bold>\<open>approver-policy.\<close> The program is a Kubernetes controller that approves or denies cert-manager
  CertificateRequests according to CertificateRequestPolicies. This development models its Go code
  under \<^verbatim>\<open>src/pkg\<close>, and the image tool of its build, and proves that it decides as the policies say.

  \<^bold>\<open>The parts and how they interact.\<close> A request controller reconciles every CertificateRequest
  without a decision. It asks the approver manager for a review. The manager lists the policies,
  filters them by four predicates (ready, issuer selector, namespace selector, RBAC), and runs the
  evaluators of all registered approvers on each policy that is left until one policy is denied by
  none of them. The approvers of this repository are \<^verbatim>\<open>allowed\<close>, which compares the decoded CSR with
  what a policy allows, by wildcards and by CEL rules from a shared cache of compiled rules, and
  \<^verbatim>\<open>constraints\<close>, which bounds the duration and the key. The controller records the decision as an
  event and as a status patch. A second controller asks the approvers whether a policy is ready and
  records that; approvers can trigger it through channels. A webhook validates policies on
  admission, again by asking the approvers. A collector counts requests for Prometheus. The command
  wires all of this to the controller manager. The objects that the controllers and the webhook get
  from the caches of controller-runtime are kept apart by the generated deep copies of the policy
  types. Apart from all this, a small tool appends layers to the container images of a release.

  \<^bold>\<open>Theories, and the code they model.\<close>
  \<^item> \<open>AP_Prelude\<close>: Go computations as state transformers that return or panic (\<open>go\<close>), errors as
    values (\<open>goerr\<close>), their combinators, the judgements \<open>go_yields\<close>, \<open>go_ends\<close> and \<open>go_checks\<close> with
    their rules, and general lemmas.
  \<^item> \<open>AP_GoLib\<close>: what the code uses of Go's library: UTF-8 decoding of strings into runes, number
    and duration formatting, bit lengths, IP addresses, string order and sorting.
  \<^item> \<open>AP_Wildcard\<close>: \<^verbatim>\<open>internal/util/wildcard.go\<close>.
  \<^item> \<open>AP_API\<close>: the resource types of \<^verbatim>\<open>apis/policy/v1alpha1\<close>, cert-manager's request type, field
    paths and errors; the record \<open>extern\<close> of the functions of other packages the code calls, the
    behaviour of them that is relied on (\<open>ToAggregate_doc\<close>, \<open>NewAggregate_doc\<close>, \<open>cel_type_sound\<close>,
    \<open>cel_program_total\<close>, \<open>cel_string_doc\<close>), and an instance \<open>sample_extern\<close> in which all of it holds.
  \<^item> \<open>AP_Validation\<close>, \<open>AP_CacheConc\<close>: \<^verbatim>\<open>internal/approver/validation\<close>: compiling and running CEL rules,
    the cache of compiled rules, first as a sequential object with the interface
    \<open>validator_cache\<close>, then with goroutines interleaving at the atomic operations of its
    \<^verbatim>\<open>sync.Map\<close>; the service account functions.
  \<^item> \<open>AP_Approver\<close>: \<^verbatim>\<open>approver\<close> and \<^verbatim>\<open>registry\<close>: the approver interface as a record of functions, the
    contract \<open>evaluator_contract\<close> of an evaluator, the registry.
  \<^item> \<open>AP_Allowed\<close>, \<open>AP_Constraints\<close>: \<^verbatim>\<open>internal/approver/allowed\<close> and \<^verbatim>\<open>constraints\<close>: \<^verbatim>\<open>Evaluate\<close>, \<^verbatim>\<open>Validate\<close>
    and the approvers, with \<open>allowed_permits\<close> and \<open>constraints_permit\<close> as declarative readings of a
    stanza. Both interpret \<open>evaluator_contract\<close>.
  \<^item> \<open>AP_Predicates\<close>: \<^verbatim>\<open>internal/approver/manager/predicate\<close>, with the log of calls to the API server;
    each predicate interprets \<open>policy_predicate\<close>.
  \<^item> \<open>AP_Review\<close>: \<^verbatim>\<open>internal/approver/manager/review.go\<close>; the manager's lemmas hold for any evaluators
    with the contract (\<open>policy_evaluators\<close>), interpreted for the built-in ones.
  \<^item> \<open>AP_Webhook\<close>: \<^verbatim>\<open>internal/webhook\<close>, with the interface \<open>policy_webhook\<close> interpreted for both
    approvers.
  \<^item> \<open>AP_RequestController\<close>, \<open>AP_PolicyController\<close>: \<^verbatim>\<open>internal/controllers\<close> and its \<^verbatim>\<open>ssa_client\<close>:
    \<^verbatim>\<open>Reconcile\<close> of the two controllers down to the patches and events they send.
  \<^item> \<open>AP_System\<close>: the request controller, the manager and the stored requests of a cluster as a step
    relation with its invariant, for a controller that reads what is stored.
  \<^item> \<open>AP_LiveCluster\<close>: the same with stale reads, refused patches and other deciders; the steps of
    \<open>AP_System\<close> are a special case of it (\<open>cluster_is_live\<close>).
  \<^item> \<open>AP_PolicyStore\<close>: the webhook, the policy controller and the stored policies of a cluster as a step
    relation, with reads that may be stale, and its invariant.
  \<^item> \<open>AP_Watcher\<close>: the goroutine that forwards enqueue channels, as a step relation that interleaves
    with the senders.
  \<^item> \<open>AP_Metrics\<close>, \<open>AP_Options\<close>, \<open>AP_Command\<close>: \<^verbatim>\<open>internal/metrics\<close>, \<^verbatim>\<open>internal/cmd/options\<close>,
    \<^verbatim>\<open>internal/cmd\<close> and \<^verbatim>\<open>controllers.go\<close>.
  \<^item> \<open>AP_Program\<close>: the process as a whole: the initialisation of the packages (\<^verbatim>\<open>register.go\<close> and the
    \<^verbatim>\<open>init\<close> functions of the approvers), \<^verbatim>\<open>pkg/cmd/cmd.go\<close> and \<^verbatim>\<open>cmd/main.go\<close>, with apimachinery's scheme
    and cobra as parameters (\<open>scheme_doc\<close>, \<open>execute_doc\<close>).
  \<^item> \<open>AP_Heap\<close>, \<open>AP_DeepCopy\<close>: \<^verbatim>\<open>zz_generated.deepcopy.go\<close> over an explicit heap. Pointers, slices and
    maps are references; a view reads a struct through the heap into a value and the memory it
    occupies; the locale \<open>deep_copier\<close> states what a copy function promises, is closed under structs,
    pointers, slices and maps, and is interpreted for the generated functions.
  \<^item> \<open>AP_ImageTool\<close>: \<^verbatim>\<open>make/_shared/oci-build/image_tool\<close>, with go-containerregistry as the record \<open>oci\<close>
    and what is relied on of it as \<open>remove_laws\<close>, \<open>append_laws\<close>, \<open>digest_laws\<close> and \<open>closed_digests\<close>, which
    hold in the content-addressed library \<open>sample_oci\<close>; the relation \<open>represents\<close> reads an index as a tree.
  \<^item> \<open>AP_Fakes\<close>: the test doubles \<^verbatim>\<open>approver/fake\<close> and \<^verbatim>\<open>approver/manager/fake\<close>.

  \<^bold>\<open>What is shown.\<close>
  \<^item> Decisions are right: \<open>allowed_Evaluate_decides\<close>, \<open>constraints_Evaluate_decides\<close> and
    \<open>Review_decides\<close> equate the code with the declarative readings, \<open>Review_Approved_justified\<close> and
    \<open>cluster_approvals_justified\<close> say that an approval, of a review and in every reachable state of
    the cluster, has a policy behind it, and \<open>live_approvals_justified\<close> what is left of that when
    reads are stale and others decide too; a request that is seen decided is left alone
    (\<open>Reconcile_final\<close>), and a decision is recorded once (\<open>Reconcile_records_review\<close>).
  \<^item> The routines below: wildcards are expansions of stars, the namespace predicate reads the
    namespace at most once, RBAC is asked for each policy, the cache is transparent and hands one
    entry per rule to all goroutines, and goroutines in it make progress.
  \<^item> Errors: reviews never panic and fail only for the listed reasons (\<open>Review_errors\<close>), a compiled
    rule never hits the panic of its type assertion (\<open>Get_validator_safe\<close>), every failure of a
    reconcile is returned.
  \<^item> Admission: exactly the well-formed policies are admitted, whatever the order of Go's maps, and
    admitted policies spare the manager selector errors; which admitted constraints can be met is
    characterised (\<open>constraints_satisfiable\<close>).
  \<^item> From admission to approval: in every reachable state of the policy store an approval rests on a
    policy that was admitted and of whose name all approvers found a version ready at the observed
    generation (\<open>approvals_by_ready_policies\<close>); that may be another specification where it has changed
    since (\<open>stale_readiness_approves\<close>) or where the policy was created again (\<open>recreated_policy_ready\<close>).
  \<^item> Readiness: recorded for the right generation, stable, requeued after the smallest delay; the
    forwarder loses and reorders nothing and always comes to rest.
  \<^item> The metrics add up, the options round trip, the manager starts only when all is set up, and the
    exit status of the process tells whether it did and ended well (\<open>program_exit_status\<close>).
  \<^item> Deep copies of policies and of policy lists are equal to the original and share no memory with it
    (\<open>policy_DeepCopy_separate\<close>, \<open>policy_list_DeepCopyObject_separate\<close>).
  \<^item> The functions that the CEL environment gets for service accounts keep the types they are declared
    with (\<open>saLibrary_typed\<close>).
  \<^item> The image tool changes every image of an index and loses none (\<open>mutateImage_changes_all\<close>), picks
    the images of an architecture out of nested indexes (\<open>images_of_architecture\<close>), and archives a
    directory reproducibly (\<open>layer_reproducible\<close>).

  Some theorems state defects: \<open>ed25519_never_evaluated\<close>, \<open>stale_readiness_approves\<close>,
  \<open>recreated_request_approved\<close>, \<open>recreated_policy_ready\<close>, \<open>Store_misses_duplicates\<close> and
  \<open>symlink_not_archived\<close>. Every approver has a fake that is the same
  approver (\<open>fakes_faithful\<close>), so that tests on fakes say something about approvers.

  \<^bold>\<open>Numbers and bounds.\<close> Go strings are byte strings, and runes are decoded from them as Go does.
  Durations, sizes and generations are only compared, printed and copied, never computed with, so
  that they are integers here; the log level, which is negated, is a 64-bit word. The loops of the
  controller run over finite lists and are modelled by total functions, so that no fuel is needed;
  the two loops that run forever by design (the forwarder, and the goroutines around the cache) are
  step relations. The image tool follows references between indexes, which its code does not bound:
  its two recursions are partial functions with \<open>None\<close> for a run that does not end, and on every
  index that is a finite tree they are proved to return.

  \<^bold>\<open>Not modelled.\<close> Log output; the command texts and the entry point of the image tool; the wrapper that hands a
  patch's bytes to controller-runtime's client; the generated protobuf message, whose fields are the record
  \<open>cel_vars\<close>; the tests and their helpers. Of controller-runtime's caches it is assumed in \<open>AP_System\<close> that
  a reconcile reads the stored request, and of the cluster that nobody else decides requests;
  \<open>AP_LiveCluster\<close> assumes neither. That a decision stays as it is after a stale read rests on the
  admission webhook of cert-manager, which is not modelled. The lock of the registry is left out, since approvers are
  stored while packages are initialised, one after the other.
\<close>

end
